(* ===== verification/Prelude.thy ===== *)
theory Prelude
  imports Main
begin

text \<open>
  Shared vocabulary of the SpectralSkyViewer model: the Python exceptions the modelled code
  can raise (a result is \<open>py_exc + 'a\<close>, \<open>Inl\<close> the exception), the bind that propagates
  an exception the way an uncaught \<^verbatim>\<open>raise\<close> does, the ASCII character classes of
  CPython (\<^verbatim>\<open>str.isspace\<close>, the regex classes \<^verbatim>\<open>\d\<close> and \<^verbatim>\<open>\s\<close>, \<^verbatim>\<open>str.lower\<close>),
  decimal digit strings (\<^verbatim>\<open>int()\<close> of a digit string and the zero-padded rendering
  used by EXIF and SPA timestamps) and the lemmas the components share about them.
  Text is modelled as a list of ASCII characters: every input the modelled code
  reads is decoded text, and the model covers the ASCII part of it.
\<close>

named_theorems py_simps "evaluation rules of the Python model, used by the component proofs"

section \<open>Exceptions and results\<close>

datatype py_exc =
    ValueError
  | IndexError
  | FileNotFoundError
  | IsADirectoryError
  | CsvError
  | ReError
  | ZeroDivisionError
  | NotADirectoryError
  | OverflowError
  | AttributeError
  | FileExistsError
  | SameFileError
  | ShutilError
  | OSError
  | TypeError
  | Unmodelled

type_synonym 'a py = "py_exc + 'a"

definition py_bind :: "'a py \<Rightarrow> ('a \<Rightarrow> 'b py) \<Rightarrow> 'b py" where
  "py_bind r f = (case r of Inl e \<Rightarrow> Inl e | Inr x \<Rightarrow> f x)"

lemma py_bind_Inl [simp, py_simps]: "py_bind (Inl e) f = Inl e"
  and py_bind_Inr [simp, py_simps]: "py_bind (Inr x) f = f x"
  by (simp_all add: py_bind_def)

lemma py_bind_eq_Inr [simp]:
  "py_bind r f = Inr y \<longleftrightarrow> (\<exists>x. r = Inr x \<and> f x = Inr y)"
  by (cases r) (simp_all add: py_bind_def)

lemma py_bind_eq_Inl:
  "py_bind r f = Inl e \<longleftrightarrow> r = Inl e \<or> (\<exists>x. r = Inr x \<and> f x = Inl e)"
  by (cases r) (simp_all add: py_bind_def)

section \<open>Lists\<close>

definition hd_opt :: "'a list \<Rightarrow> 'a option" where
  "hd_opt xs = (case xs of [] \<Rightarrow> None | x # _ \<Rightarrow> Some x)"

lemma hd_opt_simps [simp]:
  "hd_opt [] = None"
  "hd_opt (x # xs) = Some x"
  by (simp_all add: hd_opt_def)

lemma hd_opt_append: "hd_opt (xs @ ys) = (case hd_opt xs of None \<Rightarrow> hd_opt ys | Some x \<Rightarrow> Some x)"
  by (cases xs) simp_all

lemma hd_opt_map: "hd_opt (map f xs) = map_option f (hd_opt xs)"
  by (cases xs) simp_all

section \<open>ASCII character classes\<close>

text \<open>
  CPython's \<^verbatim>\<open>str.isspace\<close> and the regex class \<^verbatim>\<open>\s\<close> agree on ASCII: tab, line feed,
  vertical tab, form feed, carriage return, the four information separators
  \<^verbatim>\<open>\x1c\<close>..\<^verbatim>\<open>\x1f\<close> and space.
\<close>

definition py_isspace :: "char \<Rightarrow> bool" where
  "py_isspace c \<longleftrightarrow> (9 \<le> (of_char c :: nat) \<and> of_char c \<le> (13 :: nat))
                   \<or> (28 \<le> (of_char c :: nat) \<and> of_char c \<le> (32 :: nat))"

definition py_isdigit :: "char \<Rightarrow> bool" where
  "py_isdigit c \<longleftrightarrow> 48 \<le> (of_char c :: nat) \<and> of_char c \<le> (57 :: nat)"

definition py_lower :: "char \<Rightarrow> char" where
  "py_lower c = (if 65 \<le> (of_char c :: nat) \<and> of_char c \<le> (90 :: nat)
                 then char_of (of_char c + (32 :: nat)) else c)"

definition str_lower :: "string \<Rightarrow> string" where
  "str_lower s = map py_lower s"

definition py_strip :: "string \<Rightarrow> string" where
  "py_strip s = rev (dropWhile py_isspace (rev (dropWhile py_isspace s)))"

section \<open>Decimal digit strings\<close>

definition digit_val :: "char \<Rightarrow> nat" where
  "digit_val c = of_char c - 48"

definition digit_char :: "nat \<Rightarrow> char" where
  "digit_char k = char_of (48 + k)"

text \<open>\<^verbatim>\<open>int(s)\<close> of a string of ASCII digits, most significant first.\<close>

definition digits_val :: "string \<Rightarrow> nat" where
  "digits_val s = foldl (\<lambda>n c. 10 * n + digit_val c) 0 s"

text \<open>The \<open>w\<close> last decimal digits of \<open>n\<close>, zero padded (\<^verbatim>\<open>'%0*d' % (w, n)\<close> for \<open>n < 10^w\<close>).\<close>

fun digits_of :: "nat \<Rightarrow> nat \<Rightarrow> string" where
  "digits_of 0 n = []"
| "digits_of (Suc w) n = digits_of w (n div 10) @ [digit_char (n mod 10)]"

lemma eq_char_of_iff: "c = char_of (n :: nat) \<longleftrightarrow> take_bit 8 n = of_char c"
  using char_of_eq_iff[of n c] by auto

lemma digit_val_digit_char [simp]: "k < 10 \<Longrightarrow> digit_val (digit_char k) = k"
  by (simp add: digit_val_def digit_char_def)

lemma of_char_digit_char [simp]: "k < 10 \<Longrightarrow> (of_char (digit_char k) :: nat) = 48 + k"
  by (simp add: digit_char_def)

lemma py_isdigit_digit_char [simp]: "k < 10 \<Longrightarrow> py_isdigit (digit_char k)"
  by (simp add: py_isdigit_def)

lemma not_py_isspace_digit_char [simp]: "k < 10 \<Longrightarrow> \<not> py_isspace (digit_char k)"
  by (simp add: py_isspace_def)

lemma mod_10_le_9 [simp]: "(n :: nat) mod 10 \<le> 9"
  by simp

lemma digit_char_eq_iff: "k < 10 \<Longrightarrow> (digit_char k = c) = ((of_char c :: nat) = 48 + k)"
  by (metis char_of_char digit_char_def of_char_digit_char)

lemma digit_char_inj: "j < 10 \<Longrightarrow> k < 10 \<Longrightarrow> digit_char j = digit_char k \<longleftrightarrow> j = k"
  by (metis digit_val_digit_char)

lemma digits_val_append [simp]:
  "digits_val (xs @ ys) = digits_val xs * 10 ^ length ys + digits_val ys"
proof (induction ys rule: rev_induct)
  case Nil
  then show ?case by (simp add: digits_val_def)
next
  case (snoc y ys)
  then show ?case
    by (simp add: digits_val_def algebra_simps)
qed

lemma length_digits_of [simp]: "length (digits_of w n) = w"
  by (induction w arbitrary: n) simp_all

lemma digits_val_digits_of [simp]: "digits_val (digits_of w n) = n mod 10 ^ w"
proof (induction w arbitrary: n)
  case 0
  then show ?case by (simp add: digits_val_def)
next
  case (Suc w)
  have "digits_val [digit_char (n mod 10)] = n mod 10"
    by (simp add: digits_val_def)
  with Suc show ?case
    by (simp add: mod_mult2_eq algebra_simps)
qed

lemma digits_of_all_digits: "\<forall>c \<in> set (digits_of w n). py_isdigit c"
  by (induction w arbitrary: n) auto

lemma digits_of_Suc_Cons:
  "\<exists>cs. digits_of (Suc w) n = digit_char (n div 10 ^ w mod 10) # cs"
proof (induction w arbitrary: n)
  case 0
  then show ?case by simp
next
  case (Suc w)
  from Suc[of "n div 10"] obtain cs
    where "digits_of (Suc w) (n div 10) = digit_char (n div 10 div 10 ^ w mod 10) # cs" ..
  then show ?case by (simp add: div_mult2_eq mult.commute)
qed

lemma digits_of_2: "digits_of 2 k = [digit_char (k div 10 mod 10), digit_char (k mod 10)]"
  by (simp add: numeral_2_eq_2)

lemma digits_of_4:
  "digits_of 4 k = [digit_char (k div 10 div 10 div 10 mod 10), digit_char (k div 10 div 10 mod 10),
                    digit_char (k div 10 mod 10), digit_char (k mod 10)]"
proof -
  have "(4::nat) = Suc (Suc (Suc (Suc 0)))" by simp
  then show ?thesis by (simp only:) simp
qed

lemma dropWhile_space_digits_of [simp]: "dropWhile py_isspace (digits_of w n) = digits_of w n"
proof (cases w)
  case (Suc v)
  then obtain cs where "digits_of w n = digit_char (n div 10 ^ v mod 10) # cs"
    using digits_of_Suc_Cons by blast
  then show ?thesis by simp
qed simp

lemma digits_of_eq_Nil_iff [simp]: "digits_of w n = [] \<longleftrightarrow> w = 0"
  by (metis length_0_conv length_digits_of)

lemma hd_digits_of_not_space [simp]: "0 < w \<Longrightarrow> \<not> py_isspace (hd (digits_of w n @ r))"
proof -
  assume "0 < w"
  then obtain v where v: "w = Suc v" by (cases w) auto
  obtain cs where "digits_of (Suc v) n = digit_char (n div 10 ^ v mod 10) # cs"
    using digits_of_Suc_Cons by blast
  then show ?thesis by (simp add: v)
qed

lemma hd_digits_of_not_space' [simp]: "0 < w \<Longrightarrow> \<not> py_isspace (hd (digits_of w n))"
  using hd_digits_of_not_space[of w n "[]"] by simp

lemma digits_of_not_Nil [simp]: "0 < w \<Longrightarrow> digits_of w n @ r \<noteq> []"
  by simp

lemma py_isspace_blank [simp]: "py_isspace CHR '' ''"
  by (simp add: py_isspace_def)

lemma digits_of_mod: "digits_of w (n mod 10 ^ w) = digits_of w n"
proof (induction w arbitrary: n)
  case 0
  then show ?case by simp
next
  case (Suc w)
  have "n mod 10 ^ Suc w div 10 = n div 10 mod 10 ^ w"
    by (simp add: mod_mult2_eq div_mult2_eq mult.commute)
  moreover have "n mod 10 ^ Suc w mod 10 = n mod 10"
    by (simp add: mod_mod_cancel)
  ultimately show ?case using Suc[of "n div 10"] by simp
qed

end
