(* ===== verification/DateTime.thy ===== *)
theory DateTime
  imports Prelude "HOL-Library.Product_Lexorder"
begin

text \<open>
  Python's naive \<^verbatim>\<open>datetime.datetime\<close>, the value both \<^verbatim>\<open>imageEXIFDateTime\<close> and
  \<^verbatim>\<open>loadSunPath\<close> produce. A value is the tuple of its seven fields; the constructor
  \<^verbatim>\<open>datetime(y, m, d, H, M, S, us)\<close> checks the fields in the order of CPython's
  \<^verbatim>\<open>_check_date_fields\<close> and \<^verbatim>\<open>_check_time_fields\<close> and raises \<^verbatim>\<open>ValueError\<close>
  otherwise (\<open>mk_datetime\<close>). \<^verbatim>\<open>datetime.min\<close> is \<open>datetime_min\<close>; comparison is
  lexicographic on the fields, which the \<open>linorder\<close> instance below makes the order of
  the type. Fields are natural numbers: every datetime the modelled code builds comes
  from digit strings or constants.
\<close>

datatype datetime = DateTime
  (dt_year: nat) (dt_month: nat) (dt_day: nat)
  (dt_hour: nat) (dt_minute: nat) (dt_second: nat) (dt_microsecond: nat)

definition MINYEAR :: nat where "MINYEAR = 1"
definition MAXYEAR :: nat where "MAXYEAR = 9999"

definition is_leap :: "nat \<Rightarrow> bool" where
  "is_leap y \<longleftrightarrow> y mod 4 = 0 \<and> (y mod 100 \<noteq> 0 \<or> y mod 400 = 0)"

definition DAYS_IN_MONTH :: "nat list" where
  "DAYS_IN_MONTH = [0, 31, 28, 31, 30, 31, 30, 31, 31, 30, 31, 30, 31]"

definition days_in_month :: "nat \<Rightarrow> nat \<Rightarrow> nat" where
  "days_in_month y m = (if m = 2 \<and> is_leap y then 29 else DAYS_IN_MONTH ! m)"

definition check_date_fields :: "nat \<Rightarrow> nat \<Rightarrow> nat \<Rightarrow> unit py" where
  "check_date_fields y m d =
     (if \<not> (MINYEAR \<le> y \<and> y \<le> MAXYEAR) then Inl ValueError
      else if \<not> (1 \<le> m \<and> m \<le> 12) then Inl ValueError
      else if \<not> (1 \<le> d \<and> d \<le> days_in_month y m) then Inl ValueError
      else Inr ())"

definition check_time_fields :: "nat \<Rightarrow> nat \<Rightarrow> nat \<Rightarrow> nat \<Rightarrow> unit py" where
  "check_time_fields h mi s us =
     (if \<not> h \<le> 23 then Inl ValueError
      else if \<not> mi \<le> 59 then Inl ValueError
      else if \<not> s \<le> 59 then Inl ValueError
      else if \<not> us \<le> 999999 then Inl ValueError
      else Inr ())"

text \<open>\<^verbatim>\<open>datetime.date(y, m, d)\<close>: only the date checks.\<close>

definition mk_date :: "nat \<Rightarrow> nat \<Rightarrow> nat \<Rightarrow> unit py" where
  "mk_date y m d = check_date_fields y m d"

definition mk_datetime :: "nat \<Rightarrow> nat \<Rightarrow> nat \<Rightarrow> nat \<Rightarrow> nat \<Rightarrow> nat \<Rightarrow> nat \<Rightarrow> datetime py" where
  "mk_datetime y m d h mi s us =
     py_bind (check_date_fields y m d) (\<lambda>_.
     py_bind (check_time_fields h mi s us) (\<lambda>_.
     Inr (DateTime y m d h mi s us)))"

definition datetime_min :: datetime where
  "datetime_min = DateTime 1 1 1 0 0 0 0"

definition valid_datetime :: "datetime \<Rightarrow> bool" where
  "valid_datetime dt \<longleftrightarrow>
     MINYEAR \<le> dt_year dt \<and> dt_year dt \<le> MAXYEAR \<and>
     1 \<le> dt_month dt \<and> dt_month dt \<le> 12 \<and>
     1 \<le> dt_day dt \<and> dt_day dt \<le> days_in_month (dt_year dt) (dt_month dt) \<and>
     dt_hour dt \<le> 23 \<and> dt_minute dt \<le> 59 \<and> dt_second dt \<le> 59 \<and>
     dt_microsecond dt \<le> 999999"

definition dt_key :: "datetime \<Rightarrow> nat \<times> nat \<times> nat \<times> nat \<times> nat \<times> nat \<times> nat" where
  "dt_key dt = (dt_year dt, dt_month dt, dt_day dt, dt_hour dt, dt_minute dt,
                dt_second dt, dt_microsecond dt)"

lemma dt_key_inj: "dt_key a = dt_key b \<Longrightarrow> a = b"
  by (cases a; cases b) (simp add: dt_key_def)

instantiation datetime :: linorder
begin

definition less_eq_datetime :: "datetime \<Rightarrow> datetime \<Rightarrow> bool" where
  "a \<le> b \<longleftrightarrow> dt_key a \<le> dt_key b"

definition less_datetime :: "datetime \<Rightarrow> datetime \<Rightarrow> bool" where
  "a < b \<longleftrightarrow> dt_key a < dt_key b"

instance
proof
  fix a b c :: datetime
  show "a < b \<longleftrightarrow> a \<le> b \<and> \<not> b \<le> a"
    by (auto simp: less_eq_datetime_def less_datetime_def)
  show "a \<le> a" by (simp add: less_eq_datetime_def)
  show "a \<le> b \<Longrightarrow> b \<le> c \<Longrightarrow> a \<le> c"
    unfolding less_eq_datetime_def by (rule order_trans)
  show "a \<le> b \<Longrightarrow> b \<le> a \<Longrightarrow> a = b"
    unfolding less_eq_datetime_def by (blast intro: dt_key_inj antisym)
  show "a \<le> b \<or> b \<le> a"
    by (simp add: less_eq_datetime_def linear)
qed

end

section \<open>Facts about the constructor\<close>

lemma month_cases:
  "(m :: nat) \<le> 12 \<Longrightarrow> m = 0 \<or> m = 1 \<or> m = 2 \<or> m = 3 \<or> m = 4 \<or> m = 5 \<or> m = 6 \<or>
     m = 7 \<or> m = 8 \<or> m = 9 \<or> m = 10 \<or> m = 11 \<or> m = 12"
  by presburger

lemma days_in_month_pos: "1 \<le> m \<Longrightarrow> m \<le> 12 \<Longrightarrow> 28 \<le> days_in_month y m"
  by (drule month_cases) (auto simp: days_in_month_def DAYS_IN_MONTH_def)

lemma days_in_month_le_31: "m \<le> 12 \<Longrightarrow> days_in_month y m \<le> 31"
  by (drule month_cases) (auto simp: days_in_month_def DAYS_IN_MONTH_def)

lemma mk_datetime_eq_Inr_iff [py_simps]:
  "mk_datetime y m d h mi s us = Inr dt \<longleftrightarrow>
     dt = DateTime y m d h mi s us \<and> valid_datetime dt"
  by (auto simp: mk_datetime_def check_date_fields_def check_time_fields_def
                 valid_datetime_def split: if_splits)

lemma mk_datetime_error:
  "mk_datetime y m d h mi s us = Inl e \<Longrightarrow> e = ValueError"
  by (auto simp: mk_datetime_def py_bind_def check_date_fields_def check_time_fields_def
           split: if_splits sum.splits)

lemma mk_datetime_cases:
  "mk_datetime y m d h mi s us =
     (if valid_datetime (DateTime y m d h mi s us) then Inr (DateTime y m d h mi s us)
      else Inl ValueError)"
  by (auto simp: mk_datetime_def check_date_fields_def check_time_fields_def
                 valid_datetime_def)

lemma mk_date_ok_iff:
  "mk_date y m d = Inr () \<longleftrightarrow> valid_datetime (DateTime y m d 0 0 0 0)"
  by (auto simp: mk_date_def check_date_fields_def valid_datetime_def split: if_splits)

lemma valid_datetime_date_part:
  "valid_datetime (DateTime y m d h mi s us) \<Longrightarrow> valid_datetime (DateTime y m d 0 0 0 0)"
  by (simp add: valid_datetime_def)

lemma valid_datetime_min: "valid_datetime datetime_min"
  by (simp add: valid_datetime_def datetime_min_def MINYEAR_def MAXYEAR_def
                days_in_month_def DAYS_IN_MONTH_def)

lemma datetime_min_le_valid: "valid_datetime dt \<Longrightarrow> datetime_min \<le> dt"
  by (cases dt) (auto simp: valid_datetime_def datetime_min_def less_eq_datetime_def
                            dt_key_def MINYEAR_def)

end
