(* ===== verification/Strptime.thy ===== *)
theory Strptime
  imports DateTime
begin

text \<open>
  CPython's \<^verbatim>\<open>datetime.strptime(data, format)\<close> (\<^verbatim>\<open>Lib/_strptime.py\<close>), which both
  timestamp parsers of the repository call. \<^verbatim>\<open>TimeRE.pattern\<close> turns the format into a
  regular expression: a run of whitespace becomes \<^verbatim>\<open>\s+\<close>, a directive \<^verbatim>\<open>%x\<close> becomes
  the named group of the directive table, every other character matches itself (the regex
  is compiled with \<^verbatim>\<open>IGNORECASE\<close>). \<^verbatim>\<open>re.match\<close> takes the first match of a backtracking
  search, whose end must be the end of the data (otherwise "unconverted data remains");
  the groups set the fields in pattern order, a missing year is 1900 (1904 while the
  date is checked when it is 29 February), and \<^verbatim>\<open>datetime(...)\<close> checks the result.

  The numeric directives \<^verbatim>\<open>%Y %y %m %d %H %M %S %f\<close> and \<^verbatim>\<open>%%\<close> are modelled with
  their regular expressions. The locale and week directives are compiled to \<open>FOther\<close>
  and parsing with them gives \<open>Unmodelled\<close>; a directive outside the table raises
  \<^verbatim>\<open>ValueError\<close>, as a repeated group name raises \<^verbatim>\<open>re.error\<close> (\<open>ReError\<close>).

  The regex semantics is given twice: \<open>match_all\<close> lists every match in the order of the
  backtracking search (the declarative reference), \<open>match_first\<close> stops at the first
  (what the engine computes), and \<open>match_first_eq_hd\<close> shows that they agree.
\<close>

section \<open>The directive table\<close>

datatype catom = CDigit | CRange char char | CLit char

fun catom_ok :: "catom \<Rightarrow> char \<Rightarrow> bool" where
  "catom_ok CDigit c = py_isdigit c"
| "catom_ok (CRange a b) c = ((of_char a :: nat) \<le> of_char c \<and> (of_char c :: nat) \<le> of_char b)"
| "catom_ok (CLit a) c = (c = a)"

fun match_atoms :: "catom list \<Rightarrow> string \<Rightarrow> (string \<times> string) option" where
  "match_atoms [] s = Some ([], s)"
| "match_atoms (a # as) [] = None"
| "match_atoms (a # as) (c # cs) =
     (if catom_ok a c then map_option (\<lambda>(t, r). (c # t, r)) (match_atoms as cs) else None)"

text \<open>
  The alternatives of \<^verbatim>\<open>TimeRE\<close>'s regular expressions, in their order:
  \<^verbatim>\<open>'d': 3[0-1]|[1-2]\d|0[1-9]|[1-9]| [1-9]\<close>, \<^verbatim>\<open>'f': [0-9]{1,6}\<close> (greedy, longest first),
  \<^verbatim>\<open>'H': 2[0-3]|[0-1]\d|\d\<close>, \<^verbatim>\<open>'m': 1[0-2]|0[1-9]|[1-9]\<close>, \<^verbatim>\<open>'M': [0-5]\d|\d\<close>,
  \<^verbatim>\<open>'S': 6[0-1]|[0-5]\d|\d\<close>, \<^verbatim>\<open>'y': \d\d\<close>, \<^verbatim>\<open>'Y': \d\d\d\d\<close>.
\<close>

definition directive_alts :: "char \<Rightarrow> catom list list" where
  "directive_alts d =
    (if d = CHR ''d'' then
       [[CLit CHR ''3'', CRange CHR ''0'' CHR ''1''], [CRange CHR ''1'' CHR ''2'', CDigit],
        [CLit CHR ''0'', CRange CHR ''1'' CHR ''9''], [CRange CHR ''1'' CHR ''9''],
        [CLit CHR '' '', CRange CHR ''1'' CHR ''9'']]
     else if d = CHR ''f'' then map (\<lambda>n. replicate n CDigit) [6, 5, 4, 3, 2, 1]
     else if d = CHR ''H'' then
       [[CLit CHR ''2'', CRange CHR ''0'' CHR ''3''], [CRange CHR ''0'' CHR ''1'', CDigit], [CDigit]]
     else if d = CHR ''m'' then
       [[CLit CHR ''1'', CRange CHR ''0'' CHR ''2''], [CLit CHR ''0'', CRange CHR ''1'' CHR ''9''],
        [CRange CHR ''1'' CHR ''9'']]
     else if d = CHR ''M'' then [[CRange CHR ''0'' CHR ''5'', CDigit], [CDigit]]
     else if d = CHR ''S'' then
       [[CLit CHR ''6'', CRange CHR ''0'' CHR ''1''], [CRange CHR ''0'' CHR ''5'', CDigit], [CDigit]]
     else if d = CHR ''y'' then [[CDigit, CDigit]]
     else if d = CHR ''Y'' then [[CDigit, CDigit, CDigit, CDigit]]
     else [])"

definition modelled_directives :: string where
  "modelled_directives = ''YymdHMSf''"

text \<open>The other keys of \<^verbatim>\<open>TimeRE\<close>: locale names, week numbers, day of year, time zones.\<close>

definition other_directives :: string where
  "other_directives = ''IGjUwuVzAaBbpZWcxX''"

section \<open>Compiling the format\<close>

datatype fitem = FLit char | FWs | FDir char | FOther char

function compile_fmt :: "string \<Rightarrow> fitem list py" where
  "compile_fmt [] = Inr []"
| "compile_fmt (c # cs) =
     (if c = CHR ''%'' then
        (case cs of
           [] \<Rightarrow> Inl ValueError
         | d # ds \<Rightarrow>
             (if d = CHR ''%'' then map_sum id (Cons (FLit CHR ''%'')) (compile_fmt ds)
              else if d \<in> set modelled_directives then map_sum id (Cons (FDir d)) (compile_fmt ds)
              else if d \<in> set other_directives then map_sum id (Cons (FOther d)) (compile_fmt ds)
              else Inl ValueError))
      else if py_isspace c then map_sum id (Cons FWs) (compile_fmt (dropWhile py_isspace cs))
      else map_sum id (Cons (FLit c)) (compile_fmt cs))"
  by pat_completeness auto
termination
  by (relation "measure length") (auto simp: le_imp_less_Suc length_dropWhile_le)

fun group_names :: "fitem list \<Rightarrow> char list" where
  "group_names [] = []"
| "group_names (FDir d # fs) = d # group_names fs"
| "group_names (FOther d # fs) = d # group_names fs"
| "group_names (_ # fs) = group_names fs"

fun has_other :: "fitem list \<Rightarrow> bool" where
  "has_other [] = False"
| "has_other (FOther d # fs) = True"
| "has_other (_ # fs) = has_other fs"

section \<open>Matching\<close>

text \<open>\<^verbatim>\<open>\s+\<close> is greedy: the longest run of whitespace is tried first.\<close>

definition ws_rests :: "string \<Rightarrow> string list" where
  "ws_rests s = map (\<lambda>j. drop j s) (rev [1..<Suc (length (takeWhile py_isspace s))])"

definition dir_match :: "char \<Rightarrow> string \<Rightarrow> (string \<times> string) list" where
  "dir_match d s = List.map_filter (\<lambda>alt. match_atoms alt s) (directive_alts d)"

type_synonym captures = "(char \<times> string) list"

text \<open>Every match, in the order the backtracking search finds them.\<close>

fun match_all :: "fitem list \<Rightarrow> string \<Rightarrow> (captures \<times> string) list" where
  "match_all [] s = [([], s)]"
| "match_all (FLit c # fs) s =
     (case s of [] \<Rightarrow> [] | x # xs \<Rightarrow> if py_lower x = py_lower c then match_all fs xs else [])"
| "match_all (FWs # fs) s = concat (map (match_all fs) (ws_rests s))"
| "match_all (FDir d # fs) s =
     concat (map (\<lambda>(t, r). map (\<lambda>(cs, r'). ((d, t) # cs, r')) (match_all fs r)) (dir_match d s))"
| "match_all (FOther d # fs) s = []"

fun first_some :: "('a \<Rightarrow> 'b option) \<Rightarrow> 'a list \<Rightarrow> 'b option" where
  "first_some f [] = None"
| "first_some f (x # xs) = (case f x of Some y \<Rightarrow> Some y | None \<Rightarrow> first_some f xs)"

text \<open>The first match, as \<^verbatim>\<open>re.match\<close> computes it.\<close>

fun match_first :: "fitem list \<Rightarrow> string \<Rightarrow> (captures \<times> string) option" where
  "match_first [] s = Some ([], s)"
| "match_first (FLit c # fs) s =
     (case s of [] \<Rightarrow> None | x # xs \<Rightarrow> if py_lower x = py_lower c then match_first fs xs else None)"
| "match_first (FWs # fs) s = first_some (match_first fs) (ws_rests s)"
| "match_first (FDir d # fs) s =
     first_some (\<lambda>(t, r). map_option (\<lambda>(cs, r'). ((d, t) # cs, r')) (match_first fs r))
                (dir_match d s)"
| "match_first (FOther d # fs) s = None"

section \<open>Fields\<close>

record tfields =
  tf_year :: "nat option"
  tf_month :: nat
  tf_day :: nat
  tf_hour :: nat
  tf_minute :: nat
  tf_second :: nat
  tf_fraction :: nat

definition init_fields :: tfields where
  "init_fields = \<lparr>tf_year = None, tf_month = 1, tf_day = 1, tf_hour = 0, tf_minute = 0,
                  tf_second = 0, tf_fraction = 0\<rparr>"

text \<open>\<^verbatim>\<open>int(s)\<close> of a group: digits, with the leading blank that \<^verbatim>\<open>%d\<close> admits.\<close>

definition py_int :: "string \<Rightarrow> nat" where
  "py_int s = digits_val (dropWhile py_isspace s)"

fun set_field :: "char \<times> string \<Rightarrow> tfields \<Rightarrow> tfields" where
  "set_field (d, t) f =
    (if d = CHR ''y'' then
       (let v = py_int t in f\<lparr>tf_year := Some (if v \<le> 68 then v + 2000 else v + 1900)\<rparr>)
     else if d = CHR ''Y'' then f\<lparr>tf_year := Some (py_int t)\<rparr>
     else if d = CHR ''m'' then f\<lparr>tf_month := py_int t\<rparr>
     else if d = CHR ''d'' then f\<lparr>tf_day := py_int t\<rparr>
     else if d = CHR ''H'' then f\<lparr>tf_hour := py_int t\<rparr>
     else if d = CHR ''M'' then f\<lparr>tf_minute := py_int t\<rparr>
     else if d = CHR ''S'' then f\<lparr>tf_second := py_int t\<rparr>
     else if d = CHR ''f'' then f\<lparr>tf_fraction := py_int (t @ replicate (6 - length t) CHR ''0'')\<rparr>
     else f)"

definition fields_datetime :: "tfields \<Rightarrow> datetime py" where
  "fields_datetime f =
    (let (year, leap_year_fix) =
       (case tf_year f of
          None \<Rightarrow> if tf_month f = 2 \<and> tf_day f = 29 then (1904, True) else (1900, False)
        | Some y \<Rightarrow> (y, False))
     in py_bind (mk_date year (tf_month f) (tf_day f)) (\<lambda>_.
        mk_datetime (if leap_year_fix then 1900 else year) (tf_month f) (tf_day f)
          (tf_hour f) (tf_minute f) (tf_second f) (tf_fraction f)))"

definition strptime :: "string \<Rightarrow> string \<Rightarrow> datetime py" where
  "strptime data fmt =
     py_bind (compile_fmt fmt) (\<lambda>fs.
       if has_other fs then Inl Unmodelled
       else if \<not> distinct (group_names fs) then Inl ReError
       else case match_first fs data of
              None \<Rightarrow> Inl ValueError
            | Some (caps, rest) \<Rightarrow>
                if rest \<noteq> [] then Inl ValueError
                else fields_datetime (fold set_field caps init_fields))"

section \<open>The formats of the repository\<close>

definition EXIF_DT_FORMAT :: string where
  "EXIF_DT_FORMAT = ''%Y:%m:%d %H:%M:%S''"

definition SPA_DT_FORMAT :: string where
  "SPA_DT_FORMAT = ''%m/%d/%Y %H:%M:%S''"

section \<open>Renderings of a datetime in the two formats\<close>

text \<open>
  The zero-padded text a camera writes into \<^verbatim>\<open>EXIF DateTimeOriginal\<close>
  (\<^verbatim>\<open>YYYY:MM:DD HH:MM:SS\<close>) and the text of the SPA calculator's \<^verbatim>\<open>Date\<close> and
  \<^verbatim>\<open>Time\<close> columns joined by a blank (\<^verbatim>\<open>MM/DD/YYYY HH:MM:SS\<close>): the
  specification side of the round trips below.
\<close>

definition fmt_time :: "datetime \<Rightarrow> string" where
  "fmt_time dt = digits_of 2 (dt_hour dt) @ CHR '':'' # digits_of 2 (dt_minute dt) @
                 CHR '':'' # digits_of 2 (dt_second dt)"

definition fmt_exif :: "datetime \<Rightarrow> string" where
  "fmt_exif dt = digits_of 4 (dt_year dt) @ CHR '':'' # digits_of 2 (dt_month dt) @
                 CHR '':'' # digits_of 2 (dt_day dt) @ CHR '' '' # fmt_time dt"

definition spa_date :: "datetime \<Rightarrow> string" where
  "spa_date dt = digits_of 2 (dt_month dt) @ CHR ''/'' # digits_of 2 (dt_day dt) @
                 CHR ''/'' # digits_of 4 (dt_year dt)"

definition fmt_spa :: "datetime \<Rightarrow> string" where
  "fmt_spa dt = spa_date dt @ CHR '' '' # fmt_time dt"

definition TIME_ITEMS :: "fitem list" where
  "TIME_ITEMS = [FWs, FDir CHR ''H'', FLit CHR '':'', FDir CHR ''M'', FLit CHR '':'', FDir CHR ''S'']"

definition time_caps :: "datetime \<Rightarrow> captures" where
  "time_caps dt = [(CHR ''H'', digits_of 2 (dt_hour dt)), (CHR ''M'', digits_of 2 (dt_minute dt)),
                   (CHR ''S'', digits_of 2 (dt_second dt))]"

definition exif_caps :: "datetime \<Rightarrow> captures" where
  "exif_caps dt = [(CHR ''Y'', digits_of 4 (dt_year dt)), (CHR ''m'', digits_of 2 (dt_month dt)),
                   (CHR ''d'', digits_of 2 (dt_day dt))] @ time_caps dt"

definition spa_caps :: "datetime \<Rightarrow> captures" where
  "spa_caps dt = [(CHR ''m'', digits_of 2 (dt_month dt)), (CHR ''d'', digits_of 2 (dt_day dt)),
                  (CHR ''Y'', digits_of 4 (dt_year dt))] @ time_caps dt"

section \<open>The backtracking engine computes the first match\<close>

lemma first_some_concat:
  "(\<And>x. x \<in> set xs \<Longrightarrow> f x = hd_opt (g x)) \<Longrightarrow> first_some f xs = hd_opt (concat (map g xs))"
  by (induction xs) (auto simp: hd_opt_append split: option.splits)

theorem match_first_eq_hd: "match_first fs s = hd_opt (match_all fs s)"
proof (induction fs s rule: match_all.induct)
  case (4 d fs s)
  then show ?case
    by (auto intro!: first_some_concat simp: hd_opt_map)
qed (auto intro: first_some_concat split: list.splits)

section \<open>Compiled formats\<close>

lemmas strptime_eval [py_simps] =
  strptime_def SPA_DT_FORMAT_def EXIF_DT_FORMAT_def modelled_directives_def other_directives_def
  py_isspace_def py_isdigit_def py_lower_def dir_match_def directive_alts_def ws_rests_def
  fields_datetime_def init_fields_def py_int_def digits_val_def digit_val_def mk_date_def
  mk_datetime_def check_date_fields_def check_time_fields_def days_in_month_def
  DAYS_IN_MONTH_def is_leap_def MINYEAR_def MAXYEAR_def

lemma compile_EXIF:
  "compile_fmt EXIF_DT_FORMAT =
     Inr ([FDir CHR ''Y'', FLit CHR '':'', FDir CHR ''m'', FLit CHR '':'', FDir CHR ''d''] @ TIME_ITEMS)"
  by (simp add: EXIF_DT_FORMAT_def TIME_ITEMS_def modelled_directives_def py_isspace_def)

lemma compile_SPA:
  "compile_fmt SPA_DT_FORMAT =
     Inr ([FDir CHR ''m'', FLit CHR ''/'', FDir CHR ''d'', FLit CHR ''/'', FDir CHR ''Y''] @ TIME_ITEMS)"
  by (simp add: SPA_DT_FORMAT_def TIME_ITEMS_def modelled_directives_def py_isspace_def)

section \<open>Errors and results\<close>

lemma fields_datetime_Inl: "fields_datetime f = Inl e \<Longrightarrow> e = ValueError"
  by (auto simp: fields_datetime_def py_bind_eq_Inl mk_date_def check_date_fields_def
           dest: mk_datetime_error split: option.splits if_splits prod.splits)

lemma fields_datetime_valid: "fields_datetime f = Inr dt \<Longrightarrow> valid_datetime dt"
  by (auto simp: fields_datetime_def mk_datetime_eq_Inr_iff split: option.splits if_splits prod.splits)

lemma strptime_Inr_valid: "strptime s fmt = Inr dt \<Longrightarrow> valid_datetime dt"
  by (auto simp: strptime_def dest: fields_datetime_valid split: if_splits option.splits prod.splits)

lemma strptime_items_Inl:
  assumes "compile_fmt fmt = Inr fs" "\<not> has_other fs" "distinct (group_names fs)"
    and "strptime s fmt = Inl e"
  shows "e = ValueError"
  using assms
  by (auto simp: strptime_def dest: fields_datetime_Inl split: option.splits prod.splits if_splits)

section \<open>Matching zero-padded timestamps\<close>

lemmas dir_match_unfold = dir_match_def directive_alts_def digit_char_eq_iff py_isdigit_def

definition two_digit_ok :: "char \<Rightarrow> nat \<Rightarrow> bool" where
  "two_digit_ok d k \<longleftrightarrow>
     (d = CHR ''m'' \<and> 1 \<le> k \<and> k \<le> 12) \<or> (d = CHR ''d'' \<and> 1 \<le> k \<and> k \<le> 31) \<or>
     (d = CHR ''H'' \<and> k \<le> 23) \<or> (d = CHR ''M'' \<and> k \<le> 59) \<or> (d = CHR ''S'' \<and> k \<le> 59)"

lemma dir_match_two_chars:
  assumes "a < 10" "b < 10" "two_digit_ok d (10 * a + b)"
  shows "dir_match d (digit_char a # digit_char b # r) \<noteq> [] \<and>
         hd (dir_match d (digit_char a # digit_char b # r)) = ([digit_char a, digit_char b], r)"
proof -
  consider "d = CHR ''m''" "1 \<le> 10 * a + b" "10 * a + b \<le> 12"
    | "d = CHR ''d''" "1 \<le> 10 * a + b" "10 * a + b \<le> 31"
    | "d = CHR ''H''" "10 * a + b \<le> 23" | "d = CHR ''M''" "10 * a + b \<le> 59"
    | "d = CHR ''S''" "10 * a + b \<le> 59"
    using assms(3) unfolding two_digit_ok_def by blast
  then show ?thesis
    by cases (use assms(1,2) in \<open>simp_all add: dir_match_unfold\<close>)
qed

lemma dir_match_two:
  assumes "two_digit_ok d k"
  shows "dir_match d (digits_of 2 k @ r) \<noteq> [] \<and> hd (dir_match d (digits_of 2 k @ r)) = (digits_of 2 k, r)"
proof -
  have "k < 100" using assms by (auto simp: two_digit_ok_def)
  then have "10 * (k div 10 mod 10) + k mod 10 = k" by simp
  with assms have "two_digit_ok d (10 * (k div 10 mod 10) + k mod 10)" by simp
  then show ?thesis
    using dir_match_two_chars[of "k div 10 mod 10" "k mod 10" d r] by (simp add: digits_of_2)
qed

lemma dir_match_Y: "dir_match CHR ''Y'' (digits_of 4 y @ r) = [(digits_of 4 y, r)]"
  by (simp add: digits_of_4 dir_match_unfold)

lemma match_first_dir_step:
  assumes "dir_match d (t @ r) \<noteq> []" "hd (dir_match d (t @ r)) = (t, r)"
    and "match_first fs r = Some (cs, x)"
  shows "match_first (FDir d # fs) (t @ r) = Some ((d, t) # cs, x)"
proof -
  from assms(1,2) obtain more where "dir_match d (t @ r) = (t, r) # more"
    by (cases "dir_match d (t @ r)") auto
  with assms(3) show ?thesis by simp
qed

lemma match_first_lit_step:
  "py_lower c' = py_lower c \<Longrightarrow> match_first fs r = Some m \<Longrightarrow> match_first (FLit c # fs) (c' # r) = Some m"
  by simp

lemma ws_rests_single: "py_isspace w \<Longrightarrow> r \<noteq> [] \<Longrightarrow> \<not> py_isspace (hd r) \<Longrightarrow> ws_rests (w # r) = [r]"
  by (cases r) (simp_all add: ws_rests_def)

lemma match_first_ws_step:
  "py_isspace w \<Longrightarrow> r \<noteq> [] \<Longrightarrow> \<not> py_isspace (hd r) \<Longrightarrow> match_first fs r = Some m \<Longrightarrow>
   match_first (FWs # fs) (w # r) = Some m"
  by (simp add: ws_rests_single)

lemma match_first_time:
  assumes "valid_datetime dt"
  shows "match_first TIME_ITEMS (CHR '' '' # fmt_time dt @ x) = Some (time_caps dt, x)"
proof -
  have ok: "two_digit_ok CHR ''H'' (dt_hour dt)" "two_digit_ok CHR ''M'' (dt_minute dt)"
    "two_digit_ok CHR ''S'' (dt_second dt)"
    using assms by (simp_all add: two_digit_ok_def valid_datetime_def)
  show ?thesis
    unfolding TIME_ITEMS_def fmt_time_def time_caps_def append_assoc append_Cons
    by (intro match_first_ws_step match_first_dir_step match_first_lit_step)
       (simp_all add: dir_match_two ok)
qed

lemma match_first_exif:
  assumes "valid_datetime dt"
  shows "match_first ([FDir CHR ''Y'', FLit CHR '':'', FDir CHR ''m'', FLit CHR '':'', FDir CHR ''d''] @ TIME_ITEMS)
           (fmt_exif dt @ x) = Some (exif_caps dt, x)"
proof -
  have ok: "two_digit_ok CHR ''m'' (dt_month dt)" "two_digit_ok CHR ''d'' (dt_day dt)"
    using assms days_in_month_le_31[of "dt_month dt" "dt_year dt"]
    by (simp_all add: two_digit_ok_def valid_datetime_def)
  show ?thesis
    unfolding fmt_exif_def exif_caps_def append_assoc append_Cons append.simps
    by (intro match_first_dir_step match_first_lit_step)
       (simp_all add: dir_match_two dir_match_Y ok match_first_time assms)
qed

lemma match_first_spa:
  assumes "valid_datetime dt"
  shows "match_first ([FDir CHR ''m'', FLit CHR ''/'', FDir CHR ''d'', FLit CHR ''/'', FDir CHR ''Y''] @ TIME_ITEMS)
           (fmt_spa dt @ x) = Some (spa_caps dt, x)"
proof -
  have ok: "two_digit_ok CHR ''m'' (dt_month dt)" "two_digit_ok CHR ''d'' (dt_day dt)"
    using assms days_in_month_le_31[of "dt_month dt" "dt_year dt"]
    by (simp_all add: two_digit_ok_def valid_datetime_def)
  show ?thesis
    unfolding fmt_spa_def spa_date_def spa_caps_def append_assoc append_Cons append.simps
    by (intro match_first_dir_step match_first_lit_step)
       (simp_all add: dir_match_two dir_match_Y ok match_first_time assms)
qed

lemma fields_of_caps:
  assumes "valid_datetime dt" "dt_microsecond dt = 0"
  shows "fold set_field (exif_caps dt) init_fields = fold set_field (spa_caps dt) init_fields"
    and "fields_datetime (fold set_field (exif_caps dt) init_fields) = Inr dt"
proof -
  have b: "dt_year dt < 10000" "dt_month dt < 100" "dt_day dt < 100" "dt_hour dt < 100"
    "dt_minute dt < 100" "dt_second dt < 100"
    using assms(1) days_in_month_le_31[of "dt_month dt" "dt_year dt"]
    by (auto simp: valid_datetime_def MAXYEAR_def)
  show "fold set_field (exif_caps dt) init_fields = fold set_field (spa_caps dt) init_fields"
    by (simp add: exif_caps_def spa_caps_def time_caps_def init_fields_def)
  show "fields_datetime (fold set_field (exif_caps dt) init_fields) = Inr dt"
    using assms b
    by (cases dt) (simp add: exif_caps_def time_caps_def init_fields_def py_int_def
        fields_datetime_def mk_date_ok_iff mk_datetime_cases valid_datetime_date_part)
qed

section \<open>Round trips\<close>

lemma strptime_exif_append:
  assumes "valid_datetime dt" "dt_microsecond dt = 0"
  shows "strptime (fmt_exif dt @ x) EXIF_DT_FORMAT = (if x = [] then Inr dt else Inl ValueError)"
proof -
  let ?fs = "[FDir CHR ''Y'', FLit CHR '':'', FDir CHR ''m'', FLit CHR '':'', FDir CHR ''d''] @ TIME_ITEMS"
  have o: "\<not> has_other ?fs" "distinct (group_names ?fs)" by (simp_all add: TIME_ITEMS_def)
  show ?thesis
    unfolding strptime_def compile_EXIF py_bind_Inr match_first_exif[OF assms(1)]
    using o fields_of_caps(2)[OF assms] by simp
qed

lemma strptime_spa_append:
  assumes "valid_datetime dt" "dt_microsecond dt = 0"
  shows "strptime (fmt_spa dt @ x) SPA_DT_FORMAT = (if x = [] then Inr dt else Inl ValueError)"
proof -
  let ?fs = "[FDir CHR ''m'', FLit CHR ''/'', FDir CHR ''d'', FLit CHR ''/'', FDir CHR ''Y''] @ TIME_ITEMS"
  have o: "\<not> has_other ?fs" "distinct (group_names ?fs)" by (simp_all add: TIME_ITEMS_def)
  show ?thesis
    unfolding strptime_def compile_SPA py_bind_Inr match_first_spa[OF assms(1)]
    using o fields_of_caps[OF assms] by simp
qed

end
