(* ===== verification/PyFloat.thy ===== *)
theory PyFloat
  imports Prelude Complex_Main
begin

text \<open>
  Python's \<^verbatim>\<open>float\<close>: \<^verbatim>\<open>float(s)\<close> of a CSV field and the subtraction
  \<^verbatim>\<open>90 - float(row[2])\<close> of \<^verbatim>\<open>loadSunPath\<close>, with the comparisons that filter its
  rows. A value is an IEEE 754 binary64 number: a finite value (its exact rational value;
  \<^verbatim>\<open>-0.0\<close> is identified with \<^verbatim>\<open>0.0\<close>, which Python's \<^verbatim>\<open>==\<close> and \<^verbatim>\<open><=\<close> do
  not tell apart), an infinity or NaN. A decimal literal is read exactly and rounded once to
  the nearest binary64 value, ties to even, overflowing to infinity (\<open>to_double\<close>), as
  CPython's \<^verbatim>\<open>_Py_dg_strtod\<close> does; a subtraction rounds its exact difference the same way.

  \<^verbatim>\<open>float(s)\<close> follows CPython's \<^verbatim>\<open>PyFloat_FromString\<close>: an underscore is allowed only
  between two digits (\<^verbatim>\<open>_Py_string_to_number_with_underscores\<close>) and is then removed,
  surrounding whitespace is stripped, an optional sign precedes \<^verbatim>\<open>inf\<close>,
  \<^verbatim>\<open>infinity\<close>, \<^verbatim>\<open>nan\<close> (any case) or a decimal literal
  \<^verbatim>\<open>digits [. digits] [(e|E) [sign] digits]\<close> with at least one mantissa digit, and
  anything else raises \<^verbatim>\<open>ValueError\<close>.
\<close>

datatype pyfloat = Fin rat | PInf | NInf | NaN

section \<open>Rounding to binary64\<close>

definition pow2 :: "int \<Rightarrow> rat" where
  "pow2 e = (if 0 \<le> e then 2 ^ nat e else 1 / 2 ^ nat (- e))"

definition pow10 :: "int \<Rightarrow> rat" where
  "pow10 e = (if 0 \<le> e then 10 ^ nat e else 1 / 10 ^ nat (- e))"

text \<open>The number of binary digits of a natural number.\<close>

fun bitlen :: "nat \<Rightarrow> nat" where
  "bitlen 0 = 0"
| "bitlen n = Suc (bitlen (n div 2))"

text \<open>\<open>\<lfloor>log\<^sub>2 a\<rfloor>\<close> of a positive rational \<open>p / q\<close>: \<open>bitlen p - bitlen q\<close> or one less.\<close>

definition flog2 :: "rat \<Rightarrow> int" where
  "flog2 a = (let (p, q) = quotient_of a;
                  e = int (bitlen (nat p)) - int (bitlen (nat q))
              in if pow2 e \<le> a then e else e - 1)"

definition round_even :: "rat \<Rightarrow> int" where
  "round_even x = (let f = \<lfloor>x\<rfloor>; d = x - of_int f in
                   if d < 1 / 2 then f else if 1 / 2 < d then f + 1
                   else if even f then f else f + 1)"

text \<open>
  A positive value has 53 significant bits, or is a multiple of \<open>2\<^sup>-\<^sup>1\<^sup>0\<^sup>7\<^sup>4\<close> below
  \<open>2\<^sup>-\<^sup>1\<^sup>0\<^sup>2\<^sup>2\<close> (subnormal); a rounded value of \<open>2\<^sup>1\<^sup>0\<^sup>2\<^sup>4\<close> or more is infinite.
\<close>

definition round_pos :: "rat \<Rightarrow> pyfloat" where
  "round_pos a = (let q = max (flog2 a - 52) (-1074);
                      v = of_int (round_even (a / pow2 q)) * pow2 q
                  in if pow2 1024 \<le> v then PInf else Fin v)"

fun fneg :: "pyfloat \<Rightarrow> pyfloat" where
  "fneg (Fin v) = Fin (- v)"
| "fneg PInf = NInf"
| "fneg NInf = PInf"
| "fneg NaN = NaN"

definition to_double :: "rat \<Rightarrow> pyfloat" where
  "to_double a = (if a = 0 then Fin 0 else if 0 < a then round_pos a else fneg (round_pos (- a)))"

section \<open>Arithmetic and comparison\<close>

fun fsub :: "pyfloat \<Rightarrow> pyfloat \<Rightarrow> pyfloat" where
  "fsub NaN y = NaN"
| "fsub x NaN = NaN"
| "fsub PInf PInf = NaN"
| "fsub NInf NInf = NaN"
| "fsub PInf y = PInf"
| "fsub NInf y = NInf"
| "fsub (Fin a) PInf = NInf"
| "fsub (Fin a) NInf = PInf"
| "fsub (Fin a) (Fin b) = to_double (a - b)"

text \<open>\<^verbatim>\<open>x <= y\<close>: false whenever NaN is involved.\<close>

fun fle :: "pyfloat \<Rightarrow> pyfloat \<Rightarrow> bool" where
  "fle NaN y = False"
| "fle x NaN = False"
| "fle NInf y = True"
| "fle x PInf = True"
| "fle PInf y = False"
| "fle x NInf = False"
| "fle (Fin a) (Fin b) = (a \<le> b)"

text \<open>\<^verbatim>\<open>x < y\<close>: false whenever NaN is involved.\<close>

fun flt :: "pyfloat \<Rightarrow> pyfloat \<Rightarrow> bool" where
  "flt NaN y = False"
| "flt x NaN = False"
| "flt x NInf = False"
| "flt NInf y = True"
| "flt PInf y = False"
| "flt x PInf = True"
| "flt (Fin a) (Fin b) = (a < b)"

text \<open>
  \<^verbatim>\<open>x / y\<close> of two floats (\<^verbatim>\<open>float_div\<close>): a zero divisor raises \<^verbatim>\<open>ZeroDivisionError\<close>
  whatever the dividend, otherwise the IEEE quotient, correctly rounded.
\<close>

fun fdiv_nz :: "pyfloat \<Rightarrow> pyfloat \<Rightarrow> pyfloat" where
  "fdiv_nz NaN y = NaN"
| "fdiv_nz x NaN = NaN"
| "fdiv_nz PInf (Fin b) = (if 0 < b then PInf else NInf)"
| "fdiv_nz NInf (Fin b) = (if 0 < b then NInf else PInf)"
| "fdiv_nz (Fin a) (Fin b) = to_double (a / b)"
| "fdiv_nz (Fin a) y = Fin 0"
| "fdiv_nz x y = NaN"

definition fdiv :: "pyfloat \<Rightarrow> pyfloat \<Rightarrow> pyfloat py" where
  "fdiv x y = (if y = Fin 0 then Inl ZeroDivisionError else Inr (fdiv_nz x y))"

section \<open>float(s)\<close>

text \<open>\<^verbatim>\<open>_Py_string_to_number_with_underscores\<close>: each underscore follows a digit and precedes one.\<close>

fun underscores_ok :: "char \<Rightarrow> string \<Rightarrow> bool" where
  "underscores_ok prev [] = (prev \<noteq> CHR ''_'')"
| "underscores_ok prev (c # cs) =
     (if c = CHR ''_'' then py_isdigit prev \<and> underscores_ok c cs
      else (prev \<noteq> CHR ''_'' \<or> py_isdigit c) \<and> underscores_ok c cs)"

definition parse_exponent :: "string \<Rightarrow> int option" where
  "parse_exponent s =
     (let (neg, ds) = (case s of c # r \<Rightarrow> if c = CHR ''-'' then (True, r)
                                          else if c = CHR ''+'' then (False, r) else (False, s)
                               | [] \<Rightarrow> (False, []))
      in if ds \<noteq> [] \<and> (\<forall>c \<in> set ds. py_isdigit c)
         then Some (if neg then - int (digits_val ds) else int (digits_val ds)) else None)"

text \<open>An unsigned decimal literal as \<open>(n, e)\<close>, its value \<open>n \<cdot> 10\<^sup>e\<close>.\<close>

definition parse_decimal :: "string \<Rightarrow> (nat \<times> int) option" where
  "parse_decimal s =
     (let ip = takeWhile py_isdigit s; r1 = dropWhile py_isdigit s;
          (fp, r2) = (case r1 of c # r \<Rightarrow> if c = CHR ''.''
                                            then (takeWhile py_isdigit r, dropWhile py_isdigit r)
                                            else ([], r1)
                              | [] \<Rightarrow> ([], []))
      in if ip = [] \<and> fp = [] then None
         else case r2 of
                [] \<Rightarrow> Some (digits_val (ip @ fp), - int (length fp))
              | c # r \<Rightarrow>
                  if c = CHR ''e'' \<or> c = CHR ''E''
                  then map_option (\<lambda>e. (digits_val (ip @ fp), e - int (length fp))) (parse_exponent r)
                  else None)"

definition float_inner :: "string \<Rightarrow> pyfloat py" where
  "float_inner s =
     (let t = py_strip s;
          (neg, u) = (case t of c # r \<Rightarrow> if c = CHR ''-'' then (True, r)
                                         else if c = CHR ''+'' then (False, r) else (False, t)
                              | [] \<Rightarrow> (False, []));
          l = str_lower u
      in if l = ''inf'' \<or> l = ''infinity'' then Inr (if neg then NInf else PInf)
         else if l = ''nan'' then Inr NaN
         else case parse_decimal u of
                None \<Rightarrow> Inl ValueError
              | Some (n, e) \<Rightarrow>
                  Inr (to_double ((if neg then -1 else 1) * of_nat n * pow10 e)))"

definition py_float :: "string \<Rightarrow> pyfloat py" where
  "py_float s =
     (if CHR ''_'' \<in> set s
      then (if underscores_ok (char_of (0 :: nat)) s then float_inner (filter (\<lambda>c. c \<noteq> CHR ''_'') s)
            else Inl ValueError)
      else float_inner s)"

section \<open>Facts\<close>

lemma fle_Fin_range:
  "fle (Fin lo) x \<and> fle x (Fin hi) \<longleftrightarrow> (\<exists>a. x = Fin a \<and> lo \<le> a \<and> a \<le> hi)"
  by (cases x) auto

lemma fle_NaN [simp]: "\<not> fle NaN x" "\<not> fle x NaN"
  by (cases x; simp)+

lemma float_inner_Inl: "float_inner s = Inl e \<Longrightarrow> e = ValueError"
  by (auto simp: float_inner_def Let_def split: if_splits option.splits prod.splits list.splits)

lemma py_float_Inl: "py_float s = Inl e \<Longrightarrow> e = ValueError"
  by (auto simp: py_float_def dest: float_inner_Inl split: if_splits)

lemmas float_eval [py_simps] =
  py_float_def float_inner_def parse_decimal_def parse_exponent_def to_double_def round_pos_def
  flog2_def round_even_def pow2_def pow10_def py_strip_def str_lower_def py_lower_def

section \<open>Exactness on integers\<close>

lemma bitlen_bounds: "0 < n \<Longrightarrow> 2 ^ (bitlen n - 1) \<le> n \<and> n < 2 ^ bitlen n"
proof (induction n rule: bitlen.induct)
  case 1
  then show ?case by simp
next
  case (2 v)
  define m where "m = Suc v div 2"
  show ?case
  proof (cases "m = 0")
    case True
    then have "v = 0" by (simp add: m_def)
    then show ?thesis by simp
  next
    case False
    define X :: nat where "X = 2 ^ (bitlen m - 1)"
    from False have pos: "0 < bitlen m" by (cases m) simp_all
    then have y: "(2::nat) ^ bitlen m = 2 * X" by (simp add: X_def power_eq_if)
    from False "2.IH" have ih: "X \<le> m" "m < 2 * X" by (simp_all add: m_def[symmetric] X_def y)
    have a: "2 * m \<le> Suc v" "Suc v \<le> 2 * m + 1"
      using div_mult_mod_eq[of "Suc v" 2] mod_less_divisor[of 2 "Suc v"] unfolding m_def by linarith+
    have b: "bitlen (Suc v) = Suc (bitlen m)" by (simp add: m_def)
    show ?thesis unfolding b using ih a y by simp
  qed
qed

lemma pow2_nat_diff: "pow2 (int m - int n) = 2 ^ m / 2 ^ n"
proof (cases "n \<le> m")
  case True
  then have "nat (int m - int n) = m - n" by simp
  moreover have "(2::rat) ^ m = 2 ^ (m - n) * 2 ^ n" using True by (simp add: power_add[symmetric])
  ultimately show ?thesis using True by (simp add: pow2_def)
next
  case False
  then have "nat (- (int m - int n)) = n - m" by simp
  moreover have "(2::rat) ^ n = 2 ^ (n - m) * 2 ^ m" using False by (simp add: power_add[symmetric])
  ultimately show ?thesis using False by (simp add: pow2_def)
qed

lemma pow2_Suc: "pow2 (e + 1) = 2 * pow2 e"
proof (cases "0 \<le> e")
  case True
  then have "nat (e + 1) = Suc (nat e)" by simp
  with True show ?thesis by (simp add: pow2_def)
next
  case False
  then have n: "nat (- e) = Suc (nat (- (e + 1)))" by simp
  show ?thesis
  proof (cases "e = -1")
    case True
    then show ?thesis by (simp add: pow2_def)
  next
    case False
    with \<open>\<not> 0 \<le> e\<close> have "\<not> 0 \<le> e + 1" by simp
    with \<open>\<not> 0 \<le> e\<close> n show ?thesis by (simp add: pow2_def)
  qed
qed

lemma pow2_power_int: "pow2 e = power_int 2 e"
  by (simp add: pow2_def power_int_def inverse_eq_divide power_one_over)

lemma pow2_pos [simp]: "0 < pow2 e"
  by (simp add: pow2_def)

lemma pow2_neq_0 [simp]: "pow2 e \<noteq> 0"
  using pow2_pos[of e] by linarith

lemma pow2_less_iff: "pow2 x < pow2 y \<longleftrightarrow> x < y"
proof
  assume l: "pow2 x < pow2 y"
  show "x < y"
  proof (rule ccontr)
    assume "\<not> x < y"
    then have "pow2 y \<le> pow2 x"
      by (simp add: pow2_power_int power_int_increasing)
    with l show False by simp
  qed
next
  assume "x < y"
  then show "pow2 x < pow2 y"
    by (simp add: pow2_power_int power_int_strict_increasing)
qed

lemma pow2_le_iff: "pow2 x \<le> pow2 y \<longleftrightarrow> x \<le> y"
  by (meson linorder_not_less pow2_less_iff)

lemma pow2_add: "pow2 (x + y) = pow2 x * pow2 y"
  by (simp add: pow2_power_int power_int_add)

lemma flog2_bounds:
  assumes "0 < a"
  shows "pow2 (flog2 a) \<le> a \<and> a < pow2 (flog2 a + 1)"
proof -
  obtain p q where pq: "quotient_of a = (p, q)" by (cases "quotient_of a")
  have q0: "0 < q" using pq quotient_of_denom_pos by blast
  have a_eq: "a = of_int p / of_int q" using pq quotient_of_div by blast
  have p0: "0 < p" using assms q0 by (simp add: a_eq zero_less_divide_iff)
  define P where "P = nat p"
  define Q where "Q = nat q"
  have P0: "0 < P" and Q0: "0 < Q" using p0 q0 by (simp_all add: P_def Q_def)
  have aPQ: "a = of_nat P / of_nat Q" using p0 q0 by (simp add: a_eq P_def Q_def)
  define bP where "bP = bitlen P"
  define bQ where "bQ = bitlen Q"
  have P1: "2 ^ (bP - 1) \<le> P" "P < 2 ^ bP" using bitlen_bounds[OF P0] by (simp_all add: bP_def)
  have Q1: "2 ^ (bQ - 1) \<le> Q" "Q < 2 ^ bQ" using bitlen_bounds[OF Q0] by (simp_all add: bQ_def)
  have bP0: "0 < bP" and bQ0: "0 < bQ" using P1(2) Q1(2) P0 Q0 by (auto intro: Nat.gr0I)
  define e where "e = int bP - int bQ"
  have fl: "flog2 a = (if pow2 e \<le> a then e else e - 1)"
    unfolding flog2_def pq prod.case Let_def e_def bP_def bQ_def P_def Q_def by (rule refl)
  have r1: "(of_nat P :: rat) < 2 ^ bP" "(2 :: rat) ^ (bQ - 1) \<le> of_nat Q"
    "(2 :: rat) ^ (bP - 1) \<le> of_nat P" "(of_nat Q :: rat) \<le> 2 ^ bQ"
    using P1 Q1 by (metis of_nat_less_iff of_nat_le_iff of_nat_numeral of_nat_power less_imp_le)+
  have "(of_nat P :: rat) / of_nat Q < 2 ^ bP / 2 ^ (bQ - 1)"
    by (rule frac_less[OF _ r1(1) _ r1(2)]) simp_all
  moreover have "e + 1 = int bP - int (bQ - 1)" using bQ0 by (simp add: e_def)
  ultimately have up: "a < pow2 (e + 1)" by (simp add: aPQ pow2_nat_diff)
  have "(2 :: rat) ^ (bP - 1) / 2 ^ bQ \<le> of_nat P / of_nat Q"
    by (rule frac_le[OF _ r1(3) _ r1(4)]) (simp_all add: Q0)
  moreover have "e - 1 = int (bP - 1) - int bQ" using bP0 by (simp add: e_def)
  ultimately have lo: "pow2 (e - 1) \<le> a" by (simp add: aPQ pow2_nat_diff)
  show ?thesis
  proof (cases "pow2 e \<le> a")
    case True
    with up fl show ?thesis by simp
  next
    case False
    with lo fl show ?thesis by simp
  qed
qed

lemma round_even_of_int [simp]: "round_even (of_int m) = m"
  by (simp add: round_even_def)

lemma round_even_zero [simp]: "round_even 0 = 0"
  using round_even_of_int[of 0] by simp

lemma round_pos_int:
  assumes "0 < k" "k < 2 ^ 53"
  shows "round_pos (of_int k) = Fin (of_int k)"
proof -
  define a :: rat where "a = of_int k"
  define f where "f = flog2 a"
  have a1: "1 \<le> a" "a < pow2 53" using assms by (simp_all add: a_def pow2_def)
  have b: "pow2 f \<le> a" "a < pow2 (f + 1)" using flog2_bounds[of a] a1 by (simp_all add: f_def)
  have "pow2 0 < pow2 (f + 1)" using a1 b by (simp add: pow2_def)
  then have f0: "0 \<le> f" by (simp add: pow2_less_iff)
  have "pow2 f < pow2 53" using a1 b by simp
  then have f52: "f \<le> 52" by (simp add: pow2_less_iff)
  define n where "n = nat (52 - f)"
  have q: "max (flog2 a - 52) (-1074) = - int n" using f0 f52 by (simp add: f_def n_def)
  have inv: "pow2 (int n) * pow2 (- int n) = 1" by (simp flip: pow2_add add: pow2_def)
  have pn: "pow2 (int n) = 2 ^ n" by (simp add: pow2_def)
  have "of_int k * 2 ^ n * pow2 (- int n) = (of_int k :: rat)"
    using inv by (simp add: pn mult.assoc)
  then have e1: "a / pow2 (- int n) = of_int (k * 2 ^ n)"
    by (simp add: a_def divide_eq_eq)
  have "of_int (round_even (a / pow2 (- int n))) * pow2 (- int n) = of_int k * (pow2 (int n) * pow2 (- int n))"
    by (simp only: e1 round_even_of_int pn) simp
  then have v: "of_int (round_even (a / pow2 (- int n))) * pow2 (- int n) = a"
    by (simp add: inv a_def)
  have "\<not> pow2 1024 \<le> a" using a1 by (simp add: pow2_def)
  then have "round_pos a = Fin a"
    unfolding round_pos_def Let_def q v by simp
  then show ?thesis by (simp add: a_def)
qed

lemma to_double_int:
  assumes "\<bar>k\<bar> < 2 ^ 53"
  shows "to_double (of_int k) = Fin (of_int k)"
proof -
  consider "k = 0" | "0 < k" | "k < 0" by linarith
  then show ?thesis
  proof cases
    case 2
    with assms show ?thesis by (simp add: to_double_def round_pos_int)
  next
    case 3
    with assms round_pos_int[of "- k"] show ?thesis by (simp add: to_double_def)
  qed (simp add: to_double_def)
qed

lemma fsub_int:
  "\<bar>a - b\<bar> < 2 ^ 53 \<Longrightarrow> fsub (Fin (of_int a)) (Fin (of_int b)) = Fin (of_int (a - b))"
  using to_double_int[of "a - b"] by simp

lemma all_digits_no_underscore: "\<forall>c \<in> set ds. py_isdigit c \<Longrightarrow> CHR ''_'' \<notin> set ds"
  by (auto simp: py_isdigit_def)

lemma all_digits_strip: "\<forall>c \<in> set ds. py_isdigit c \<Longrightarrow> py_strip ds = ds"
proof -
  assume d: "\<forall>c \<in> set ds. py_isdigit c"
  then have "\<forall>c \<in> set ds. \<not> py_isspace c" by (auto simp: py_isdigit_def py_isspace_def)
  moreover have dw: "dropWhile py_isspace xs = xs" if "\<forall>c \<in> set xs. \<not> py_isspace c" for xs
    using that by (cases xs) auto
  ultimately have "dropWhile py_isspace ds = ds" "dropWhile py_isspace (rev ds) = rev ds"
    by (simp_all add: dw)
  then show ?thesis by (simp add: py_strip_def)
qed

lemma all_digits_lower: "\<forall>c \<in> set ds. py_isdigit c \<Longrightarrow> str_lower ds = ds"
  by (induction ds) (auto simp: str_lower_def py_lower_def py_isdigit_def)

theorem py_float_digits:
  assumes "ds \<noteq> []" "\<forall>c \<in> set ds. py_isdigit c" "digits_val ds < 2 ^ 53"
  shows "py_float ds = Inr (Fin (of_nat (digits_val ds)))"
proof -
  obtain c cs where ds: "ds = c # cs" using assms(1) by (cases ds) auto
  have c: "py_isdigit c" using assms(2) ds by simp
  then have sg: "c \<noteq> CHR ''-''" "c \<noteq> CHR ''+''" "c \<noteq> CHR ''i''" "c \<noteq> CHR ''n''"
    by (auto simp: py_isdigit_def)
  have sign: "(case ds of d # r \<Rightarrow> if d = CHR ''-'' then (True, r)
                 else if d = CHR ''+'' then (False, r) else (False, ds) | [] \<Rightarrow> (False, [])) = (False, ds)"
    using sg by (simp add: ds)
  have names: "ds \<noteq> ''inf''" "ds \<noteq> ''infinity''" "ds \<noteq> ''nan''" using sg by (simp_all add: ds)
  have tw: "takeWhile py_isdigit ds = ds" "dropWhile py_isdigit ds = []"
    using assms(2) by simp_all
  have pd: "parse_decimal ds = Some (digits_val ds, 0)"
    using assms(1) by (simp add: parse_decimal_def tw)
  have "\<bar>int (digits_val ds)\<bar> < 2 ^ 53" using assms(3) by simp
  then have td: "to_double (of_nat (digits_val ds)) = Fin (of_nat (digits_val ds))"
    using to_double_int[of "int (digits_val ds)"] by simp
  have "py_float ds = float_inner ds"
    using all_digits_no_underscore[OF assms(2)] by (simp add: py_float_def)
  also have "\<dots> = Inr (Fin (of_nat (digits_val ds)))"
    unfolding float_inner_def Let_def all_digits_strip[OF assms(2)] sign prod.case
      all_digits_lower[OF assms(2)]
    using names pd td by (simp add: pow10_def)
  finally show ?thesis .
qed

section \<open>Rounding stays within representable bounds\<close>

lemma round_even_le_int: "x \<le> of_int N \<Longrightarrow> round_even x \<le> N"
proof -
  assume x: "x \<le> of_int N"
  have fl: "\<lfloor>x\<rfloor> \<le> N" using x by (simp add: floor_le_iff)
  show ?thesis
  proof (cases "\<lfloor>x\<rfloor> = N")
    case True
    then have "x - of_int \<lfloor>x\<rfloor> = 0" using x of_int_floor_le[of x] by linarith
    with True show ?thesis by (simp add: round_even_def Let_def)
  next
    case False
    with fl show ?thesis by (simp add: round_even_def Let_def)
  qed
qed

lemma round_even_nonneg: "0 \<le> x \<Longrightarrow> 0 \<le> round_even x"
  by (simp add: round_even_def Let_def)

lemma to_double_unit:
  assumes "0 \<le> a" "a \<le> 1"
  shows "\<exists>v. to_double a = Fin v \<and> 0 \<le> v \<and> v \<le> 1"
proof (cases "a = 0")
  case True
  then show ?thesis by (simp add: to_double_def)
next
  case False
  then have a0: "0 < a" using assms(1) by simp
  define q where "q = max (flog2 a - 52) (-1074)"
  have "pow2 (flog2 a) \<le> pow2 0" using flog2_bounds[OF a0] assms(2) by (simp add: pow2_def)
  then have "flog2 a \<le> 0" by (simp add: pow2_le_iff)
  then have q0: "q < 0" by (simp add: q_def)
  define n where "n = nat (- q)"
  have pq: "pow2 q = 1 / 2 ^ n" using q0 by (simp add: pow2_def n_def)
  have "a / pow2 q \<le> of_int (2 ^ n)" using assms(2) by (simp add: pq)
  then have r: "round_even (a / pow2 q) \<le> 2 ^ n" by (rule round_even_le_int)
  have r0: "0 \<le> round_even (a / pow2 q)"
    using a0 by (intro round_even_nonneg) (simp add: divide_nonneg_pos)
  define v where "v = of_int (round_even (a / pow2 q)) * pow2 q"
  have "of_int (round_even (a / pow2 q)) \<le> (2 :: rat) ^ n"
    using r by (metis of_int_le_iff of_int_numeral of_int_power)
  then have v1: "v \<le> 1" by (simp add: v_def pq divide_le_eq)
  have v0: "0 \<le> v" using r0 by (simp add: v_def pq)
  have "\<not> pow2 1024 \<le> v" using v1 by (simp add: pow2_def)
  then have "round_pos a = Fin v" by (simp add: round_pos_def Let_def q_def v_def)
  with a0 v0 v1 show ?thesis by (simp add: to_double_def)
qed

lemma round_pos_le_nat:
  assumes "0 < a" "a \<le> of_nat N" "N < 2 ^ 52"
  shows "\<exists>w. round_pos a = Fin w \<and> 0 \<le> w \<and> w \<le> of_nat N"
proof -
  define q where "q = max (flog2 a - 52) (-1074)"
  have "pow2 (flog2 a) < pow2 52"
    using flog2_bounds[OF assms(1)] assms(2,3) by (simp add: pow2_def)
  then have "flog2 a < 52" by (simp add: pow2_less_iff)
  then have q0: "q < 0" by (simp add: q_def)
  define n where "n = nat (- q)"
  have pq: "pow2 q = 1 / 2 ^ n" using q0 by (simp add: pow2_def n_def)
  have "a / pow2 q \<le> of_int (int N * 2 ^ n)" using assms(2) by (simp add: pq)
  then have r: "round_even (a / pow2 q) \<le> int N * 2 ^ n" by (rule round_even_le_int)
  have r0: "0 \<le> round_even (a / pow2 q)"
    using assms(1) by (intro round_even_nonneg) (simp add: divide_nonneg_pos)
  define w where "w = of_int (round_even (a / pow2 q)) * pow2 q"
  have "(of_int (round_even (a / pow2 q)) :: rat) \<le> of_int (int N * 2 ^ n)"
    using r by (simp only: of_int_le_iff)
  then have "of_int (round_even (a / pow2 q)) \<le> (of_nat N * 2 ^ n :: rat)" by simp
  then have w1: "w \<le> of_nat N" by (simp add: w_def pq divide_le_eq)
  have w0: "0 \<le> w" using r0 by (simp add: w_def pq)
  have "(of_nat N :: rat) < 2 ^ 52" using assms(3) by (metis of_nat_less_iff of_nat_numeral of_nat_power)
  then have "\<not> pow2 1024 \<le> w" using w1 by (simp add: pow2_def)
  then have "round_pos a = Fin w" by (simp add: round_pos_def Let_def q_def w_def)
  with w0 w1 show ?thesis by blast
qed

lemma to_double_bounded:
  assumes "\<bar>a\<bar> \<le> of_nat N" "N < 2 ^ 52"
  shows "\<exists>v. to_double a = Fin v \<and> \<bar>v\<bar> \<le> of_nat N \<and> (0 \<le> a \<longrightarrow> 0 \<le> v) \<and> (a \<le> 0 \<longrightarrow> v \<le> 0)"
proof -
  consider "a = 0" | "0 < a" | "a < 0" by linarith
  then show ?thesis
  proof cases
    case 2
    then obtain w where "round_pos a = Fin w" "0 \<le> w" "w \<le> of_nat N"
      using round_pos_le_nat[of a N] assms by auto
    with 2 show ?thesis by (simp add: to_double_def)
  next
    case 3
    then obtain w where "round_pos (- a) = Fin w" "0 \<le> w" "w \<le> of_nat N"
      using round_pos_le_nat[of "- a" N] assms by auto
    with 3 show ?thesis by (simp add: to_double_def)
  qed (simp add: to_double_def)
qed

lemma round_even_ge_int: "of_int N \<le> x \<Longrightarrow> N \<le> round_even x"
proof -
  assume "of_int N \<le> x"
  then have "N \<le> \<lfloor>x\<rfloor>" by (simp add: le_floor_iff)
  then show ?thesis by (simp add: round_even_def Let_def)
qed

end
