(* ===== verification/Csv.thy ===== *)
theory Csv
  imports Prelude
begin

text \<open>
  \<^verbatim>\<open>csv.reader(f, delimiter=',')\<close> over a file opened with \<^verbatim>\<open>open(path, 'r')\<close>.
  The text layer translates \<^verbatim>\<open>\r\n\<close> and \<^verbatim>\<open>\r\<close> to \<^verbatim>\<open>\n\<close> (universal newlines) and
  the file iterator yields lines that keep their \<^verbatim>\<open>\n\<close> (\<open>file_lines\<close>). The reader is
  the state machine of CPython's \<^verbatim>\<open>Modules/_csv.c\<close> (\<^verbatim>\<open>parse_process_char\<close>,
  \<^verbatim>\<open>Reader_iternext\<close>) for the default dialect: quote character \<^verbatim>\<open>"\<close>, doubled quotes,
  no escape character, no skipping of initial spaces, not strict. Each line is fed
  character by character and then an end-of-line marker \<open>EOL\<close>; a record ends when the
  machine is back in \<open>START_RECORD\<close>, so a quoted field may span lines; a field longer
  than \<^verbatim>\<open>csv.field_size_limit()\<close> (131072) raises \<^verbatim>\<open>csv.Error\<close> (\<open>CsvError\<close>), as does a
  character after a line break inside an unquoted field. The whole file is read into
  the list of records before the first error (\<open>csv_rows\<close>), which a consumer meets after
  the records before it, as the lazy iterator does.
\<close>

section \<open>Text layer\<close>

definition LF :: char where "LF = CHR ''\<newline>''"
definition CR :: char where "CR = CHR 0x0D"

fun translate_newlines :: "string \<Rightarrow> string" where
  "translate_newlines [] = []"
| "translate_newlines [c] = [if c = CR then LF else c]"
| "translate_newlines (c # d # cs) =
     (if c = CR then (if d = LF then LF # translate_newlines cs else LF # translate_newlines (d # cs))
      else c # translate_newlines (d # cs))"

text \<open>The lines of a text, each with its line feed; the last one may lack it.\<close>

fun split_lines_acc :: "string \<Rightarrow> string \<Rightarrow> string list" where
  "split_lines_acc acc [] = (if acc = [] then [] else [rev acc])"
| "split_lines_acc acc (c # cs) =
     (if c = LF then rev (c # acc) # split_lines_acc [] cs else split_lines_acc (c # acc) cs)"

definition file_lines :: "string \<Rightarrow> string list" where
  "file_lines s = split_lines_acc [] (translate_newlines s)"

section \<open>The reader\<close>

datatype pstate = START_RECORD | START_FIELD | IN_FIELD | IN_QUOTED_FIELD
  | QUOTE_IN_QUOTED_FIELD | EAT_CRNL

datatype cin = Ch char | EOL

record rstate =
  rs_state :: pstate
  rs_field :: string
  rs_fields :: "string list"

definition FIELD_LIMIT :: nat where "FIELD_LIMIT = 131072"
definition DELIM :: char where "DELIM = CHR '',''"
definition QUOTE :: char where "QUOTE = CHR 0x22"

definition reader_reset :: rstate where
  "reader_reset = \<lparr>rs_state = START_RECORD, rs_field = [], rs_fields = []\<rparr>"

definition save_field :: "rstate \<Rightarrow> rstate" where
  "save_field st = st\<lparr>rs_fields := rs_fields st @ [rs_field st], rs_field := []\<rparr>"

definition add_char :: "rstate \<Rightarrow> char \<Rightarrow> rstate py" where
  "add_char st c = (if FIELD_LIMIT \<le> length (rs_field st) then Inl CsvError
                    else Inr (st\<lparr>rs_field := rs_field st @ [c]\<rparr>))"

definition is_nl :: "cin \<Rightarrow> bool" where
  "is_nl x \<longleftrightarrow> x = Ch LF \<or> x = Ch CR"

text \<open>Ending a record at a line break: \<open>EAT_CRNL\<close> until the end-of-line marker.\<close>

definition end_line :: "rstate \<Rightarrow> cin \<Rightarrow> rstate" where
  "end_line st x = (save_field st)\<lparr>rs_state := (if x = EOL then START_RECORD else EAT_CRNL)\<rparr>"

definition start_field :: "rstate \<Rightarrow> cin \<Rightarrow> rstate py" where
  "start_field st x =
     (if is_nl x \<or> x = EOL then Inr (end_line st x)
      else if x = Ch QUOTE then Inr (st\<lparr>rs_state := IN_QUOTED_FIELD\<rparr>)
      else if x = Ch DELIM then Inr (save_field st)
      else case x of Ch c \<Rightarrow> map_sum id (\<lambda>s. s\<lparr>rs_state := IN_FIELD\<rparr>) (add_char st c)
                   | EOL \<Rightarrow> Inr st)"

fun process_char :: "rstate \<Rightarrow> cin \<Rightarrow> rstate py" where
  "process_char st x =
    (case rs_state st of
       START_RECORD \<Rightarrow>
         (if x = EOL then Inr st
          else if is_nl x then Inr (st\<lparr>rs_state := EAT_CRNL\<rparr>)
          else start_field (st\<lparr>rs_state := START_FIELD\<rparr>) x)
     | START_FIELD \<Rightarrow> start_field st x
     | IN_FIELD \<Rightarrow>
         (if is_nl x \<or> x = EOL then Inr (end_line st x)
          else if x = Ch DELIM then Inr ((save_field st)\<lparr>rs_state := START_FIELD\<rparr>)
          else case x of Ch c \<Rightarrow> add_char st c | EOL \<Rightarrow> Inr st)
     | IN_QUOTED_FIELD \<Rightarrow>
         (if x = EOL then Inr st
          else if x = Ch QUOTE then Inr (st\<lparr>rs_state := QUOTE_IN_QUOTED_FIELD\<rparr>)
          else case x of Ch c \<Rightarrow> add_char st c | EOL \<Rightarrow> Inr st)
     | QUOTE_IN_QUOTED_FIELD \<Rightarrow>
         (if x = Ch QUOTE then map_sum id (\<lambda>s. s\<lparr>rs_state := IN_QUOTED_FIELD\<rparr>) (add_char st QUOTE)
          else if x = Ch DELIM then Inr ((save_field st)\<lparr>rs_state := START_FIELD\<rparr>)
          else if is_nl x \<or> x = EOL then Inr (end_line st x)
          else case x of Ch c \<Rightarrow> map_sum id (\<lambda>s. s\<lparr>rs_state := IN_FIELD\<rparr>) (add_char st c)
                       | EOL \<Rightarrow> Inr st)
     | EAT_CRNL \<Rightarrow>
         (if is_nl x then Inr st
          else if x = EOL then Inr (st\<lparr>rs_state := START_RECORD\<rparr>)
          else Inl CsvError))"

fun process_chars :: "rstate \<Rightarrow> string \<Rightarrow> rstate py" where
  "process_chars st [] = Inr st"
| "process_chars st (c # cs) = py_bind (process_char st (Ch c)) (\<lambda>st'. process_chars st' cs)"

definition process_line :: "rstate \<Rightarrow> string \<Rightarrow> rstate py" where
  "process_line st l = py_bind (process_chars st l) (\<lambda>st'. process_char st' EOL)"

text \<open>
  The records of a sequence of lines and the error that stops the reader, if any. At the
  end of the input a record in progress is returned if its field is non-empty or quoted.
\<close>

fun csv_rows :: "rstate \<Rightarrow> string list \<Rightarrow> string list list \<times> py_exc option" where
  "csv_rows st [] =
     (if rs_field st \<noteq> [] \<or> rs_state st = IN_QUOTED_FIELD
      then ([rs_fields (save_field st)], None) else ([], None))"
| "csv_rows st (l # ls) =
     (case process_line st l of
        Inl e \<Rightarrow> ([], Some e)
      | Inr st' \<Rightarrow>
          if rs_state st' = START_RECORD
          then (let (rows, err) = csv_rows reader_reset ls in (rs_fields st' # rows, err))
          else csv_rows st' ls)"

definition csv_reader :: "string \<Rightarrow> string list list \<times> py_exc option" where
  "csv_reader text = csv_rows reader_reset (file_lines text)"

lemmas csv_eval [py_simps] = csv_reader_def file_lines_def process_line_def reader_reset_def
  save_field_def add_char_def is_nl_def end_line_def start_field_def LF_def CR_def
  FIELD_LIMIT_def DELIM_def QUOTE_def

end
