(* ===== verification/PathOps.thy ===== *)
theory PathOps
  imports Prelude
begin

text \<open>
  The file system and the \<^verbatim>\<open>os.path\<close> functions the repository calls. A file system maps
  path strings to entries, a regular file with its text or a directory
  (\<open>fsys\<close>); \<^verbatim>\<open>os.path.exists\<close> is membership of its domain, so paths are compared
  as strings (no normalisation of \<^verbatim>\<open>//\<close>, \<^verbatim>\<open>.\<close> or symbolic links). \<^verbatim>\<open>open(path)\<close>
  of a missing path raises \<^verbatim>\<open>FileNotFoundError\<close>, of a directory \<^verbatim>\<open>IsADirectoryError\<close>.
  \<open>splitext\<close> is CPython's \<^verbatim>\<open>genericpath._splitext(p, '/', None, '.')\<close> with its loop
  over leading dots, \<open>path_join\<close> is \<^verbatim>\<open>posixpath.join(a, b)\<close>.
\<close>

datatype fentry = File string | Dir

type_synonym fsys = "string \<rightharpoonup> fentry"

definition os_path_exists :: "fsys \<Rightarrow> string \<Rightarrow> bool" where
  "os_path_exists fs p \<longleftrightarrow> fs p \<noteq> None"

definition os_path_isfile :: "fsys \<Rightarrow> string \<Rightarrow> bool" where
  "os_path_isfile fs p \<longleftrightarrow> (case fs p of Some (File c) \<Rightarrow> True | _ \<Rightarrow> False)"

definition os_path_isdir :: "fsys \<Rightarrow> string \<Rightarrow> bool" where
  "os_path_isdir fs p \<longleftrightarrow> fs p = Some Dir"

text \<open>
  \<^verbatim>\<open>os.listdir(d)\<close>: the names of the entries of a directory, in the order the operating
  system gives them, which the model takes as the listing \<open>ls d\<close>.
\<close>

definition listdir :: "fsys \<Rightarrow> (string \<Rightarrow> string list) \<Rightarrow> string \<Rightarrow> string list py" where
  "listdir fs ls d = (case fs d of None \<Rightarrow> Inl FileNotFoundError
                                | Some Dir \<Rightarrow> Inr (ls d)
                                | Some (File c) \<Rightarrow> Inl NotADirectoryError)"

definition open_read :: "fsys \<Rightarrow> string \<Rightarrow> string py" where
  "open_read fs p = (case fs p of None \<Rightarrow> Inl FileNotFoundError
                               | Some Dir \<Rightarrow> Inl IsADirectoryError
                               | Some (File c) \<Rightarrow> Inr c)"

definition path_join :: "string \<Rightarrow> string \<Rightarrow> string" where
  "path_join a b =
     (if take 1 b = ''/'' then b
      else if a = [] \<or> last a = CHR ''/'' then a @ b
      else a @ CHR ''/'' # b)"

section \<open>splitext\<close>

text \<open>\<^verbatim>\<open>p.rfind(c)\<close>: the last index of \<open>c\<close>, or \<open>-1\<close>.\<close>

definition rfind :: "char \<Rightarrow> string \<Rightarrow> int" where
  "rfind c s = (let is = filter (\<lambda>i. s ! i = c) [0..<length s]
                in if is = [] then -1 else int (last is))"

text \<open>
  \<^verbatim>\<open>while filenameIndex < dotIndex: if p[filenameIndex] != '.': return ...\<close>:
  \<open>None\<close> when every character from \<open>i\<close> up to the last dot is a dot.
\<close>

function splitext_loop :: "string \<Rightarrow> nat \<Rightarrow> nat \<Rightarrow> (string \<times> string) option" where
  "splitext_loop p i d =
     (if i < d then
        (if p ! i \<noteq> CHR ''.'' then Some (take d p, drop d p) else splitext_loop p (Suc i) d)
      else None)"
  by pat_completeness auto
termination
  by (relation "measure (\<lambda>(p, i, d). d - i)") auto

declare splitext_loop.simps [simp del]

definition splitext :: "string \<Rightarrow> string \<times> string" where
  "splitext p =
     (let sep = rfind CHR ''/'' p; dot = rfind CHR ''.'' p
      in if sep < dot
         then (case splitext_loop p (nat (sep + 1)) (nat dot) of Some r \<Rightarrow> r | None \<Rightarrow> (p, []))
         else (p, []))"

section \<open>Facts\<close>

lemma splitext_loop_Some:
  "splitext_loop p i d = Some r \<Longrightarrow> r = (take d p, drop d p)"
proof (induction p i d rule: splitext_loop.induct)
  case (1 p i d)
  then show ?case
    by (subst (asm) splitext_loop.simps) (auto split: if_splits)
qed

lemma splitext_loop_None_iff:
  "splitext_loop p i d = None \<longleftrightarrow> (\<forall>j. i \<le> j \<and> j < d \<longrightarrow> p ! j = CHR ''.'')"
proof (induction p i d rule: splitext_loop.induct)
  case (1 p i d)
  show ?case
  proof (cases "i < d \<and> p ! i = CHR ''.''")
    case True
    then have "splitext_loop p i d = splitext_loop p (Suc i) d"
      by (subst splitext_loop.simps) simp
    moreover have "(\<forall>j. i \<le> j \<and> j < d \<longrightarrow> p ! j = CHR ''.'') \<longleftrightarrow>
                   (\<forall>j. Suc i \<le> j \<and> j < d \<longrightarrow> p ! j = CHR ''.'')"
      using True by (metis le_eq_less_or_eq Suc_le_eq)
    ultimately show ?thesis using "1.IH" True by simp
  next
    case False
    then show ?thesis by (subst splitext_loop.simps) (auto simp: not_less)
  qed
qed

theorem splitext_append: "fst (splitext p) @ snd (splitext p) = p"
  by (auto simp: splitext_def Let_def dest: splitext_loop_Some split: option.splits)

lemma rfind_ge: "-1 \<le> rfind c s"
  by (simp add: rfind_def Let_def)

lemma rfind_less: "rfind c s < int (length s)"
proof -
  have "\<forall>i \<in> set (filter (\<lambda>i. s ! i = c) [0..<length s]). i < length s" by simp
  then show ?thesis
    by (auto simp: rfind_def Let_def dest: last_in_set)
qed

lemma rfind_char: "0 \<le> rfind c s \<Longrightarrow> s ! nat (rfind c s) = c"
proof -
  assume "0 \<le> rfind c s"
  then have ne: "filter (\<lambda>i. s ! i = c) [0..<length s] \<noteq> []"
    by (auto simp: rfind_def Let_def split: if_splits)
  then have "last (filter (\<lambda>i. s ! i = c) [0..<length s]) \<in> set (filter (\<lambda>i. s ! i = c) [0..<length s])"
    by (rule last_in_set)
  with ne show ?thesis by (simp add: rfind_def Let_def)
qed

lemmas path_eval [py_simps] = splitext_def splitext_loop.simps rfind_def char_of_eq_iff eq_char_of_iff path_join_def os_path_exists_def open_read_def
  os_path_isfile_def os_path_isdir_def listdir_def
  str_lower_def py_lower_def

end
