(* ===== verification/SunPath.thy ===== *)
theory SunPath
  imports Strptime PyFloat Csv PathOps
begin

text \<open>
  \<^verbatim>\<open>loadSunPath(filepath, isDir=True)\<close> of \<^verbatim>\<open>src/utility_data.py\<close>: the solar positions
  of an SPA calculator export. The file is \<^verbatim>\<open>filepath/spa.csv\<close> when \<open>isDir\<close>; a missing
  file gives the empty list. The first record is skipped; for every further record the
  timestamp \<^verbatim>\<open>row[0] + " " + row[1]\<close> is parsed with \<^verbatim>\<open>%m/%d/%Y %H:%M:%S\<close> and a
  \<^verbatim>\<open>ValueError\<close> there skips the record (\<^verbatim>\<open>continue\<close>); then the point
  \<^verbatim>\<open>[float(row[3]), 90 - float(row[2]), dt]\<close> is built, in that order, and kept when its
  altitude lies in \<open>[0, 90]\<close>. Every other exception propagates: a record with fewer
  than two fields, or with a valid timestamp and fewer than four, raises
  \<^verbatim>\<open>IndexError\<close>; an angle that is no number raises \<^verbatim>\<open>ValueError\<close> outside the
  \<^verbatim>\<open>try\<close>; a reader error is met after the records before it.
\<close>

type_synonym sunpoint = "pyfloat \<times> pyfloat \<times> datetime"

text \<open>\<^verbatim>\<open>row[i]\<close>\<close>

definition row_get :: "string list \<Rightarrow> nat \<Rightarrow> string py" where
  "row_get row i = (if i < length row then Inr (row ! i) else Inl IndexError)"

text \<open>One iteration of the loop: \<open>None\<close> is \<^verbatim>\<open>continue\<close> or a point out of range.\<close>

definition sun_row :: "string list \<Rightarrow> sunpoint option py" where
  "sun_row row =
     py_bind (row_get row 0) (\<lambda>r0. py_bind (row_get row 1) (\<lambda>r1.
       (case strptime (r0 @ CHR '' '' # r1) SPA_DT_FORMAT of
          Inl e \<Rightarrow> if e = ValueError then Inr None else Inl e
        | Inr dt \<Rightarrow>
            py_bind (row_get row 3) (\<lambda>r3. py_bind (py_float r3) (\<lambda>theta.
            py_bind (row_get row 2) (\<lambda>r2. py_bind (py_float r2) (\<lambda>zenith.
              (let phi = fsub (Fin 90) zenith
               in if fle (Fin 0) phi \<and> fle phi (Fin 90) then Inr (Some (theta, phi, dt))
                  else Inr None))))))))"

fun sun_rows :: "string list list \<Rightarrow> sunpoint list py" where
  "sun_rows [] = Inr []"
| "sun_rows (row # rows) =
     py_bind (sun_row row) (\<lambda>p. py_bind (sun_rows rows) (\<lambda>ps.
       Inr (case p of None \<Rightarrow> ps | Some x \<Rightarrow> x # ps)))"

text \<open>The records after the header, then the reader's error if there is one.\<close>

definition sun_loop :: "string list list \<times> py_exc option \<Rightarrow> sunpoint list py" where
  "sun_loop rd =
     (case rd of
        ([], None) \<Rightarrow> Inr []
      | ([], Some e) \<Rightarrow> Inl e
      | (header # rows, err) \<Rightarrow>
          py_bind (sun_rows rows) (\<lambda>ps. case err of None \<Rightarrow> Inr ps | Some e \<Rightarrow> Inl e))"

definition loadSunPath :: "fsys \<Rightarrow> string \<Rightarrow> bool \<Rightarrow> sunpoint list py" where
  "loadSunPath fs filepath isDir =
     (let path = (if isDir then path_join filepath ''spa.csv'' else filepath)
      in if \<not> os_path_exists fs path then Inr []
         else py_bind (open_read fs path) (\<lambda>text. sun_loop (csv_reader text)))"

section \<open>Sample inputs\<close>

text \<open>
  The export of the specification's example (section 8, item 4) in a directory \<^verbatim>\<open>/data\<close>,
  and a one-record export under \<^verbatim>\<open>/sky\<close> whose file also ends in a blank line.
\<close>

definition spec_csv :: string where
  "spec_csv = ''Date,Time,Zenith,Azimuth\<newline>10/25/2016,06:00:00,100,90\<newline>'' @
               ''10/25/2016,12:00:00,30,180\<newline>badrow,x,0,0\<newline>''"

definition spec_fs :: fsys where
  "spec_fs = [''/data'' \<mapsto> Dir, ''/data/spa.csv'' \<mapsto> File spec_csv]"

definition sky_csv :: string where
  "sky_csv = ''Date,Time,Zenith,Azimuth\<newline>01/02/2017,08:30:00,45,120\<newline>''"

definition sky_fs :: fsys where
  "sky_fs = [''/sky'' \<mapsto> Dir, ''/sky/spa.csv'' \<mapsto> File sky_csv,
             ''/blank'' \<mapsto> Dir, ''/blank/spa.csv'' \<mapsto> File (sky_csv @ ''\<newline>'')]"

text \<open>An SPA export record of integer angles: date, time, zenith, azimuth, zero-padded.\<close>

definition spa_row :: "nat \<times> nat \<times> datetime \<Rightarrow> string list" where
  "spa_row = (\<lambda>(az, z, dt). [spa_date dt, fmt_time dt, digits_of 3 z, digits_of 3 az])"

section \<open>Facts\<close>

lemma strptime_SPA_Inl: "strptime s SPA_DT_FORMAT = Inl e \<Longrightarrow> e = ValueError"
  by (rule strptime_items_Inl[OF compile_SPA]) (simp_all add: TIME_ITEMS_def)

text \<open>The row step with the indexing resolved.\<close>

lemma sun_row_eq:
  "sun_row row =
     (if length row < 2 then Inl IndexError
      else case strptime (row ! 0 @ CHR '' '' # row ! 1) SPA_DT_FORMAT of
             Inl e \<Rightarrow> Inr None
           | Inr dt \<Rightarrow>
               if length row < 4 then Inl IndexError
               else py_bind (py_float (row ! 3)) (\<lambda>theta. py_bind (py_float (row ! 2)) (\<lambda>zenith.
                      (let phi = fsub (Fin 90) zenith
                       in if fle (Fin 0) phi \<and> fle phi (Fin 90) then Inr (Some (theta, phi, dt))
                          else Inr None))))"
  by (auto simp: sun_row_def row_get_def Let_def dest: strptime_SPA_Inl split: sum.splits)

lemma sun_row_Some:
  assumes "sun_row row = Inr (Some (theta, phi, dt))"
  shows "(\<exists>a. phi = Fin a \<and> 0 \<le> a \<and> a \<le> 90) \<and> valid_datetime dt"
  using assms
  by (auto simp: sun_row_eq Let_def fle_Fin_range[symmetric] dest: strptime_Inr_valid
           split: if_splits sum.splits)

lemma sun_row_Inl:
  assumes "sun_row row = Inl e"
  shows "(e = IndexError \<and> length row < 4) \<or>
         (e = ValueError \<and> 4 \<le> length row \<and> (py_float (row ! 3) = Inl ValueError \<or> py_float (row ! 2) = Inl ValueError))"
  using assms
  by (auto simp: sun_row_eq Let_def py_bind_eq_Inl dest: py_float_Inl split: if_splits sum.splits)

lemma sun_rows_Inr_iff:
  "sun_rows rows = Inr ps \<longleftrightarrow>
     (\<forall>r \<in> set rows. \<exists>x. sun_row r = Inr x) \<and>
     ps = List.map_filter (\<lambda>r. case sun_row r of Inr x \<Rightarrow> x | Inl _ \<Rightarrow> None) rows"
  by (induction rows arbitrary: ps) (auto simp: map_filter_simps split: option.splits sum.splits)

lemma sun_rows_prefix_Inl:
  "\<forall>r \<in> set rows1. \<exists>x. sun_row r = Inr x \<Longrightarrow> sun_row r = Inl e \<Longrightarrow> sun_rows (rows1 @ r # rows2) = Inl e"
  by (induction rows1) auto

lemma to_double_90_nat:
  "z < 2 ^ 53 \<Longrightarrow> to_double (90 - of_nat z) = Fin (90 - of_nat z)"
  using to_double_int[of "90 - int z"] by simp

lemma sun_row_digits:
  assumes "strptime (d @ CHR '' '' # t) SPA_DT_FORMAT = Inr dt"
    and "zs \<noteq> []" "\<forall>c \<in> set zs. py_isdigit c" "digits_val zs < 2 ^ 53"
    and "azs \<noteq> []" "\<forall>c \<in> set azs. py_isdigit c" "digits_val azs < 2 ^ 53"
  shows "sun_row (d # t # zs # azs # rest) =
           Inr (if digits_val zs \<le> 90
                then Some (Fin (of_nat (digits_val azs)), Fin (90 - of_nat (digits_val zs)), dt)
                else None)"
  using assms
  by (simp add: sun_row_eq py_float_digits to_double_90_nat Let_def)

lemmas sun_eval [py_simps] = loadSunPath_def sun_loop_def sun_row_def row_get_def

lemma loadSunPath_file:
  assumes "fs (path_join filepath ''spa.csv'') = Some (File text)"
  shows "loadSunPath fs filepath True = sun_loop (csv_reader text)"
  using assms by (simp add: loadSunPath_def os_path_exists_def open_read_def)

lemma sun_rows_point:
  "sun_rows rows = Inr ps \<Longrightarrow> p \<in> set ps \<Longrightarrow> \<exists>r. sun_row r = Inr (Some p)"
  by (induction rows arbitrary: ps) (auto split: option.splits)

lemma sun_loop_Inr:
  "sun_loop rd = Inr ps \<Longrightarrow> ps = [] \<or> (\<exists>rows. sun_rows rows = Inr ps)"
  by (auto simp: sun_loop_def split: prod.splits list.splits option.splits)

lemma loadSunPath_Inr:
  "loadSunPath fs filepath isDir = Inr ps \<Longrightarrow> ps = [] \<or> (\<exists>rows. sun_rows rows = Inr ps)"
  by (auto simp: loadSunPath_def Let_def dest: sun_loop_Inr split: if_splits)

lemma sun_row_spa_row:
  assumes "valid_datetime dt" "dt_microsecond dt = 0" "az < 1000" "z < 1000"
  shows "sun_row (spa_row (az, z, dt)) =
           Inr (if z \<le> 90 then Some (Fin (of_nat az), Fin (90 - of_nat z), dt) else None)"
proof -
  have s: "strptime (spa_date dt @ CHR '' '' # fmt_time dt) SPA_DT_FORMAT = Inr dt"
    using strptime_spa_append[OF assms(1,2), of "[]"] by (simp add: fmt_spa_def)
  have d: "digits_val (digits_of 3 n) = n" if "n < 1000" for n
    using that by simp
  have "sun_row (spa_row (az, z, dt)) =
          Inr (if digits_val (digits_of 3 z) \<le> 90
               then Some (Fin (of_nat (digits_val (digits_of 3 az))), Fin (90 - of_nat (digits_val (digits_of 3 z))), dt)
               else None)"
    unfolding spa_row_def prod.case
    by (rule sun_row_digits[OF s]) (use assms in \<open>simp_all add: digits_of_all_digits\<close>)
  then show ?thesis using assms by (simp add: d)
qed

section \<open>Sample evaluations\<close>

lemma sky_rows: "csv_reader sky_csv = ([[''Date'',''Time'',''Zenith'',''Azimuth''], [''01/02/2017'',''08:30:00'',''45'',''120'']], None)"
  by (simp add: sky_csv_def csv_eval)

lemma sky_dt: "strptime (''01/02/2017'' @ CHR '' '' # ''08:30:00'') SPA_DT_FORMAT = Inr (DateTime 2017 1 2 8 30 0 0)"
  by (simp add: strptime_eval)

lemma spec_rows: "csv_reader spec_csv = ([[''Date'',''Time'',''Zenith'',''Azimuth''], [''10/25/2016'',''06:00:00'',''100'',''90''], [''10/25/2016'',''12:00:00'',''30'',''180''], [''badrow'',''x'',''0'',''0'']], None)"
  by (simp add: spec_csv_def csv_eval)

lemma sky_row: "sun_row [''01/02/2017'',''08:30:00'',''45'',''120''] = Inr (Some (Fin 120, Fin 45, DateTime 2017 1 2 8 30 0 0))"
  using sun_row_digits[OF sky_dt, of "''45''" "''120''" "[]"] by (simp add: py_isdigit_def digits_val_def digit_val_def)

lemma sky_load: "loadSunPath sky_fs ''/sky'' True = Inr [(Fin 120, Fin 45, DateTime 2017 1 2 8 30 0 0)]"
proof -
  have "sky_fs (path_join ''/sky'' ''spa.csv'') = Some (File sky_csv)"
    by (simp add: sky_fs_def path_join_def)
  then show ?thesis by (simp add: loadSunPath_file sky_rows sun_loop_def sky_row)
qed

lemma blank_rows: "csv_reader (sky_csv @ ''\<newline>'') = ([[''Date'',''Time'',''Zenith'',''Azimuth''], [''01/02/2017'',''08:30:00'',''45'',''120''], []], None)"
  by (simp add: sky_csv_def csv_eval)

section \<open>Properties of the loader\<close>

text \<open>C1: on the example of the specification (section 8, item 4) the loader returns exactly the one record of altitude 60: the record of zenith 100 is dropped as below the horizon and the record whose date does not parse is skipped.\<close>

theorem loadSunPath_spec_example:
  "loadSunPath spec_fs ''/data'' True = Inr [(Fin 180, Fin 60, DateTime 2016 10 25 12 0 0 0)]"
proof -
  have f: "spec_fs (path_join ''/data'' ''spa.csv'') = Some (File spec_csv)"
    by (simp add: spec_fs_def path_join_def)
  have d1: "strptime (''10/25/2016'' @ CHR '' '' # ''06:00:00'') SPA_DT_FORMAT = Inr (DateTime 2016 10 25 6 0 0 0)"
    by (simp add: strptime_eval)
  have d2: "strptime (''10/25/2016'' @ CHR '' '' # ''12:00:00'') SPA_DT_FORMAT = Inr (DateTime 2016 10 25 12 0 0 0)"
    by (simp add: strptime_eval)
  have d3: "strptime (''badrow'' @ CHR '' '' # ''x'') SPA_DT_FORMAT = Inl ValueError"
    by (simp add: strptime_eval)
  have r1: "sun_row [''10/25/2016'', ''06:00:00'', ''100'', ''90''] = Inr None"
    using sun_row_digits[OF d1, of "''100''" "''90''" "[]"] by (simp add: py_isdigit_def digits_val_def digit_val_def)
  have r2: "sun_row [''10/25/2016'', ''12:00:00'', ''30'', ''180''] = Inr (Some (Fin 180, Fin 60, DateTime 2016 10 25 12 0 0 0))"
    using sun_row_digits[OF d2, of "''30''" "''180''" "[]"] by (simp add: py_isdigit_def digits_val_def digit_val_def)
  have r3: "sun_row [''badrow'', ''x'', ''0'', ''0''] = Inr None"
    using d3 by (simp add: sun_row_eq)
  show ?thesis by (simp add: loadSunPath_file[of spec_fs "''/data''", OF f] spec_rows sun_loop_def r1 r2 r3)
qed

text \<open>C2: every record the loader returns has a finite altitude in [0, 90] and a valid timestamp.\<close>

theorem loadSunPath_points_in_range:
  assumes "loadSunPath fs filepath isDir = Inr ps"
  shows "\<forall>(theta, phi, dt) \<in> set ps. (\<exists>a. phi = Fin a \<and> 0 \<le> a \<and> a \<le> 90) \<and> valid_datetime dt"
  using loadSunPath_Inr[OF assms] by (auto dest: sun_rows_point sun_row_Some)

theorem loadSunPath_points_in_range_witness:
  "loadSunPath sky_fs ''/sky'' True = Inr [(Fin 120, Fin 45, DateTime 2017 1 2 8 30 0 0)] \<and>
   (\<exists>a. Fin 45 = Fin a \<and> 0 \<le> a \<and> a \<le> 90) \<and> valid_datetime (DateTime 2017 1 2 8 30 0 0)"
  using loadSunPath_points_in_range[OF sky_load] sky_load by simp

text \<open>C3: when the export is read without a reader error, the loader succeeds exactly when no record after the header raises, and then returns the kept records in file order (a filter, never a reordering).\<close>

theorem loadSunPath_filters_in_order:
  assumes "fs (path_join filepath ''spa.csv'') = Some (File text)"
    and "csv_reader text = (header # rows, None)"
  shows "loadSunPath fs filepath True = Inr ps \<longleftrightarrow>
           (\<forall>r \<in> set rows. \<exists>x. sun_row r = Inr x) \<and>
           ps = List.map_filter (\<lambda>r. case sun_row r of Inr x \<Rightarrow> x | Inl _ \<Rightarrow> None) rows"
  using assms by (auto simp: loadSunPath_file sun_loop_def sun_rows_Inr_iff)

theorem loadSunPath_filters_in_order_witness:
  "(loadSunPath sky_fs ''/sky'' True = Inr [(Fin 120, Fin 45, DateTime 2017 1 2 8 30 0 0)]) \<and>
   (\<exists>x. sun_row [''01/02/2017'',''08:30:00'',''45'',''120''] = Inr x)"
  using loadSunPath_filters_in_order[of sky_fs "''/sky''" sky_csv "[''Date'',''Time'',''Zenith'',''Azimuth'']"
      "[[''01/02/2017'',''08:30:00'',''45'',''120'']]" "[(Fin 120, Fin 45, DateTime 2017 1 2 8 30 0 0)]"]
  by (simp add: sky_fs_def path_join_def sky_rows sky_row map_filter_simps)

text \<open>C4: on records of an SPA export with integer angles the row loop returns (azimuth, 90 - zenith, timestamp) for exactly the records of zenith at most 90, in order.\<close>

theorem sun_rows_spa_rows:
  assumes "\<forall>(az, z, dt) \<in> set pts. valid_datetime dt \<and> dt_microsecond dt = 0 \<and> az < 1000 \<and> z < 1000"
  shows "sun_rows (map spa_row pts) =
           Inr (map (\<lambda>(az, z, dt). (Fin (of_nat az), Fin (90 - of_nat z), dt))
                    (filter (\<lambda>(az, z, dt). z \<le> 90) pts))"
  using assms by (induction pts) (auto simp: sun_row_spa_row)

theorem sun_rows_spa_rows_witness:
  "sun_rows (map spa_row [(120, 45, DateTime 2017 1 2 8 30 0 0), (90, 100, DateTime 2016 10 25 6 0 0 0)]) =
     Inr [(Fin 120, Fin 45, DateTime 2017 1 2 8 30 0 0)]"
  using sun_rows_spa_rows[of "[(120, 45, DateTime 2017 1 2 8 30 0 0), (90, 100, DateTime 2016 10 25 6 0 0 0)]"]
  by (simp add: valid_datetime_def days_in_month_def DAYS_IN_MONTH_def is_leap_def MINYEAR_def MAXYEAR_def)

text \<open>C5: a record with two fields whose timestamp does not parse is skipped, whatever its other fields hold.\<close>

theorem sun_row_bad_timestamp_skipped:
  "2 \<le> length row \<Longrightarrow> strptime (row ! 0 @ CHR '' '' # row ! 1) SPA_DT_FORMAT = Inl e \<Longrightarrow>
   sun_row row = Inr None"
  by (simp add: sun_row_eq)

theorem sun_row_bad_timestamp_skipped_witness:
  "strptime (''badrow'' @ CHR '' '' # ''x'') SPA_DT_FORMAT = Inl ValueError \<and>
   sun_row [''badrow'', ''x''] = Inr None"
proof -
  have s: "strptime (''badrow'' @ CHR '' '' # ''x'') SPA_DT_FORMAT = Inl ValueError"
    by (simp add: strptime_eval)
  show ?thesis using sun_row_bad_timestamp_skipped[of "[''badrow'', ''x'']" ValueError] s by simp
qed

text \<open>C6: a record raises only IndexError, when it has fewer than four fields, or ValueError, when one of its angle columns is no number; the timestamp parse never lets an exception out.\<close>

theorem sun_row_exceptions:
  assumes "sun_row row = Inl e"
  shows "(e = IndexError \<and> length row < 4) \<or>
         (e = ValueError \<and> 4 \<le> length row \<and>
          (py_float (row ! 3) = Inl ValueError \<or> py_float (row ! 2) = Inl ValueError))"
  using assms
  by (auto simp: sun_row_eq Let_def py_bind_eq_Inl dest: py_float_Inl split: if_splits sum.splits)

theorem sun_row_exceptions_witness:
  "sun_row [''01/02/2017'', ''08:30:00'', ''4 5'', ''120''] = Inl ValueError \<and>
   py_float ''4 5'' = Inl ValueError"
proof -
  have z: "py_float ''4 5'' = Inl ValueError" by (simp add: float_eval py_isspace_def py_isdigit_def)
  have a: "py_float ''120'' = Inr (Fin 120)"
    using py_float_digits[of "''120''"] by (simp add: py_isdigit_def digits_val_def digit_val_def)
  have r: "sun_row [''01/02/2017'', ''08:30:00'', ''4 5'', ''120''] = Inl ValueError"
    using sky_dt by (simp add: sun_row_eq a z)
  show ?thesis using sun_row_exceptions[OF r] r z by simp
qed

text \<open>C7: when the export file does not exist the loader returns the empty sequence.\<close>

theorem loadSunPath_missing:
  "\<not> os_path_exists fs (path_join filepath ''spa.csv'') \<Longrightarrow> loadSunPath fs filepath True = Inr []"
  by (simp add: loadSunPath_def)

theorem loadSunPath_missing_witness:
  "\<not> os_path_exists sky_fs ''/nowhere/spa.csv'' \<and> loadSunPath sky_fs ''/nowhere'' True = Inr []"
  using loadSunPath_missing[of sky_fs "''/nowhere''"]
  by (simp add: sky_fs_def path_join_def os_path_exists_def)

text \<open>C8: a record of fewer than two fields after well-formed records, such as the empty record a blank line gives, makes the whole load raise IndexError.\<close>

theorem loadSunPath_short_record:
  assumes "fs (path_join filepath ''spa.csv'') = Some (File text)"
    and "csv_reader text = (header # rows1 @ r # rows2, err)"
    and "\<forall>r \<in> set rows1. \<exists>x. sun_row r = Inr x" and "length r < 2"
  shows "loadSunPath fs filepath True = Inl IndexError"
proof -
  have "sun_row r = Inl IndexError" using assms(4) by (simp add: sun_row_eq)
  then have "sun_rows (rows1 @ r # rows2) = Inl IndexError"
    using assms(3) by (rule sun_rows_prefix_Inl[rotated])
  then show ?thesis using assms(1,2) by (simp add: loadSunPath_file sun_loop_def)
qed

theorem loadSunPath_short_record_witness:
  "csv_reader (sky_csv @ ''\<newline>'') = ([[''Date'',''Time'',''Zenith'',''Azimuth''], [''01/02/2017'',''08:30:00'',''45'',''120''], []], None) \<and>
   loadSunPath sky_fs ''/blank'' True = Inl IndexError"
  using loadSunPath_short_record[of sky_fs "''/blank''" "sky_csv @ ''\<newline>''" "[''Date'',''Time'',''Zenith'',''Azimuth'']"
      "[[''01/02/2017'',''08:30:00'',''45'',''120'']]" "[]" "[]" None]
  by (simp add: sky_fs_def path_join_def blank_rows sky_row)

end
