(* ===== verification/Exif.thy ===== *)
theory Exif
  imports Strptime PathOps
begin

text \<open>
  The EXIF extractor: \<^verbatim>\<open>imageEXIFTag\<close>, \<^verbatim>\<open>imageEXIF\<close> and \<^verbatim>\<open>imageEXIFDateTime\<close>, which
  \<^verbatim>\<open>src/utility_data.py\<close> and \<^verbatim>\<open>src/utility.py\<close> both define. The metadata parser
  \<^verbatim>\<open>exifread.process_file\<close> is a library the sources only call: it is the parameter
  \<open>pf\<close> of the definitions, \<open>pf stop c\<close> being the tags it reports, each as the text
  \<^verbatim>\<open>str()\<close> gives, for a file of content \<open>c\<close> read up to the tag \<open>stop\<close> (\<open>None\<close>: the
  whole file). Opening the file follows \<open>open_read\<close>; everything else is the source's code.
\<close>

type_synonym exif_tags = "string \<rightharpoonup> string"
type_synonym exif_reader = "string option \<Rightarrow> string \<Rightarrow> exif_tags"

definition DATETIME_TAG :: string where
  "DATETIME_TAG = ''EXIF DateTimeOriginal''"

text \<open>\<^verbatim>\<open>src/utility_data.py\<close>\<close>

definition imageEXIFTag :: "exif_reader \<Rightarrow> fsys \<Rightarrow> string \<Rightarrow> string \<Rightarrow> string option py" where
  "imageEXIFTag pf fs filepath tag =
     py_bind (open_read fs filepath) (\<lambda>f.
       (let tags = pf (Some tag) f in
        Inr (if tag \<in> dom tags then tags tag else None)))"

definition imageEXIF :: "exif_reader \<Rightarrow> fsys \<Rightarrow> string \<Rightarrow> exif_tags py" where
  "imageEXIF pf fs filepath = py_bind (open_read fs filepath) (\<lambda>f. Inr (pf None f))"

definition imageEXIFDateTime :: "exif_reader \<Rightarrow> fsys \<Rightarrow> string \<Rightarrow> datetime py" where
  "imageEXIFDateTime pf fs filepath =
     py_bind (imageEXIFTag pf fs filepath DATETIME_TAG) (\<lambda>strDateTime.
       case strDateTime of
         None \<Rightarrow> Inr datetime_min
       | Some s \<Rightarrow> if length s \<le> 0 then Inr datetime_min else strptime s EXIF_DT_FORMAT)"

text \<open>\<^verbatim>\<open>src/utility.py\<close>: the same functions; the sentinel is \<^verbatim>\<open>datetime(1,1,1)\<close>.\<close>

definition utility_imageEXIFTag :: "exif_reader \<Rightarrow> fsys \<Rightarrow> string \<Rightarrow> string \<Rightarrow> string option py" where
  "utility_imageEXIFTag pf fs filepath tag =
     py_bind (open_read fs filepath) (\<lambda>f.
       (let tags = pf (Some tag) f in
        Inr (if tag \<in> dom tags then tags tag else None)))"

definition utility_imageEXIF :: "exif_reader \<Rightarrow> fsys \<Rightarrow> string \<Rightarrow> exif_tags py" where
  "utility_imageEXIF pf fs filepath = py_bind (open_read fs filepath) (\<lambda>f. Inr (pf None f))"

definition utility_imageEXIFDateTime :: "exif_reader \<Rightarrow> fsys \<Rightarrow> string \<Rightarrow> datetime py" where
  "utility_imageEXIFDateTime pf fs filepath =
     py_bind (utility_imageEXIFTag pf fs filepath DATETIME_TAG) (\<lambda>strDateTime.
       case strDateTime of
         None \<Rightarrow> mk_datetime 1 1 1 0 0 0 0
       | Some s \<Rightarrow> if length s \<le> 0 then mk_datetime 1 1 1 0 0 0 0 else strptime s EXIF_DT_FORMAT)"

section \<open>Sample inputs\<close>

text \<open>
  A file system of three photos and a tag reader: \<^verbatim>\<open>a.jpg\<close> carries the timestamp of the
  specification's example (section 8, item 2), \<^verbatim>\<open>b.jpg\<close> no metadata, \<^verbatim>\<open>c.jpg\<close> an
  empty \<^verbatim>\<open>DateTimeOriginal\<close>.
\<close>

definition sample_fs :: fsys where
  "sample_fs = [''/img'' \<mapsto> Dir, ''/img/a.jpg'' \<mapsto> File ''A'', ''/img/b.jpg'' \<mapsto> File ''B'',
                ''/img/c.jpg'' \<mapsto> File ''C'']"

definition sample_exif :: exif_reader where
  "sample_exif stop c =
     (if c = ''A'' then [DATETIME_TAG \<mapsto> ''2016:10:25 14:30:00'', ''Image Make'' \<mapsto> ''Canon'']
      else if c = ''C'' then [DATETIME_TAG \<mapsto> []] else Map.empty)"

section \<open>Facts\<close>

lemma imageEXIFTag_eq:
  "imageEXIFTag pf fs p tag = py_bind (open_read fs p) (\<lambda>f. Inr (pf (Some tag) f tag))"
  by (auto simp: imageEXIFTag_def py_bind_def Let_def domIff split: sum.splits)

lemma mk_datetime_sentinel: "mk_datetime 1 1 1 0 0 0 0 = Inr datetime_min"
  using valid_datetime_min by (simp add: mk_datetime_cases datetime_min_def)

lemma strptime_EXIF_Inl: "strptime s EXIF_DT_FORMAT = Inl e \<Longrightarrow> e = ValueError"
  by (rule strptime_items_Inl[OF compile_EXIF]) (simp_all add: TIME_ITEMS_def)

lemmas exif_eval [py_simps] = imageEXIFDateTime_def imageEXIFTag_eq DATETIME_TAG_def open_read_def

lemma imageEXIFDateTime_file:
  "fs p = Some (File c) \<Longrightarrow>
   imageEXIFDateTime pf fs p =
     (case pf (Some DATETIME_TAG) c DATETIME_TAG of
        None \<Rightarrow> Inr datetime_min
      | Some s \<Rightarrow> if s = [] then Inr datetime_min else strptime s EXIF_DT_FORMAT)"
  by (simp add: imageEXIFDateTime_def imageEXIFTag_eq open_read_def split: option.splits)

section \<open>Properties of the extractor\<close>

text \<open>
  C10: for a readable photo without the tag, or with an empty tag, the extracted capture
  time is the sentinel \<^verbatim>\<open>datetime.min\<close>, and nothing is raised.
\<close>

theorem imageEXIFDateTime_sentinel:
  assumes "fs p = Some (File c)" "pf (Some DATETIME_TAG) c DATETIME_TAG \<in> {None, Some []}"
  shows "imageEXIFDateTime pf fs p = Inr datetime_min"
  using assms by (auto simp: imageEXIFDateTime_file)

theorem imageEXIFDateTime_sentinel_witness:
  "imageEXIFDateTime sample_exif sample_fs ''/img/b.jpg'' = Inr datetime_min \<and>
   imageEXIFDateTime sample_exif sample_fs ''/img/c.jpg'' = Inr datetime_min"
  using imageEXIFDateTime_sentinel[of sample_fs "''/img/b.jpg''" "''B''" sample_exif]
    imageEXIFDateTime_sentinel[of sample_fs "''/img/c.jpg''" "''C''" sample_exif]
  by (simp add: sample_fs_def sample_exif_def)

text \<open>
  C11: a tag holding the rendering \<^verbatim>\<open>YYYY:MM:DD HH:MM:SS\<close> of a valid datetime without
  microseconds is extracted as that datetime.
\<close>

theorem imageEXIFDateTime_roundtrip:
  assumes "fs p = Some (File c)" "pf (Some DATETIME_TAG) c DATETIME_TAG = Some (fmt_exif dt)"
    and "valid_datetime dt" "dt_microsecond dt = 0"
  shows "imageEXIFDateTime pf fs p = Inr dt"
proof -
  have "fmt_exif dt \<noteq> []" by (simp add: fmt_exif_def)
  then show ?thesis
    using assms strptime_exif_append[OF assms(3,4), of "[]"] by (simp add: imageEXIFDateTime_file)
qed

theorem imageEXIFDateTime_roundtrip_witness:
  "imageEXIFDateTime (\<lambda>_ _. [DATETIME_TAG \<mapsto> fmt_exif (DateTime 2020 2 29 23 59 59 0)]) sample_fs ''/img/a.jpg''
     = Inr (DateTime 2020 2 29 23 59 59 0)"
  using imageEXIFDateTime_roundtrip[of sample_fs "''/img/a.jpg''" "''A''"
      "\<lambda>_ _. [DATETIME_TAG \<mapsto> fmt_exif (DateTime 2020 2 29 23 59 59 0)]" "DateTime 2020 2 29 23 59 59 0"]
  by (simp add: sample_fs_def valid_datetime_def days_in_month_def DAYS_IN_MONTH_def is_leap_def
      MINYEAR_def MAXYEAR_def)

text \<open>
  C12: the extractor raises only when the photo cannot be opened (\<^verbatim>\<open>FileNotFoundError\<close>,
  \<^verbatim>\<open>IsADirectoryError\<close>) or when a non-empty tag is not of the form
  \<^verbatim>\<open>YYYY:MM:DD HH:MM:SS\<close> (\<^verbatim>\<open>ValueError\<close>).
\<close>

theorem imageEXIFDateTime_errors:
  assumes "imageEXIFDateTime pf fs p = Inl e"
  shows "(e = FileNotFoundError \<and> fs p = None) \<or> (e = IsADirectoryError \<and> fs p = Some Dir) \<or>
         (e = ValueError \<and> (\<exists>c s. fs p = Some (File c) \<and> pf (Some DATETIME_TAG) c DATETIME_TAG = Some s \<and>
                              s \<noteq> [] \<and> strptime s EXIF_DT_FORMAT = Inl ValueError))"
proof (cases "fs p")
  case None
  then show ?thesis using assms by (simp add: imageEXIFDateTime_def imageEXIFTag_eq open_read_def)
next
  case (Some a)
  then show ?thesis
  proof (cases a)
    case (File c)
    with Some assms show ?thesis
      by (auto simp: imageEXIFDateTime_file dest: strptime_EXIF_Inl split: option.splits if_splits)
  qed (use assms in \<open>simp add: imageEXIFDateTime_def imageEXIFTag_eq open_read_def\<close>)
qed

theorem imageEXIFDateTime_errors_witness:
  "imageEXIFDateTime sample_exif sample_fs ''/img'' = Inl IsADirectoryError \<and>
   imageEXIFDateTime sample_exif sample_fs ''/img/d.jpg'' = Inl FileNotFoundError \<and>
   sample_fs ''/img'' = Some Dir"
proof -
  have d: "imageEXIFDateTime sample_exif sample_fs ''/img'' = Inl IsADirectoryError"
    by (simp add: imageEXIFDateTime_def imageEXIFTag_eq open_read_def sample_fs_def)
  have "imageEXIFDateTime sample_exif sample_fs ''/img/d.jpg'' = Inl FileNotFoundError"
    by (simp add: imageEXIFDateTime_def imageEXIFTag_eq open_read_def sample_fs_def)
  with imageEXIFDateTime_errors[OF d] d show ?thesis by simp
qed

text \<open>
  C13: the copies of the extractor in \<^verbatim>\<open>src/utility.py\<close> and \<^verbatim>\<open>src/utility_data.py\<close>
  compute the same function: the sentinel \<^verbatim>\<open>datetime(1,1,1)\<close> is \<^verbatim>\<open>datetime.min\<close>.
\<close>

theorem imageEXIFDateTime_modules_agree:
  "utility_imageEXIFDateTime = imageEXIFDateTime \<and> utility_imageEXIFTag = imageEXIFTag \<and>
   utility_imageEXIF = imageEXIF"
  unfolding utility_imageEXIFDateTime_def imageEXIFDateTime_def utility_imageEXIFTag_def
    imageEXIFTag_def utility_imageEXIF_def imageEXIF_def mk_datetime_sentinel
  by (intro conjI refl)

end
