(* ===== verification/RawCheck.thy ===== *)
theory RawCheck
  imports PathOps
begin

text \<open>
  \<^verbatim>\<open>isHDRRawAvailable(hdrImgPath)\<close> of \<^verbatim>\<open>src/utility_data.py\<close>: whether a raw capture
  accompanies a processed photo. The path must exist; it is lower-cased as a whole
  and split with \<^verbatim>\<open>os.path.splitext\<close>; the loop over \<^verbatim>\<open>HDRRawExts\<close> returns \<open>True\<close> when
  the photo's own extension is one of them, or when the lower-cased base with that
  extension exists (\<open>raw_loop\<close>, in the source's order). \<open>raw_available_spec\<close> states
  the result without the loop; \<open>isHDRRawAvailable_spec\<close> shows that the loop computes it.
\<close>

definition HDRRawExts :: "string list" where
  "HDRRawExts = [''.cr2'', ''.raw'', ''.dng'']"

fun raw_loop :: "fsys \<Rightarrow> string \<Rightarrow> string \<Rightarrow> string list \<Rightarrow> bool" where
  "raw_loop fs base ext [] = False"
| "raw_loop fs base ext (e # es) =
     (if ext = e then True
      else if os_path_exists fs (base @ e) then True
      else raw_loop fs base ext es)"

definition isHDRRawAvailable :: "fsys \<Rightarrow> string \<Rightarrow> bool" where
  "isHDRRawAvailable fs hdrImgPath =
     (if \<not> os_path_exists fs hdrImgPath then False
      else (let (base, ext) = splitext (str_lower hdrImgPath)
            in raw_loop fs base ext HDRRawExts))"

definition raw_available_spec :: "fsys \<Rightarrow> string \<Rightarrow> bool" where
  "raw_available_spec fs p \<longleftrightarrow>
     os_path_exists fs p \<and>
     (snd (splitext (str_lower p)) \<in> set HDRRawExts \<or>
      (\<exists>e \<in> set HDRRawExts. os_path_exists fs (fst (splitext (str_lower p)) @ e)))"

section \<open>Sample inputs\<close>

text \<open>
  A capture directory: a raw photo, a processed photo with its raw sibling, a processed
  photo alone, and a camera's upper-case pair \<^verbatim>\<open>IMG_1.JPG\<close>/\<^verbatim>\<open>IMG_1.CR2\<close>.
\<close>

definition photo_fs :: fsys where
  "photo_fs = [''/d'' \<mapsto> Dir, ''/d/shot.cr2'' \<mapsto> File [], ''/d/photo.jpg'' \<mapsto> File [],
               ''/d/photo.cr2'' \<mapsto> File [], ''/d/lone.jpg'' \<mapsto> File [],
               ''/d/IMG_1.JPG'' \<mapsto> File [], ''/d/IMG_1.CR2'' \<mapsto> File []]"

section \<open>Facts\<close>

lemma raw_loop_iff:
  "raw_loop fs base ext es \<longleftrightarrow> ext \<in> set es \<or> (\<exists>e \<in> set es. os_path_exists fs (base @ e))"
  by (induction es) auto

lemmas raw_eval [py_simps] = isHDRRawAvailable_def HDRRawExts_def path_eval

section \<open>Properties of the checker\<close>

text \<open>
  C15: the loop computes the specification of the checker: the photo exists, and either
  its lower-cased extension is a raw extension or its lower-cased base with some raw
  extension exists.
\<close>

theorem isHDRRawAvailable_refines_spec: "isHDRRawAvailable fs p = raw_available_spec fs p"
  by (simp add: isHDRRawAvailable_def raw_available_spec_def raw_loop_iff split: prod.splits)

text \<open>C17: a photo that does not exist has no raw counterpart.\<close>

theorem isHDRRawAvailable_missing:
  "\<not> os_path_exists fs p \<Longrightarrow> \<not> isHDRRawAvailable fs p"
  by (simp add: isHDRRawAvailable_def)

theorem isHDRRawAvailable_missing_witness:
  "\<not> os_path_exists photo_fs ''/d/gone.cr2'' \<and> \<not> isHDRRawAvailable photo_fs ''/d/gone.cr2''"
  using isHDRRawAvailable_missing[of photo_fs "''/d/gone.cr2''"]
  by (simp add: photo_fs_def os_path_exists_def)

text \<open>
  C18: an existing photo whose lower-cased base exists with a raw extension has a raw
  counterpart, whichever of the three extensions it is.
\<close>

theorem isHDRRawAvailable_sibling:
  assumes "os_path_exists fs p" "e \<in> set HDRRawExts"
    and "os_path_exists fs (fst (splitext (str_lower p)) @ e)"
  shows "isHDRRawAvailable fs p"
  using assms by (auto simp: isHDRRawAvailable_def raw_loop_iff split: prod.splits)

theorem isHDRRawAvailable_sibling_witness:
  "isHDRRawAvailable (photo_fs(''/d/lone.dng'' \<mapsto> File [])) ''/d/lone.jpg''"
  using isHDRRawAvailable_sibling[of "photo_fs(''/d/lone.dng'' \<mapsto> File [])" "''/d/lone.jpg''" "''.dng''"]
  by (simp add: photo_fs_def path_eval HDRRawExts_def)

end
