(* ===== verification/Utility.thy ===== *)
theory Utility
  imports Strptime PyFloat PathOps
begin

text \<open>
  The general helpers of \<^verbatim>\<open>src/utility.py\<close>: \<^verbatim>\<open>clamp\<close>, \<^verbatim>\<open>normalize\<close> and
  \<^verbatim>\<open>verifyDateTime\<close>. Their arguments are Python numbers, an \<^verbatim>\<open>int\<close> or a \<^verbatim>\<open>float\<close>
  (\<open>pynum\<close>). Mixed arithmetic converts the \<^verbatim>\<open>int\<close> to \<^verbatim>\<open>float\<close> first, which raises
  \<^verbatim>\<open>OverflowError\<close> for an int too large for a double. Comparison of an \<^verbatim>\<open>int\<close> with a
  \<^verbatim>\<open>float\<close> is exact, and any comparison with NaN is false. \<^verbatim>\<open>max(a, b)\<close> keeps
  \<open>a\<close> unless \<open>b > a\<close>; \<^verbatim>\<open>min(a, b)\<close> keeps \<open>a\<close> unless \<open>b < a\<close>
  (CPython's \<^verbatim>\<open>min_max\<close>).
\<close>

datatype pynum = PyInt int | PyFloat pyfloat

text \<open>The value a number compares by.\<close>

definition num_val :: "pynum \<Rightarrow> pyfloat" where
  "num_val x = (case x of PyInt k \<Rightarrow> Fin (of_int k) | PyFloat f \<Rightarrow> f)"

text \<open>\<^verbatim>\<open>float(x)\<close>.\<close>

definition num_float :: "pynum \<Rightarrow> pyfloat py" where
  "num_float x = (case x of
                    PyInt k \<Rightarrow> (case to_double (of_int k) of Fin v \<Rightarrow> Inr (Fin v) | _ \<Rightarrow> Inl OverflowError)
                  | PyFloat f \<Rightarrow> Inr f)"

text \<open>\<^verbatim>\<open>a - b\<close>.\<close>

definition py_sub :: "pynum \<Rightarrow> pynum \<Rightarrow> pynum py" where
  "py_sub a b = (case (a, b) of
                   (PyInt x, PyInt y) \<Rightarrow> Inr (PyInt (x - y))
                 | _ \<Rightarrow> py_bind (num_float a) (\<lambda>x. py_bind (num_float b) (\<lambda>y. Inr (PyFloat (fsub x y)))))"

definition py_lt :: "pynum \<Rightarrow> pynum \<Rightarrow> bool" where
  "py_lt a b = flt (num_val a) (num_val b)"

definition py_max2 :: "pynum \<Rightarrow> pynum \<Rightarrow> pynum" where
  "py_max2 a b = (if py_lt a b then b else a)"

definition py_min2 :: "pynum \<Rightarrow> pynum \<Rightarrow> pynum" where
  "py_min2 a b = (if py_lt b a then b else a)"

definition clamp :: "pynum \<Rightarrow> pynum \<Rightarrow> pynum \<Rightarrow> pynum" where
  "clamp n minval maxval = py_min2 (py_max2 n minval) maxval"

definition normalize :: "pynum \<Rightarrow> pynum \<Rightarrow> pynum \<Rightarrow> pyfloat py" where
  "normalize n minval maxval =
     py_bind (py_sub n minval) (\<lambda>d. py_bind (num_float d) (\<lambda>x.
     py_bind (py_sub maxval minval) (\<lambda>r. py_bind (num_float r) (\<lambda>y. fdiv x y))))"

text \<open>\<^verbatim>\<open>verifyDateTime\<close>: \<^verbatim>\<open>True\<close> when the string parses; only \<^verbatim>\<open>ValueError\<close> is caught.\<close>

definition verifyDateTime :: "string \<Rightarrow> string \<Rightarrow> bool py" where
  "verifyDateTime datestr datefmtstr =
     (case strptime datestr datefmtstr of
        Inr _ \<Rightarrow> Inr True
      | Inl e \<Rightarrow> if e = ValueError then Inr False else Inl e)"

section \<open>Facts\<close>

lemma num_float_int: "\<bar>k\<bar> < 2 ^ 53 \<Longrightarrow> num_float (PyInt k) = Inr (Fin (of_int k))"
  by (simp add: num_float_def to_double_int)

lemma flt_Fin_iff: "flt x y \<longleftrightarrow> (\<exists>a b. x = Fin a \<and> y = Fin b \<and> a < b) \<or>
                      (x = NInf \<and> y \<noteq> NInf \<and> y \<noteq> NaN) \<or> (y = PInf \<and> x \<noteq> PInf \<and> x \<noteq> NaN)"
  by (cases x; cases y) auto

lemma fle_iff_not_flt: "x \<noteq> NaN \<Longrightarrow> y \<noteq> NaN \<Longrightarrow> fle x y \<longleftrightarrow> \<not> flt y x"
  by (cases x; cases y) auto

lemma flt_NaN [simp]: "\<not> flt x NaN" "\<not> flt NaN x"
  by (cases x; simp)+

lemma to_double_zero [simp]: "to_double 0 = Fin 0"
  by (simp add: to_double_def)

lemma num_val_if: "num_val (if c then a else b) = (if c then num_val a else num_val b)"
  by simp

lemma clamp_val:
  "num_val (clamp n lo hi) =
     (let m = (if flt (num_val n) (num_val lo) then num_val lo else num_val n)
      in if flt (num_val hi) m then num_val hi else m)"
  by (simp add: clamp_def py_min2_def py_max2_def py_lt_def Let_def)

lemma clamp_cases: "clamp n lo hi \<in> {n, lo, hi}"
  by (simp add: clamp_def py_min2_def py_max2_def)

lemma fdiv_Fin: "b \<noteq> 0 \<Longrightarrow> fdiv (Fin a) (Fin b) = Inr (to_double (a / b))"
  by (simp add: fdiv_def)

lemma normalize_int:
  assumes "\<bar>n - lo\<bar> < 2 ^ 53" "\<bar>hi - lo\<bar> < 2 ^ 53" "hi \<noteq> lo"
  shows "normalize (PyInt n) (PyInt lo) (PyInt hi) = Inr (to_double (of_int (n - lo) / of_int (hi - lo)))"
  using assms by (simp add: normalize_def py_sub_def num_float_int fdiv_Fin)

section \<open>Properties of the helpers\<close>

text \<open>
  C20: for numbers that are not NaN and bounds in order, \<^verbatim>\<open>clamp\<close> returns the lower
  bound when the number is below it, the upper bound when the number is above it, and
  the number itself otherwise; so its value lies between the bounds.
\<close>

theorem clamp_bounds:
  assumes "num_val n \<noteq> NaN" "num_val lo \<noteq> NaN" "num_val hi \<noteq> NaN"
    and "fle (num_val lo) (num_val hi)"
  shows "clamp n lo hi = (if flt (num_val n) (num_val lo) then lo
                          else if flt (num_val hi) (num_val n) then hi else n) \<and>
         fle (num_val lo) (num_val (clamp n lo hi)) \<and> fle (num_val (clamp n lo hi)) (num_val hi)"
proof -
  have "\<not> (flt (num_val n) (num_val lo) \<and> flt (num_val hi) (num_val lo))"
    using assms by (cases "num_val n"; cases "num_val lo"; cases "num_val hi") auto
  then have "clamp n lo hi = (if flt (num_val n) (num_val lo) then lo
                              else if flt (num_val hi) (num_val n) then hi else n)"
    by (auto simp: clamp_def py_min2_def py_max2_def py_lt_def)
  moreover have "fle (num_val lo) (num_val (clamp n lo hi)) \<and> fle (num_val (clamp n lo hi)) (num_val hi)"
    using assms unfolding clamp_val Let_def
    by (cases "num_val n"; cases "num_val lo"; cases "num_val hi") auto
  ultimately show ?thesis by blast
qed

theorem clamp_bounds_witness:
  "clamp (PyInt 300) (PyInt 0) (PyFloat (Fin 255)) = PyFloat (Fin 255) \<and>
   clamp (PyInt 7) (PyInt 0) (PyFloat (Fin 255)) = PyInt 7 \<and>
   fle (Fin 0) (Fin 255) \<and> fle (Fin 255) (Fin 255)"
  using clamp_bounds[of "PyInt 300" "PyInt 0" "PyFloat (Fin 255)"]
    clamp_bounds[of "PyInt 7" "PyInt 0" "PyFloat (Fin 255)"]
  by (simp add: num_val_def)

text \<open>
  C21: NaN is not clamped: \<^verbatim>\<open>clamp(nan, lo, hi)\<close> is NaN whatever the bounds, and NaN
  bounds leave the number unchanged, since every comparison with NaN is false.
\<close>

theorem clamp_nan:
  "clamp (PyFloat NaN) lo hi = PyFloat NaN \<and> clamp n (PyFloat NaN) (PyFloat NaN) = n"
  by (simp add: clamp_def py_min2_def py_max2_def py_lt_def num_val_def)

text \<open>
  C22: \<^verbatim>\<open>normalize\<close> of integers within the bounds, the range below \<open>2\<^sup>5\<^sup>3\<close>, is the
  correctly rounded quotient \<open>(n - minval) / (maxval - minval)\<close>, a float in \<open>[0, 1]\<close>.
\<close>

theorem normalize_unit_interval:
  assumes "lo \<le> n" "n \<le> hi" "lo < hi" "hi - lo < 2 ^ 53"
  shows "\<exists>v. normalize (PyInt n) (PyInt lo) (PyInt hi) = Inr (Fin v) \<and>
             to_double (of_int (n - lo) / of_int (hi - lo)) = Fin v \<and> 0 \<le> v \<and> v \<le> 1"
proof -
  have q: "0 \<le> (of_int (n - lo) / of_int (hi - lo) :: rat)" "(of_int (n - lo) / of_int (hi - lo) :: rat) \<le> 1"
    using assms by (simp_all add: divide_le_eq_1)
  obtain v where "to_double (of_int (n - lo) / of_int (hi - lo)) = Fin v" "0 \<le> v" "v \<le> 1"
    using to_double_unit[OF q] by blast
  moreover have "normalize (PyInt n) (PyInt lo) (PyInt hi) = Inr (to_double (of_int (n - lo) / of_int (hi - lo)))"
    using assms by (intro normalize_int) simp_all
  ultimately show ?thesis by simp
qed

theorem normalize_unit_interval_witness:
  "\<exists>v. normalize (PyInt 51) (PyInt 0) (PyInt 255) = Inr (Fin v) \<and>
       to_double (of_int 51 / of_int 255) = Fin v \<and> 0 \<le> v \<and> v \<le> 1"
  using normalize_unit_interval[of 0 51 255] by simp

text \<open>
  C23: the bounds of the range normalise exactly to \<open>0.0\<close> and \<open>1.0\<close>.
\<close>

theorem normalize_endpoints:
  assumes "lo < hi" "hi - lo < 2 ^ 53"
  shows "normalize (PyInt lo) (PyInt lo) (PyInt hi) = Inr (Fin 0) \<and>
         normalize (PyInt hi) (PyInt lo) (PyInt hi) = Inr (Fin 1)"
proof -
  have "to_double (of_int 1) = Fin (of_int 1)" by (rule to_double_int) simp
  then show ?thesis using assms normalize_int[of lo lo hi] normalize_int[of hi lo hi]
    by (simp add: to_double_def)
qed

theorem normalize_endpoints_witness:
  "normalize (PyInt 0) (PyInt 0) (PyInt 255) = Inr (Fin 0) \<and>
   normalize (PyInt 255) (PyInt 0) (PyInt 255) = Inr (Fin 1)"
  using normalize_endpoints[of 0 255] by simp

text \<open>
  C24: an empty range raises: with \<^verbatim>\<open>minval == maxval\<close> the call raises
  \<^verbatim>\<open>ZeroDivisionError\<close>, or \<^verbatim>\<open>OverflowError\<close> first when an integer operand is too large
  for a float.
\<close>

theorem normalize_empty_range:
  assumes "num_val lo = Fin b"
  shows "normalize n lo lo = Inl ZeroDivisionError \<or> normalize n lo lo = Inl OverflowError"
proof (cases lo)
  case (PyInt k)
  then show ?thesis
    by (cases n) (auto simp: normalize_def py_sub_def num_float_def fdiv_def to_double_def
                       split: pyfloat.splits)
next
  case (PyFloat f)
  then show ?thesis using assms
    by (cases n) (auto simp: normalize_def py_sub_def num_float_def num_val_def fdiv_def to_double_def
                       split: pyfloat.splits)
qed

theorem normalize_empty_range_witness:
  "normalize (PyFloat (Fin 3)) (PyInt 7) (PyInt 7) = Inl ZeroDivisionError"
proof -
  have "normalize (PyFloat (Fin 3)) (PyInt 7) (PyInt 7) \<noteq> Inl OverflowError"
    using to_double_int[of 7] by (simp add: normalize_def py_sub_def num_float_def fdiv_def)
  then show ?thesis using normalize_empty_range[of "PyInt 7" 7 "PyFloat (Fin 3)"] by (simp add: num_val_def)
qed

text \<open>
  C25: for a format of the modelled directives without a repeated directive,
  \<^verbatim>\<open>verifyDateTime\<close> never raises and answers whether \<^verbatim>\<open>strptime\<close> succeeds.
\<close>

theorem verifyDateTime_total:
  assumes "compile_fmt fmt = Inr fs" "\<not> has_other fs" "distinct (group_names fs)"
  shows "verifyDateTime s fmt = Inr (\<not> isl (strptime s fmt))"
  using strptime_items_Inl[OF assms] by (auto simp: verifyDateTime_def split: sum.splits)

theorem verifyDateTime_total_witness:
  "verifyDateTime ''10/25/2016 06:00:00'' SPA_DT_FORMAT = Inr True \<and>
   verifyDateTime ''badrow x'' SPA_DT_FORMAT = Inr False"
proof -
  have "\<not> has_other ([FDir CHR ''m'', FLit CHR ''/'', FDir CHR ''d'', FLit CHR ''/'', FDir CHR ''Y''] @ TIME_ITEMS)"
    "distinct (group_names ([FDir CHR ''m'', FLit CHR ''/'', FDir CHR ''d'', FLit CHR ''/'', FDir CHR ''Y''] @ TIME_ITEMS))"
    by (simp_all add: TIME_ITEMS_def)
  moreover have "strptime ''10/25/2016 06:00:00'' SPA_DT_FORMAT = Inr (DateTime 2016 10 25 6 0 0 0)"
    "strptime ''badrow x'' SPA_DT_FORMAT = Inl ValueError"
    by (simp_all add: strptime_eval)
  ultimately show ?thesis
    using verifyDateTime_total[OF compile_SPA, of "''10/25/2016 06:00:00''"]
      verifyDateTime_total[OF compile_SPA, of "''badrow x''"] by simp
qed

text \<open>
  C26: a format that compiles without locale directives but repeats a directive makes
  \<^verbatim>\<open>verifyDateTime\<close> raise \<^verbatim>\<open>re.error\<close> (redefinition of a group name) instead of
  answering \<^verbatim>\<open>False\<close>, whatever the date string: only \<^verbatim>\<open>ValueError\<close> is caught.
\<close>

theorem verifyDateTime_repeated_directive:
  assumes "compile_fmt fmt = Inr fs" "\<not> has_other fs" "\<not> distinct (group_names fs)"
  shows "verifyDateTime s fmt = Inl ReError"
  using assms by (simp add: verifyDateTime_def strptime_def)

theorem verifyDateTime_repeated_directive_witness:
  "compile_fmt ''%Y %Y'' = Inr [FDir CHR ''Y'', FWs, FDir CHR ''Y''] \<and>
   \<not> has_other [FDir CHR ''Y'', FWs, FDir CHR ''Y''] \<and>
   \<not> distinct (group_names [FDir CHR ''Y'', FWs, FDir CHR ''Y'']) \<and>
   verifyDateTime ''2017 2017'' ''%Y %Y'' = Inl ReError"
proof -
  have c: "compile_fmt ''%Y %Y'' = Inr [FDir CHR ''Y'', FWs, FDir CHR ''Y'']"
    by (simp add: strptime_eval)
  show ?thesis using verifyDateTime_repeated_directive[OF c, of "''2017 2017''"] c by simp
qed

end
