(* ===== verification/FindFiles.thy ===== *)
theory FindFiles
  imports PathOps
begin

text \<open>
  \<^verbatim>\<open>findFiles(dirpath, mode=0, recursive=False, ext="")\<close> of \<^verbatim>\<open>src/utility.py\<close>: the
  files (\<^verbatim>\<open>mode\<close> 1), directories (2) or both (0) of a directory, immediate or at any
  depth, files filtered by a lower-cased extension. The immediate listing reads
  \<^verbatim>\<open>os.listdir\<close>, in the order of the listing \<open>ls\<close>; the recursive one reads
  \<^verbatim>\<open>os.walk\<close>, which CPython 3.12 runs over an explicit stack (\<open>os_walk\<close>): it pops a
  directory, splits its entries into directories and the rest, yields them, and pushes
  the subdirectories so that the first is visited next. A directory that cannot be
  scanned is skipped. The walk is a \<open>partial_function\<close>, \<open>None\<close> when it never ends;
  \<open>os_walk_terminates\<close> shows that it ends on every finite file system whose listings
  name existing children.
\<close>

section \<open>The extension argument\<close>

text \<open>
  \<^verbatim>\<open>ext = ext.strip().lower()\<close>, then a dot is prepended unless \<^verbatim>\<open>ext[0]\<close> is one;
  \<^verbatim>\<open>ext[0]\<close> of an argument that was all blanks raises \<^verbatim>\<open>IndexError\<close>.
\<close>

definition norm_ext :: "string \<Rightarrow> string py" where
  "norm_ext ext =
     (if 0 < length ext then
        (let e = str_lower (py_strip ext) in
         if e = [] then Inl IndexError
         else if e ! 0 \<noteq> CHR ''.'' then Inr (CHR ''.'' # e) else Inr e)
      else Inr ext)"

text \<open>\<^verbatim>\<open>if len(ext) > 0: if extension == ext: ...\<close>, on \<^verbatim>\<open>fullpath.strip().lower()\<close>.\<close>

definition ext_matches :: "string \<Rightarrow> string \<Rightarrow> bool" where
  "ext_matches ext fullpath =
     (if 0 < length ext then snd (splitext (str_lower (py_strip fullpath))) = ext else True)"

section \<open>The immediate listing\<close>

definition flat_entry :: "fsys \<Rightarrow> string \<Rightarrow> int \<Rightarrow> string \<Rightarrow> string \<Rightarrow> string list" where
  "flat_entry fs dirpath mode ext entry =
     (let fullpath = path_join dirpath entry in
      (if mode = 1 \<or> mode = 0 then
         (if os_path_isfile fs fullpath \<and> ext_matches ext fullpath then [fullpath] else [])
       else []) @
      (if mode = 2 \<or> mode = 0 then (if os_path_isdir fs fullpath then [fullpath] else []) else []))"

section \<open>os.walk\<close>

text \<open>The subdirectories and the other entries of a directory, in listing order.\<close>

definition walk_split :: "fsys \<Rightarrow> (string \<Rightarrow> string list) \<Rightarrow> string \<Rightarrow> string list \<times> string list" where
  "walk_split fs ls dir =
     (filter (\<lambda>n. os_path_isdir fs (path_join dir n)) (ls dir),
      filter (\<lambda>n. \<not> os_path_isdir fs (path_join dir n)) (ls dir))"

partial_function (option) os_walk ::
  "fsys \<Rightarrow> (string \<Rightarrow> string list) \<Rightarrow> string list \<Rightarrow> (string \<times> string list \<times> string list) list option"
where
  "os_walk fs ls stack =
     (case stack of
        [] \<Rightarrow> Some []
      | dir # rest \<Rightarrow>
          if \<not> os_path_isdir fs dir then os_walk fs ls rest
          else Option.bind
                 (os_walk fs ls (map (path_join dir) (fst (walk_split fs ls dir)) @ rest))
                 (\<lambda>ws. Some ((dir, fst (walk_split fs ls dir), snd (walk_split fs ls dir)) # ws)))"

text \<open>The body of the loop over \<^verbatim>\<open>os.walk(dirpath)\<close> for one directory.\<close>

definition walk_entry :: "int \<Rightarrow> string \<Rightarrow> string \<times> string list \<times> string list \<Rightarrow> string list" where
  "walk_entry mode ext w =
     (let (root, dirs, files) = w in
      (if mode = 1 \<or> mode = 0 then filter (ext_matches ext) (map (path_join root) files) else []) @
      (if mode = 2 \<or> mode = 0 then map (path_join root) dirs else []))"

section \<open>findFiles\<close>

definition findFiles ::
  "fsys \<Rightarrow> (string \<Rightarrow> string list) \<Rightarrow> string \<Rightarrow> int \<Rightarrow> bool \<Rightarrow> string \<Rightarrow> string list py option"
where
  "findFiles fs ls dirpath mode recursive ext =
     (case norm_ext ext of
        Inl e \<Rightarrow> Some (Inl e)
      | Inr ext' \<Rightarrow>
          if \<not> recursive then
            Some (py_bind (listdir fs ls dirpath) (\<lambda>entries.
                    Inr (concat (map (flat_entry fs dirpath mode ext') entries))))
          else map_option (\<lambda>ws. Inr (concat (map (walk_entry mode ext') ws))) (os_walk fs ls [dirpath]))"

text \<open>
  The listings a file system admits: a directory lists distinct non-empty names without
  a slash, each naming an existing entry.
\<close>

definition listing_ok :: "fsys \<Rightarrow> (string \<Rightarrow> string list) \<Rightarrow> bool" where
  "listing_ok fs ls \<longleftrightarrow>
     (\<forall>d. os_path_isdir fs d \<longrightarrow> distinct (ls d) \<and>
        (\<forall>n \<in> set (ls d). n \<noteq> [] \<and> CHR ''/'' \<notin> set n \<and> fs (path_join d n) \<noteq> None))"

section \<open>Sample tree\<close>

text \<open>
  A capture directory \<^verbatim>\<open>/p\<close> with photos at three depths, a text file and an empty
  subdirectory, listed in the order below.
\<close>

definition tree_fs :: fsys where
  "tree_fs = [''/p'' \<mapsto> Dir, ''/p/a.JPG'' \<mapsto> File [], ''/p/b.txt'' \<mapsto> File [], ''/p/s'' \<mapsto> Dir,
              ''/p/u'' \<mapsto> Dir, ''/p/s/c.jpg'' \<mapsto> File [], ''/p/s/t'' \<mapsto> Dir, ''/p/s/t/d.jpg'' \<mapsto> File []]"

definition tree_ls :: "string \<Rightarrow> string list" where
  "tree_ls d = (if d = ''/p'' then [''a.JPG'', ''b.txt'', ''s'', ''u'']
                else if d = ''/p/s'' then [''c.jpg'', ''t'']
                else if d = ''/p/s/t'' then [''d.jpg''] else [])"

section \<open>Facts\<close>

lemma path_join_longer:
  "n \<noteq> [] \<Longrightarrow> CHR ''/'' \<notin> set n \<Longrightarrow> length d < length (path_join d n)"
  by (cases n) (auto simp: path_join_def)

lemma path_join_inj:
  assumes "n \<noteq> []" "CHR ''/'' \<notin> set n" "m \<noteq> []" "CHR ''/'' \<notin> set m"
    and "path_join d n = path_join d m"
  shows "n = m"
  using assms by (cases n; cases m) (auto simp: path_join_def split: if_splits)

lemma sum_list_le_length_mult:
  "(\<And>c. c \<in> set cs \<Longrightarrow> f c \<le> (x :: nat)) \<Longrightarrow> sum_list (map f cs) \<le> length cs * x"
  by (induction cs) (auto simp: add_mono)

lemma children_weight:
  fixes A :: "string set"
  assumes "distinct cs" "set cs \<subseteq> A" "finite A"
    and "\<And>c. c \<in> set cs \<Longrightarrow> length d < length c \<and> length c \<le> L"
  shows "sum_list (map (\<lambda>p. (card A + 1) ^ (L + 1 - length p)) cs) < (card A + 1) ^ (L + 1 - length d)"
proof (cases cs)
  case Nil
  then show ?thesis by simp
next
  case (Cons c cs')
  then have dL: "length d < L" using assms(4)[of c] by auto
  define X where "X = (card A + 1) ^ (L - length d)"
  have le: "(card A + 1) ^ (L + 1 - length p) \<le> X" if "p \<in> set cs" for p
    using assms(4)[OF that] unfolding X_def by (intro power_increasing) auto
  have "length cs \<le> card A"
    using assms(1-3) by (metis card_mono distinct_card)
  then have "sum_list (map (\<lambda>p. (card A + 1) ^ (L + 1 - length p)) cs) \<le> card A * X"
    using sum_list_le_length_mult[of cs _ X] le by (meson le_trans mult_le_mono1)
  also have "\<dots> < (card A + 1) * X" by (simp add: X_def)
  also have "\<dots> = (card A + 1) ^ (L + 1 - length d)"
    using dL by (simp add: X_def Suc_diff_le)
  finally show ?thesis .
qed

lemma listing_names:
  assumes "listing_ok fs ls" "os_path_isdir fs d"
  shows "distinct (ls d)" "\<And>n. n \<in> set (ls d) \<Longrightarrow> n \<noteq> [] \<and> CHR ''/'' \<notin> set n \<and> fs (path_join d n) \<noteq> None"
  using assms by (auto simp: listing_ok_def)

lemma walk_children_distinct:
  assumes "listing_ok fs ls" "os_path_isdir fs d"
  shows "distinct (map (path_join d) (ls d))"
proof -
  have "inj_on (path_join d) (set (ls d))"
    using listing_names(2)[OF assms] path_join_inj by (meson inj_onI)
  then show ?thesis using listing_names(1)[OF assms] by (simp add: distinct_map)
qed

lemma walk_children:
  assumes ok: "listing_ok fs ls" and d: "os_path_isdir fs d"
  shows "distinct (map (path_join d) (fst (walk_split fs ls d)))"
    and "\<And>c. c \<in> set (map (path_join d) (fst (walk_split fs ls d))) \<Longrightarrow> c \<in> dom fs \<and> length d < length c"
proof -
  show "distinct (map (path_join d) (fst (walk_split fs ls d)))"
    using walk_children_distinct[OF ok d] by (simp add: walk_split_def distinct_map_filter)
  fix c assume "c \<in> set (map (path_join d) (fst (walk_split fs ls d)))"
  then obtain n where "n \<in> set (ls d)" "c = path_join d n" by (auto simp: walk_split_def)
  then show "c \<in> dom fs \<and> length d < length c" using listing_names(2)[OF ok d] path_join_longer by blast
qed

lemma os_walk_terminates:
  assumes fin: "finite (dom fs)" and ok: "listing_ok fs ls"
  shows "\<exists>ws. os_walk fs ls stack = Some ws"
proof -
  define L where "L = Max (length ` dom fs)"
  define w where "w p = (card (dom fs) + 1) ^ (L + 1 - length p)" for p :: string
  have Lmax: "length p \<le> L" if "p \<in> dom fs" for p
    using fin that by (simp add: L_def)
  show ?thesis
  proof (induction stack rule: measure_induct_rule[where f = "\<lambda>s. sum_list (map w s)"])
    case (less stack)
    show ?case
    proof (cases stack)
      case Nil
      then show ?thesis by (simp add: os_walk.simps)
    next
      case (Cons d rest)
      show ?thesis
      proof (cases "os_path_isdir fs d")
        case False
        have "sum_list (map w rest) < sum_list (map w stack)" by (simp add: Cons w_def)
        then show ?thesis using less False by (subst os_walk.simps) (simp add: Cons)
      next
        case True
        let ?cs = "map (path_join d) (fst (walk_split fs ls d))"
        have "sum_list (map w ?cs) < w d"
          unfolding w_def
        proof (rule children_weight[OF walk_children(1)[OF ok True] _ fin])
          show "set ?cs \<subseteq> dom fs" using walk_children(2)[OF ok True] by blast
          fix c assume "c \<in> set ?cs"
          then show "length d < length c \<and> length c \<le> L"
            using walk_children(2)[OF ok True] Lmax by blast
        qed
        then have "sum_list (map w (?cs @ rest)) < sum_list (map w stack)" by (simp add: Cons)
        then obtain ws where "os_walk fs ls (?cs @ rest) = Some ws" using less by blast
        then show ?thesis using True by (subst os_walk.simps) (simp add: Cons)
      qed
    qed
  qed
qed


lemma flat_entry_eq:
  "flat_entry fs d mode e n =
     (if (mode \<in> {0, 1} \<and> os_path_isfile fs (path_join d n) \<and> ext_matches e (path_join d n)) \<or>
         (mode \<in> {0, 2} \<and> os_path_isdir fs (path_join d n))
      then [path_join d n] else [])"
  by (auto simp: flat_entry_def Let_def os_path_isfile_def os_path_isdir_def split: option.splits fentry.splits)

lemma concat_map_singleton_filter:
  "(\<And>n. f n = (if P n then [g n] else [])) \<Longrightarrow> concat (map f xs) = map g (filter P xs)"
  by (induction xs) auto


section \<open>Sample evaluations\<close>

lemma tree_listing: "finite (dom tree_fs) \<and> listing_ok tree_fs tree_ls"
  by (auto simp: tree_fs_def tree_ls_def listing_ok_def os_path_isdir_def path_join_def split: if_splits)

lemma tree_walk:
  "os_walk tree_fs tree_ls [''/p''] =
     Some [(''/p'', [''s'', ''u''], [''a.JPG'', ''b.txt'']), (''/p/s'', [''t''], [''c.jpg'']),
           (''/p/s/t'', [], [''d.jpg'']), (''/p/u'', [], [])]"
  by (simp add: os_walk.simps walk_split_def tree_fs_def tree_ls_def os_path_isdir_def path_join_def)

lemma tree_norm_ext: "norm_ext ''JPG'' = Inr ''.jpg''" "norm_ext [] = Inr []"
  by (simp_all add: norm_ext_def py_strip_def py_isspace_def str_lower_def py_lower_def
      char_of_eq_iff eq_char_of_iff)

lemma tree_ext_matches:
  "ext_matches ''.jpg'' ''/p/a.JPG''" "\<not> ext_matches ''.jpg'' ''/p/b.txt''"
  "ext_matches ''.jpg'' ''/p/s/c.jpg''" "ext_matches ''.jpg'' ''/p/s/t/d.jpg''"
  by (simp_all add: ext_matches_def path_eval py_strip_def py_isspace_def)

section \<open>Properties of findFiles\<close>

text \<open>
  The partial \<open>os_walk\<close> always returns on a finite file system whose listings name
  existing entries, so \<open>findFiles\<close> does, immediate or recursive.
\<close>

lemma findFiles_terminates:
  assumes "finite (dom fs)" "listing_ok fs ls"
  shows "\<exists>r. findFiles fs ls dirpath mode recursive ext = Some r"
  using os_walk_terminates[OF assms, of "[dirpath]"]
  by (auto simp: findFiles_def split: sum.splits)

text \<open>
  C28: the immediate listing of a directory is the list of its entries, in listing order
  and without repetition, that are files with the extension (modes 0 and 1) or
  directories (modes 0 and 2).
\<close>

theorem findFiles_flat:
  assumes "listing_ok fs ls" "os_path_isdir fs dirpath" "norm_ext ext = Inr e"
  shows "findFiles fs ls dirpath mode False ext =
           Some (Inr (map (path_join dirpath)
             (filter (\<lambda>n. (mode \<in> {0, 1} \<and> os_path_isfile fs (path_join dirpath n) \<and>
                             ext_matches e (path_join dirpath n)) \<or>
                          (mode \<in> {0, 2} \<and> os_path_isdir fs (path_join dirpath n))) (ls dirpath)))) \<and>
         distinct (map (path_join dirpath) (ls dirpath))"
proof -
  have "listdir fs ls dirpath = Inr (ls dirpath)"
    using assms(2) by (simp add: listdir_def os_path_isdir_def)
  moreover have "distinct (map (path_join dirpath) (ls dirpath))"
    using walk_children_distinct[OF assms(1,2)] .
  ultimately show ?thesis
    using assms(3) by (simp add: findFiles_def concat_map_singleton_filter[OF flat_entry_eq])
qed

theorem findFiles_flat_witness:
  "findFiles tree_fs tree_ls ''/p'' 1 False ''JPG'' = Some (Inr [''/p/a.JPG'']) \<and>
   findFiles tree_fs tree_ls ''/p'' 2 False [] = Some (Inr [''/p/s'', ''/p/u''])"
proof -
  have d: "os_path_isdir tree_fs ''/p''" by (simp add: tree_fs_def os_path_isdir_def)
  show ?thesis
    using findFiles_flat[OF conjunct2[OF tree_listing] d tree_norm_ext(1), of 1]
      findFiles_flat[OF conjunct2[OF tree_listing] d tree_norm_ext(2), of 2] tree_ext_matches(1,2)
    by (simp add: tree_ls_def tree_fs_def path_join_def os_path_isfile_def os_path_isdir_def)
qed

text \<open>
  C29: a missing directory raises \<^verbatim>\<open>FileNotFoundError\<close> in the immediate listing, but the
  recursive listing returns the empty list, since \<^verbatim>\<open>os.walk\<close> ignores the error.
\<close>

theorem findFiles_missing_dir:
  assumes "fs dirpath = None" "norm_ext ext = Inr e"
  shows "findFiles fs ls dirpath mode False ext = Some (Inl FileNotFoundError) \<and>
         findFiles fs ls dirpath mode True ext = Some (Inr [])"
  using assms by (simp add: findFiles_def listdir_def os_walk.simps os_path_isdir_def)

theorem findFiles_missing_dir_witness:
  "findFiles tree_fs tree_ls ''/q'' 0 False [] = Some (Inl FileNotFoundError) \<and>
   findFiles tree_fs tree_ls ''/q'' 0 True [] = Some (Inr [])"
  using findFiles_missing_dir[of tree_fs "''/q''" "[]" "[]" tree_ls 0]
  by (simp add: tree_fs_def norm_ext_def)

text \<open>
  C30: an extension argument of blanks only, such as \<^verbatim>\<open>" "\<close>, raises \<^verbatim>\<open>IndexError\<close>
  before the directory is read: after \<^verbatim>\<open>strip()\<close> it is empty and \<^verbatim>\<open>ext[0]\<close> fails.
\<close>

theorem findFiles_blank_ext:
  assumes "ext \<noteq> []" "\<forall>c \<in> set ext. py_isspace c"
  shows "findFiles fs ls dirpath mode recursive ext = Some (Inl IndexError)"
proof -
  have dw: "dropWhile py_isspace ext = []" using assms(2) by (induction ext) auto
  have "py_strip ext = []" unfolding py_strip_def by (simp only: dw rev.simps dropWhile.simps)
  then have "norm_ext ext = Inl IndexError"
    using assms(1) unfolding norm_ext_def Let_def str_lower_def by simp
  then show ?thesis by (simp add: findFiles_def)
qed

theorem findFiles_blank_ext_witness:
  "findFiles tree_fs tree_ls ''/p'' 0 False '' '' = Some (Inl IndexError)"
  using findFiles_blank_ext[of "'' ''"] by simp

text \<open>
  The recursive listing of the sample tree: files of extension \<^verbatim>\<open>.jpg\<close> (in any
  case) and directories, in the order of \<^verbatim>\<open>os.walk\<close>: a directory's files, then its
  subdirectories, then the walk of its first subdirectory.
\<close>

lemma findFiles_recursive_sample:
  "findFiles tree_fs tree_ls ''/p'' 0 True ''JPG'' =
     Some (Inr [''/p/a.JPG'', ''/p/s'', ''/p/u'', ''/p/s/c.jpg'', ''/p/s/t'', ''/p/s/t/d.jpg''])"
  using tree_ext_matches by (simp add: findFiles_def tree_norm_ext tree_walk walk_entry_def path_join_def)

end
