(* ===== verification/FileOps.thy ===== *)
theory FileOps
  imports FindFiles
begin

text \<open>
  \<^verbatim>\<open>cleanFolder(dirpath)\<close> of \<^verbatim>\<open>src/utility.py\<close>: every entry of the directory is
  removed, a file by \<^verbatim>\<open>os.unlink\<close>, a directory with everything below it by
  \<^verbatim>\<open>shutil.rmtree\<close>, in the order of \<^verbatim>\<open>os.listdir\<close>. The state is the file system,
  passed along and returned with the exception that ends the call, if any. The
  operating system may refuse to remove an entry (\<open>denied\<close>, e.g. a permission error);
  a refused removal is modelled as changing nothing. The handler
  \<^verbatim>\<open>logging.error(ex.message)\<close> reads an attribute that Python 3 exceptions do not
  have, so the handler itself raises \<^verbatim>\<open>AttributeError\<close>, which ends the loop.
\<close>

text \<open>\<open>q\<close> lies strictly below the directory \<open>d\<close>.\<close>

definition below_dir :: "string \<Rightarrow> string \<Rightarrow> bool" where
  "below_dir d q \<longleftrightarrow> take (Suc (length d)) q = d @ ''/''"

text \<open>\<^verbatim>\<open>shutil.rmtree(p)\<close>.\<close>

definition rmtree :: "fsys \<Rightarrow> string \<Rightarrow> fsys" where
  "rmtree fs p = (\<lambda>q. if q = p \<or> below_dir p q then None else fs q)"

fun clean_loop :: "fsys \<Rightarrow> (string \<Rightarrow> bool) \<Rightarrow> string \<Rightarrow> string list \<Rightarrow> fsys \<times> py_exc option" where
  "clean_loop fs denied d [] = (fs, None)"
| "clean_loop fs denied d (n # ns) =
     (let p = path_join d n in
      if os_path_isfile fs p then
        (if denied p then (fs, Some AttributeError) else clean_loop (fs(p := None)) denied d ns)
      else if os_path_isdir fs p then
        (if denied p then (fs, Some AttributeError) else clean_loop (rmtree fs p) denied d ns)
      else clean_loop fs denied d ns)"

definition cleanFolder ::
  "fsys \<Rightarrow> (string \<Rightarrow> string list) \<Rightarrow> (string \<Rightarrow> bool) \<Rightarrow> string \<Rightarrow> fsys \<times> py_exc option" where
  "cleanFolder fs ls denied dirpath =
     (case listdir fs ls dirpath of
        Inl e \<Rightarrow> (fs, Some e)
      | Inr names \<Rightarrow> clean_loop fs denied dirpath names)"

text \<open>One iteration removes the entry and, for a directory, everything below it.\<close>

definition clean_step :: "fsys \<Rightarrow> string \<Rightarrow> fsys" where
  "clean_step fs p = (if os_path_isfile fs p then fs(p := None)
                      else if os_path_isdir fs p then rmtree fs p else fs)"

section \<open>Facts\<close>

lemma path_join_plain:
  "d \<noteq> [] \<Longrightarrow> last d \<noteq> CHR ''/'' \<Longrightarrow> n \<noteq> [] \<Longrightarrow> CHR ''/'' \<notin> set n \<Longrightarrow>
   path_join d n = d @ CHR ''/'' # n"
  by (cases n) (auto simp: path_join_def)

lemma under_child:
  assumes "d \<noteq> []" "last d \<noteq> CHR ''/''" "n \<noteq> []" "CHR ''/'' \<notin> set n"
    and "q = path_join d n \<or> below_dir (path_join d n) q"
  shows "below_dir d q"
proof -
  have j: "path_join d n = d @ CHR ''/'' # n" using assms(1-4) by (rule path_join_plain)
  show ?thesis
  proof (cases "q = path_join d n")
    case False
    then have "take (Suc (Suc (length d + length n))) q = d @ CHR ''/'' # n @ ''/''"
      using assms(5) by (simp add: below_dir_def j)
    then have "take (Suc (length d)) (take (Suc (Suc (length d + length n))) q) = d @ ''/''" by simp
    then show ?thesis by (simp add: below_dir_def min_def)
  qed (simp add: below_dir_def j)
qed

lemma child_not_under_sibling:
  assumes "n \<noteq> []" "CHR ''/'' \<notin> set n" "m \<noteq> []" "CHR ''/'' \<notin> set m"
    and "d \<noteq> []" "last d \<noteq> CHR ''/''"
  shows "\<not> below_dir (path_join d m) (path_join d n)"
proof
  assume "below_dir (path_join d m) (path_join d n)"
  then have "take (Suc (length m)) n = m @ ''/''" using assms by (simp add: path_join_plain below_dir_def)
  then have "CHR ''/'' \<in> set (take (Suc (length m)) n)" by simp
  then show False using assms(2) by (meson in_set_takeD)
qed

lemma clean_loop_Cons:
  "\<not> denied (path_join d n) \<Longrightarrow>
   clean_loop fs denied d (n # ns) = clean_loop (clean_step fs (path_join d n)) denied d ns"
  by (simp add: clean_step_def Let_def)

lemma clean_step_props:
  shows "\<And>q. clean_step fs p q \<noteq> fs q \<Longrightarrow> q = p \<or> below_dir p q"
    and "\<And>q. fs q = None \<Longrightarrow> clean_step fs p q = None"
    and "clean_step fs p p = None"
    and "\<And>q. os_path_isdir fs p \<Longrightarrow> below_dir p q \<Longrightarrow> clean_step fs p q = None"
  by (auto simp: clean_step_def rmtree_def os_path_isfile_def os_path_isdir_def
           split: option.splits fentry.splits if_splits)

lemma clean_loop_ok:
  assumes "d \<noteq> []" "last d \<noteq> CHR ''/''"
    and "\<forall>n \<in> set ns. n \<noteq> [] \<and> CHR ''/'' \<notin> set n \<and> \<not> denied (path_join d n)"
  shows "\<exists>fs'. clean_loop fs denied d ns = (fs', None) \<and> (\<forall>q. \<not> below_dir d q \<longrightarrow> fs' q = fs q) \<and>
           (\<forall>q. fs q = None \<longrightarrow> fs' q = None) \<and>
           (\<forall>n \<in> set ns. fs' (path_join d n) = None \<and>
              (os_path_isdir fs (path_join d n) \<longrightarrow> (\<forall>q. below_dir (path_join d n) q \<longrightarrow> fs' q = None)))"
  using assms(3)
proof (induction ns arbitrary: fs)
  case Nil
  then show ?case by simp
next
  case (Cons n ns)
  define p where "p = path_join d n"
  define fs1 where "fs1 = clean_step fs p"
  have n: "n \<noteq> []" "CHR ''/'' \<notin> set n" "\<not> denied p" using Cons.prems by (simp_all add: p_def)
  obtain fs' where fs': "clean_loop fs1 denied d ns = (fs', None)" "\<forall>q. \<not> below_dir d q \<longrightarrow> fs' q = fs1 q"
    "\<forall>q. fs1 q = None \<longrightarrow> fs' q = None"
    "\<forall>m \<in> set ns. fs' (path_join d m) = None \<and>
        (os_path_isdir fs1 (path_join d m) \<longrightarrow> (\<forall>q. below_dir (path_join d m) q \<longrightarrow> fs' q = None))"
    using Cons.IH[of fs1] Cons.prems by auto
  have run: "clean_loop fs denied d (n # ns) = (fs', None)"
    using fs'(1) clean_loop_Cons[of denied d n fs ns] n(3) by (simp add: fs1_def p_def del: clean_loop.simps)
  have frame: "fs' q = fs q" if "\<not> below_dir d q" for q
  proof -
    have "\<not> (q = p \<or> below_dir p q)" using that under_child[OF assms(1,2) n(1,2)] by (auto simp: p_def)
    then show ?thesis using fs'(2) that clean_step_props(1)[of fs p q] by (auto simp: fs1_def)
  qed
  have mono: "fs' q = None" if "fs q = None" for q
    using that fs'(3) clean_step_props(2) by (simp add: fs1_def)
  have here: "fs' p = None \<and> (os_path_isdir fs p \<longrightarrow> (\<forall>q. below_dir p q \<longrightarrow> fs' q = None))"
    using fs'(3) clean_step_props(3,4) by (simp add: fs1_def)
  have later: "fs' (path_join d m) = None \<and>
        (os_path_isdir fs (path_join d m) \<longrightarrow> (\<forall>q. below_dir (path_join d m) q \<longrightarrow> fs' q = None))"
    if m: "m \<in> set ns" for m
  proof (cases "m = n")
    case True
    then show ?thesis using here by (simp add: p_def)
  next
    case False
    have mm: "m \<noteq> []" "CHR ''/'' \<notin> set m" using Cons.prems m by auto
    have "path_join d m \<noteq> p" using False path_join_inj[OF mm n(1,2)] by (auto simp: p_def)
    moreover have "\<not> below_dir p (path_join d m)"
      using child_not_under_sibling[OF mm n(1,2) assms(1,2)] by (simp add: p_def)
    ultimately have "fs1 (path_join d m) = fs (path_join d m)"
      using clean_step_props(1)[of fs p "path_join d m"] by (auto simp: fs1_def)
    then show ?thesis using fs'(4) m by (simp add: os_path_isdir_def)
  qed
  show ?case using run frame mono here later by (auto simp: p_def)
qed

lemma clean_loop_refused:
  assumes "d \<noteq> []" "last d \<noteq> CHR ''/''" "\<forall>m \<in> set ns. m \<noteq> [] \<and> CHR ''/'' \<notin> set m"
    and "n \<in> set ns" "fs (path_join d n) \<noteq> None" "denied (path_join d n)"
  shows "snd (clean_loop fs denied d ns) = Some AttributeError"
  using assms(3-5)
proof (induction ns arbitrary: fs)
  case (Cons m ns)
  show ?case
  proof (cases "m = n")
    case True
    then show ?thesis using Cons.prems assms(6)
      by (auto simp: Let_def os_path_isfile_def os_path_isdir_def split: option.splits fentry.splits)
  next
    case False
    note mn = this
    have mm: "m \<noteq> []" "CHR ''/'' \<notin> set m" and nn: "n \<noteq> []" "CHR ''/'' \<notin> set n"
      using Cons.prems by auto
    have "path_join d n \<noteq> path_join d m" using mn path_join_inj[OF nn mm] by auto
    moreover have "\<not> below_dir (path_join d m) (path_join d n)"
      using child_not_under_sibling[OF nn mm assms(1,2)] .
    ultimately have keep: "clean_step fs (path_join d m) (path_join d n) = fs (path_join d n)"
      using clean_step_props(1) by blast
    show ?thesis
    proof (cases "denied (path_join d m) \<and> (os_path_isfile fs (path_join d m) \<or> os_path_isdir fs (path_join d m))")
      case True
      then show ?thesis by (auto simp: Let_def)
    next
      case False
      then have eq: "clean_loop fs denied d (m # ns) = clean_loop (clean_step fs (path_join d m)) denied d ns"
        by (auto simp: Let_def clean_step_def)
      have "n \<in> set ns" using Cons.prems(2) mn by auto
      then have "snd (clean_loop (clean_step fs (path_join d m)) denied d ns) = Some AttributeError"
        using Cons.IH[of "clean_step fs (path_join d m)"] Cons.prems(1,3) keep by auto
      then show ?thesis using eq by simp
    qed
  qed
qed simp

section \<open>Properties of cleanFolder\<close>

text \<open>
  C37: when no removal is refused, \<^verbatim>\<open>cleanFolder\<close> returns normally, every listed entry is
  gone, with everything below the listed directories, and nothing outside the folder, nor
  the folder itself, changes.
\<close>

theorem cleanFolder_removes_contents:
  assumes "listing_ok fs ls" "os_path_isdir fs d" "d \<noteq> []" "last d \<noteq> CHR ''/''"
    and "\<forall>n \<in> set (ls d). \<not> denied (path_join d n)"
  shows "\<exists>fs'. cleanFolder fs ls denied d = (fs', None) \<and> (\<forall>q. \<not> below_dir d q \<longrightarrow> fs' q = fs q) \<and>
           (\<forall>n \<in> set (ls d). fs' (path_join d n) = None \<and>
              (os_path_isdir fs (path_join d n) \<longrightarrow> (\<forall>q. below_dir (path_join d n) q \<longrightarrow> fs' q = None)))"
proof -
  have "listdir fs ls d = Inr (ls d)" using assms(2) by (simp add: listdir_def os_path_isdir_def)
  moreover have "\<forall>n \<in> set (ls d). n \<noteq> [] \<and> CHR ''/'' \<notin> set n \<and> \<not> denied (path_join d n)"
    using listing_names(2)[OF assms(1,2)] assms(5) by blast
  ultimately show ?thesis
    using clean_loop_ok[OF assms(3,4), of "ls d" denied fs] by (auto simp: cleanFolder_def)
qed

theorem cleanFolder_removes_contents_witness:
  "\<exists>fs'. cleanFolder tree_fs tree_ls (\<lambda>_. False) ''/p'' = (fs', None) \<and>
         fs' ''/p'' = Some Dir \<and> fs' ''/p/a.JPG'' = None \<and> fs' ''/p/s/t/d.jpg'' = None"
proof -
  have d: "os_path_isdir tree_fs ''/p''" by (simp add: tree_fs_def os_path_isdir_def)
  have s: "''s'' \<in> set (tree_ls ''/p'')" "''a.JPG'' \<in> set (tree_ls ''/p'')" "os_path_isdir tree_fs ''/p/s''"
    by (simp_all add: tree_ls_def tree_fs_def os_path_isdir_def)
  obtain fs' where f: "cleanFolder tree_fs tree_ls (\<lambda>_. False) ''/p'' = (fs', None)"
    "\<forall>q. \<not> below_dir ''/p'' q \<longrightarrow> fs' q = tree_fs q"
    "\<forall>n \<in> set (tree_ls ''/p''). fs' (path_join ''/p'' n) = None \<and>
       (os_path_isdir tree_fs (path_join ''/p'' n) \<longrightarrow> (\<forall>q. below_dir (path_join ''/p'' n) q \<longrightarrow> fs' q = None))"
    using cleanFolder_removes_contents[OF conjunct2[OF tree_listing] d, of "\<lambda>_. False"] by auto
  have j: "path_join ''/p'' ''s'' = ''/p/s''" "path_join ''/p'' ''a.JPG'' = ''/p/a.JPG''"
    by (simp_all add: path_join_def)
  have b: "\<not> below_dir ''/p'' ''/p''" "below_dir ''/p/s'' ''/p/s/t/d.jpg''" by (simp_all add: below_dir_def)
  have "fs' ''/p'' = Some Dir" using f(2) b(1) by (simp add: tree_fs_def)
  moreover have "fs' ''/p/a.JPG'' = None" using f(3) s(2) j(2) by force
  moreover have "fs' ''/p/s/t/d.jpg'' = None" using f(3) s(1,3) j(1) b(2) by force
  ultimately show ?thesis using f(1) by blast
qed

text \<open>
  C38: a single refused removal makes \<^verbatim>\<open>cleanFolder\<close> raise \<^verbatim>\<open>AttributeError\<close>: the
  handler's \<^verbatim>\<open>ex.message\<close> fails on Python 3, so the error is neither logged nor
  contained, and the entries after it are not removed.
\<close>

theorem cleanFolder_refusal_raises:
  assumes "listing_ok fs ls" "os_path_isdir fs d" "d \<noteq> []" "last d \<noteq> CHR ''/''"
    and "n \<in> set (ls d)" "denied (path_join d n)"
  shows "snd (cleanFolder fs ls denied d) = Some AttributeError"
proof -
  have "listdir fs ls d = Inr (ls d)" using assms(2) by (simp add: listdir_def os_path_isdir_def)
  then show ?thesis
    using clean_loop_refused[of d "ls d" n fs denied, OF assms(3,4) _ assms(5) _ assms(6)]
      listing_names(2)[OF assms(1,2)] assms(5)
    by (simp add: cleanFolder_def)
qed

theorem cleanFolder_refusal_raises_witness:
  "snd (cleanFolder tree_fs tree_ls (\<lambda>q. q = ''/p/b.txt'') ''/p'') = Some AttributeError"
proof -
  have d: "os_path_isdir tree_fs ''/p''" by (simp add: tree_fs_def os_path_isdir_def)
  show ?thesis
    using cleanFolder_refusal_raises[OF conjunct2[OF tree_listing] d _ _ _, of "''b.txt''" "\<lambda>q. q = ''/p/b.txt''"]
    by (simp add: tree_ls_def path_join_def)
qed

end
