(* ===== verification/RunCmd.thy ===== *)
theory RunCmd
  imports Prelude
begin

text \<open>
  \<^verbatim>\<open>runCMD(cmd, timeout_sec)\<close> and \<^verbatim>\<open>killProcess\<close> of \<^verbatim>\<open>src/utility.py\<close>: the command
  runs as a child process while a \<^verbatim>\<open>threading.Timer\<close> thread waits for the timeout. Two
  threads and the process act concurrently, so the model is a step relation over their
  joint state, one rule per atomic action, and every interleaving is a run:
  \<^item> the process exits with some code, at any time, unless it was killed;
  \<^item> the timer thread, when its interval elapses and it was not cancelled, commits to run
    \<^verbatim>\<open>killProcess\<close> (\<^verbatim>\<open>Timer.run\<close> tests \<^verbatim>\<open>finished.is_set()\<close> and then calls the
    function), sets \<^verbatim>\<open>timeout["value"] = True\<close>, then calls \<^verbatim>\<open>process.kill()\<close>, which does
    nothing once the process has exited and been reaped (\<^verbatim>\<open>Popen.send_signal\<close> polls first);
  \<^item> the main thread returns from \<^verbatim>\<open>communicate()\<close> once the process has ended, calls
    \<^verbatim>\<open>timer.cancel()\<close>, which stops a timer that has not committed and nothing else, and
    returns \<^verbatim>\<open>(process.returncode, stdout, stderr, timeout["value"])\<close>; a killed process
    has return code \<open>-9\<close>.
  Time is abstracted: the timer may fire at any point before it is cancelled, as it does
  for some duration of the command. The output streams are not modelled.
\<close>

datatype proc_state = Running | Exited int | Killed

datatype timer_state = Armed | Committed | Flagged | Fired | Cancelled

datatype main_state = Communicating | Cancelling | Returning | Finished

record run_state =
  rc_proc :: proc_state
  rc_timer :: timer_state
  rc_flag :: bool
  rc_main :: main_state
  rc_result :: "(int \<times> bool) option"

text \<open>\<^verbatim>\<open>process.returncode\<close>.\<close>

fun returncode :: "proc_state \<Rightarrow> int" where
  "returncode (Exited c) = c"
| "returncode Killed = -9"
| "returncode Running = 0"

text \<open>The state after \<^verbatim>\<open>Popen\<close>, the dictionary \<^verbatim>\<open>timeout\<close> and \<^verbatim>\<open>timer.start()\<close>.\<close>

definition runCMD_init :: run_state where
  "runCMD_init = \<lparr>rc_proc = Running, rc_timer = Armed, rc_flag = False, rc_main = Communicating,
                  rc_result = None\<rparr>"

inductive run_step :: "run_state \<Rightarrow> run_state \<Rightarrow> bool" where
  proc_exit: "rc_proc s = Running \<Longrightarrow> run_step s (s\<lparr>rc_proc := Exited c\<rparr>)"
| timer_commit: "rc_timer s = Armed \<Longrightarrow> run_step s (s\<lparr>rc_timer := Committed\<rparr>)"
| timer_flag: "rc_timer s = Committed \<Longrightarrow> run_step s (s\<lparr>rc_timer := Flagged, rc_flag := True\<rparr>)"
| timer_kill: "rc_timer s = Flagged \<Longrightarrow>
     run_step s (s\<lparr>rc_timer := Fired, rc_proc := (if rc_proc s = Running then Killed else rc_proc s)\<rparr>)"
| communicate: "rc_main s = Communicating \<Longrightarrow> rc_proc s \<noteq> Running \<Longrightarrow>
     run_step s (s\<lparr>rc_main := Cancelling\<rparr>)"
| cancel: "rc_main s = Cancelling \<Longrightarrow>
     run_step s (s\<lparr>rc_main := Returning, rc_timer := (if rc_timer s = Armed then Cancelled else rc_timer s)\<rparr>)"
| return: "rc_main s = Returning \<Longrightarrow>
     run_step s (s\<lparr>rc_main := Finished, rc_result := Some (returncode (rc_proc s), rc_flag s)\<rparr>)"

code_pred run_step .

definition reachable :: "run_state \<Rightarrow> bool" where
  "reachable s \<longleftrightarrow> run_step\<^sup>*\<^sup>* runCMD_init s"

text \<open>A step that is not the process exiting by itself: what the threads do.\<close>

definition thread_step :: "run_state \<Rightarrow> run_state \<Rightarrow> bool" where
  "thread_step s t \<longleftrightarrow> run_step s t \<and> (rc_proc s = Running \<longrightarrow> rc_proc t \<in> {Running, Killed})"

text \<open>A rank of the joint state that every step lowers: every interleaving is finite.\<close>

fun timer_rank :: "timer_state \<Rightarrow> nat" where
  "timer_rank Armed = 3" | "timer_rank Committed = 2" | "timer_rank Flagged = 1"
| "timer_rank Fired = 0" | "timer_rank Cancelled = 0"

fun main_rank :: "main_state \<Rightarrow> nat" where
  "main_rank Communicating = 3" | "main_rank Cancelling = 2" | "main_rank Returning = 1"
| "main_rank Finished = 0"

definition run_rank :: "run_state \<Rightarrow> nat" where
  "run_rank s = (if rc_proc s = Running then 1 else 0) + timer_rank (rc_timer s) + main_rank (rc_main s)"

text \<open>The invariant of the reachable states.\<close>

definition run_inv :: "run_state \<Rightarrow> bool" where
  "run_inv s \<longleftrightarrow>
     (rc_flag s \<longleftrightarrow> rc_timer s = Flagged \<or> rc_timer s = Fired) \<and>
     (rc_proc s = Killed \<longrightarrow> rc_timer s = Fired) \<and>
     (rc_main s \<noteq> Communicating \<longrightarrow> rc_proc s \<noteq> Running) \<and>
     (rc_timer s = Fired \<longrightarrow> rc_proc s \<noteq> Running) \<and>
     (rc_timer s = Cancelled \<longrightarrow> rc_main s \<noteq> Communicating) \<and>
     (rc_main s = Finished \<longleftrightarrow> rc_result s \<noteq> None) \<and>
     (\<forall>c b. rc_result s = Some (c, b) \<longrightarrow>
        c = returncode (rc_proc s) \<and> (b \<longrightarrow> rc_flag s) \<and> (\<not> b \<longrightarrow> rc_proc s \<noteq> Killed))"

section \<open>Facts\<close>

inductive_cases run_stepE: "run_step s s'"

lemma run_inv_init: "run_inv runCMD_init"
  by (simp add: run_inv_def runCMD_init_def)

lemma run_inv_step: "run_step s s' \<Longrightarrow> run_inv s \<Longrightarrow> run_inv s'"
  by (erule run_stepE) (auto simp: run_inv_def)

lemma reachable_inv: "reachable s \<Longrightarrow> run_inv s"
  unfolding reachable_def
  by (induction rule: rtranclp_induct) (auto intro: run_inv_init run_inv_step)

lemma reach_step: "reachable s \<Longrightarrow> run_step s s' \<Longrightarrow> reachable s'"
  by (simp add: reachable_def)

lemma reachable_init: "reachable runCMD_init"
  by (simp add: reachable_def)

lemma run_rank_step: "run_step s s' \<Longrightarrow> run_rank s' < run_rank s"
  by (erule run_stepE) (auto simp: run_rank_def)

inductive_simps run_step_iff: "run_step s s'"

lemma reach_chain: "run_step s s' \<Longrightarrow> run_step\<^sup>*\<^sup>* s' t \<Longrightarrow> run_step\<^sup>*\<^sup>* s t"
  by (rule converse_rtranclp_into_rtranclp)

lemma relpow_rank: "(run_step ^^ n) s t \<Longrightarrow> run_rank t + n \<le> run_rank s"
proof (induction n arbitrary: t)
  case (Suc n)
  then obtain u where "(run_step ^^ n) s u" "run_step u t" by auto
  with Suc.IH[of u] run_rank_step[of u t] show ?case by simp
qed simp

text \<open>From every state of the invariant the main thread can finish, one state at a time.\<close>

lemma finish_from_returning:
  "rc_main s = Returning \<Longrightarrow> \<exists>t. run_step\<^sup>*\<^sup>* s t \<and> rc_main t = Finished"
  using return[of s] by (intro exI[of _ "s\<lparr>rc_main := Finished, rc_result := Some (returncode (rc_proc s), rc_flag s)\<rparr>"]) auto

lemma finish_from_cancelling:
  "rc_main s = Cancelling \<Longrightarrow> \<exists>t. run_step\<^sup>*\<^sup>* s t \<and> rc_main t = Finished"
  using cancel[of s] finish_from_returning[of "s\<lparr>rc_main := Returning, rc_timer := (if rc_timer s = Armed then Cancelled else rc_timer s)\<rparr>"]
  by (auto intro: reach_chain)

lemma finish_from_communicating:
  "rc_main s = Communicating \<Longrightarrow> rc_proc s \<noteq> Running \<Longrightarrow> \<exists>t. run_step\<^sup>*\<^sup>* s t \<and> rc_main t = Finished"
  using communicate[of s] finish_from_cancelling[of "s\<lparr>rc_main := Cancelling\<rparr>"]
  by (auto intro: reach_chain)

lemma finish_from:
  "\<exists>t. run_step\<^sup>*\<^sup>* s t \<and> rc_main t = Finished"
proof (cases "rc_main s")
  case Communicating
  show ?thesis
  proof (cases "rc_proc s = Running")
    case True
    then show ?thesis
      using proc_exit[of s 0] finish_from_communicating[of "s\<lparr>rc_proc := Exited 0\<rparr>"] Communicating
      by (auto intro: reach_chain)
  qed (use Communicating finish_from_communicating in blast)
qed (auto intro: finish_from_cancelling finish_from_returning)

section \<open>Sample runs\<close>

text \<open>The command exits with code 3 before the timeout.\<close>

lemma run_normal:
  "reachable \<lparr>rc_proc = Exited 3, rc_timer = Cancelled, rc_flag = False, rc_main = Finished,
              rc_result = Some (3, False)\<rparr>"
proof -
  have "run_step runCMD_init \<lparr>rc_proc = Exited 3, rc_timer = Armed, rc_flag = False, rc_main = Communicating, rc_result = None\<rparr>"
    "run_step \<lparr>rc_proc = Exited 3, rc_timer = Armed, rc_flag = False, rc_main = Communicating, rc_result = None\<rparr>
              \<lparr>rc_proc = Exited 3, rc_timer = Armed, rc_flag = False, rc_main = Cancelling, rc_result = None\<rparr>"
    "run_step \<lparr>rc_proc = Exited 3, rc_timer = Armed, rc_flag = False, rc_main = Cancelling, rc_result = None\<rparr>
              \<lparr>rc_proc = Exited 3, rc_timer = Cancelled, rc_flag = False, rc_main = Returning, rc_result = None\<rparr>"
    "run_step \<lparr>rc_proc = Exited 3, rc_timer = Cancelled, rc_flag = False, rc_main = Returning, rc_result = None\<rparr>
              \<lparr>rc_proc = Exited 3, rc_timer = Cancelled, rc_flag = False, rc_main = Finished, rc_result = Some (3, False)\<rparr>"
    by (simp_all add: run_step_iff runCMD_init_def)
  then show ?thesis unfolding reachable_def by (meson reach_chain rtranclp.rtrancl_refl)
qed

text \<open>The timer fires while the command runs and kills it.\<close>

lemma run_killed:
  "reachable \<lparr>rc_proc = Killed, rc_timer = Fired, rc_flag = True, rc_main = Finished,
              rc_result = Some (-9, True)\<rparr>"
proof -
  have "run_step runCMD_init \<lparr>rc_proc = Running, rc_timer = Committed, rc_flag = False, rc_main = Communicating, rc_result = None\<rparr>"
    "run_step \<lparr>rc_proc = Running, rc_timer = Committed, rc_flag = False, rc_main = Communicating, rc_result = None\<rparr>
              \<lparr>rc_proc = Running, rc_timer = Flagged, rc_flag = True, rc_main = Communicating, rc_result = None\<rparr>"
    "run_step \<lparr>rc_proc = Running, rc_timer = Flagged, rc_flag = True, rc_main = Communicating, rc_result = None\<rparr>
              \<lparr>rc_proc = Killed, rc_timer = Fired, rc_flag = True, rc_main = Communicating, rc_result = None\<rparr>"
    "run_step \<lparr>rc_proc = Killed, rc_timer = Fired, rc_flag = True, rc_main = Communicating, rc_result = None\<rparr>
              \<lparr>rc_proc = Killed, rc_timer = Fired, rc_flag = True, rc_main = Cancelling, rc_result = None\<rparr>"
    "run_step \<lparr>rc_proc = Killed, rc_timer = Fired, rc_flag = True, rc_main = Cancelling, rc_result = None\<rparr>
              \<lparr>rc_proc = Killed, rc_timer = Fired, rc_flag = True, rc_main = Returning, rc_result = None\<rparr>"
    "run_step \<lparr>rc_proc = Killed, rc_timer = Fired, rc_flag = True, rc_main = Returning, rc_result = None\<rparr>
              \<lparr>rc_proc = Killed, rc_timer = Fired, rc_flag = True, rc_main = Finished, rc_result = Some (-9, True)\<rparr>"
    by (simp_all add: run_step_iff runCMD_init_def)
  then show ?thesis unfolding reachable_def by (meson reach_chain rtranclp.rtrancl_refl)
qed

section \<open>Properties of runCMD\<close>

text \<open>C32: whenever the process has been killed, the timeout flag is set.\<close>

theorem runCMD_kill_sets_flag:
  "reachable s \<Longrightarrow> rc_proc s = Killed \<Longrightarrow> rc_flag s"
  by (drule reachable_inv) (simp add: run_inv_def)

theorem runCMD_kill_sets_flag_witness:
  "rc_flag \<lparr>rc_proc = Killed, rc_timer = Fired, rc_flag = True, rc_main = Finished, rc_result = Some (-9, True)\<rparr>"
  using runCMD_kill_sets_flag[OF run_killed] by simp

text \<open>
  C33: a result that reports no timeout carries the exit code of a process that ended by
  itself.
\<close>

theorem runCMD_untimed_result:
  "reachable s \<Longrightarrow> rc_result s = Some (c, False) \<Longrightarrow> rc_proc s = Exited c"
proof -
  assume r: "reachable s" and res: "rc_result s = Some (c, False)"
  have i: "run_inv s" using r by (rule reachable_inv)
  then have "c = returncode (rc_proc s)" "rc_proc s \<noteq> Killed" using res by (auto simp: run_inv_def)
  moreover have "rc_proc s \<noteq> Running" using i res by (auto simp: run_inv_def)
  ultimately show ?thesis by (cases "rc_proc s") auto
qed

theorem runCMD_untimed_result_witness:
  "rc_proc \<lparr>rc_proc = Exited 3, rc_timer = Cancelled, rc_flag = False, rc_main = Finished,
            rc_result = Some (3, False)\<rparr> = Exited 3"
  using runCMD_untimed_result[OF run_normal] by simp

text \<open>Every interleaving of the process and the two threads has at most seven steps.\<close>

lemma runCMD_runs_bounded:
  "(run_step ^^ n) runCMD_init s \<Longrightarrow> n \<le> 7"
  using relpow_rank[of n runCMD_init s] by (simp add: run_rank_def runCMD_init_def)

text \<open>
  C35: the timeout ends a command that does not exit by itself. From every reachable
  state in which the command is still running, the timer thread and the main thread
  alone, without the process exiting by itself, can bring \<^verbatim>\<open>runCMD\<close> to its
  \<^verbatim>\<open>return\<close>, and the result is the killed process's code \<open>-9\<close> with
  \<^verbatim>\<open>timeout = True\<close>.
\<close>

theorem runCMD_timeout_ends_run:
  assumes "reachable s" "rc_proc s = Running"
  shows "\<exists>t. thread_step\<^sup>*\<^sup>* s t \<and> rc_main t = Finished \<and> rc_result t = Some (-9, True)"
proof -
  have i: "run_inv s" using assms(1) by (rule reachable_inv)
  then have m: "rc_main s = Communicating" using assms(2) by (auto simp: run_inv_def)
  have tm: "rc_timer s \<in> {Armed, Committed, Flagged}" "rc_flag s \<longleftrightarrow> rc_timer s = Flagged"
    using i assms(2) m by (cases "rc_timer s"; auto simp: run_inv_def)+
  define s1 where "s1 = (if rc_timer s = Armed then s\<lparr>rc_timer := Committed\<rparr> else s)"
  have st1: "thread_step\<^sup>*\<^sup>* s s1"
    using timer_commit[of s] assms(2) by (auto simp: s1_def thread_step_def)
  define s2 where "s2 = (if rc_timer s1 = Committed then s1\<lparr>rc_timer := Flagged, rc_flag := True\<rparr> else s1)"
  have st2: "thread_step\<^sup>*\<^sup>* s1 s2"
    using timer_flag[of s1] assms(2) by (auto simp: s2_def s1_def thread_step_def)
  have f2: "rc_timer s2 = Flagged" "rc_flag s2" "rc_proc s2 = Running" "rc_main s2 = Communicating"
    using tm assms(2) m by (auto simp: s2_def s1_def)
  define s3 where "s3 = s2\<lparr>rc_timer := Fired, rc_proc := (if rc_proc s2 = Running then Killed else rc_proc s2)\<rparr>"
  define s4 where "s4 = s3\<lparr>rc_main := Cancelling\<rparr>"
  define s5 where "s5 = s4\<lparr>rc_main := Returning, rc_timer := (if rc_timer s4 = Armed then Cancelled else rc_timer s4)\<rparr>"
  define s6 where "s6 = s5\<lparr>rc_main := Finished, rc_result := Some (returncode (rc_proc s5), rc_flag s5)\<rparr>"
  have f3: "rc_proc s3 = Killed" "rc_main s3 = Communicating" "rc_flag s3"
    using f2 by (simp_all add: s3_def)
  have "thread_step s2 s3"
    using timer_kill[of s2] f2 unfolding s3_def thread_step_def by simp
  moreover have "thread_step s3 s4"
    using communicate[of s3] f3 unfolding s4_def thread_step_def by simp
  moreover have "thread_step s4 s5"
    using cancel[of s4] f3 unfolding s5_def thread_step_def by (simp add: s4_def)
  moreover have "thread_step s5 s6"
    using return[of s5] f3 unfolding s6_def thread_step_def by (simp add: s4_def s5_def)
  ultimately have "thread_step\<^sup>*\<^sup>* s2 s6" by (meson converse_rtranclp_into_rtranclp rtranclp.rtrancl_refl)
  then have "thread_step\<^sup>*\<^sup>* s s6" using st1 st2 by (meson rtranclp_trans)
  moreover have "rc_main s6 = Finished" "rc_result s6 = Some (-9, True)"
    using f3 by (simp_all add: s6_def s5_def s4_def)
  ultimately show ?thesis by blast
qed

theorem runCMD_timeout_ends_run_witness:
  "\<exists>t. thread_step\<^sup>*\<^sup>* runCMD_init t \<and> rc_main t = Finished \<and> rc_result t = Some (-9, True)"
  using runCMD_timeout_ends_run[OF reachable_init] by (simp add: runCMD_init_def)

text \<open>
  C36: the timer can fire after the command has exited by itself and before
  \<^verbatim>\<open>timer.cancel()\<close> takes effect: \<^verbatim>\<open>runCMD\<close> then returns the command's own exit code 0
  together with \<^verbatim>\<open>timeout = True\<close>, reporting a timeout that did not cut the command short.
\<close>

theorem runCMD_spurious_timeout:
  "reachable \<lparr>rc_proc = Exited 0, rc_timer = Flagged, rc_flag = True, rc_main = Finished,
              rc_result = Some (0, True)\<rparr>"
proof -
  have "run_step runCMD_init \<lparr>rc_proc = Exited 0, rc_timer = Armed, rc_flag = False, rc_main = Communicating, rc_result = None\<rparr>"
    "run_step \<lparr>rc_proc = Exited 0, rc_timer = Armed, rc_flag = False, rc_main = Communicating, rc_result = None\<rparr>
              \<lparr>rc_proc = Exited 0, rc_timer = Armed, rc_flag = False, rc_main = Cancelling, rc_result = None\<rparr>"
    "run_step \<lparr>rc_proc = Exited 0, rc_timer = Armed, rc_flag = False, rc_main = Cancelling, rc_result = None\<rparr>
              \<lparr>rc_proc = Exited 0, rc_timer = Committed, rc_flag = False, rc_main = Cancelling, rc_result = None\<rparr>"
    "run_step \<lparr>rc_proc = Exited 0, rc_timer = Committed, rc_flag = False, rc_main = Cancelling, rc_result = None\<rparr>
              \<lparr>rc_proc = Exited 0, rc_timer = Committed, rc_flag = False, rc_main = Returning, rc_result = None\<rparr>"
    "run_step \<lparr>rc_proc = Exited 0, rc_timer = Committed, rc_flag = False, rc_main = Returning, rc_result = None\<rparr>
              \<lparr>rc_proc = Exited 0, rc_timer = Flagged, rc_flag = True, rc_main = Returning, rc_result = None\<rparr>"
    "run_step \<lparr>rc_proc = Exited 0, rc_timer = Flagged, rc_flag = True, rc_main = Returning, rc_result = None\<rparr>
              \<lparr>rc_proc = Exited 0, rc_timer = Flagged, rc_flag = True, rc_main = Finished, rc_result = Some (0, True)\<rparr>"
    by (simp_all add: run_step_iff runCMD_init_def)
  then show ?thesis unfolding reachable_def by (meson reach_chain rtranclp.rtrancl_refl)
qed

end
