(* ===== verification/Shutil.thy ===== *)
theory Shutil
  imports FileOps "HOL-Library.Sublist"
begin

text \<open>
  The library functions \<^verbatim>\<open>copy\<close> of \<^verbatim>\<open>src/utility.py\<close> calls, from CPython 3.12:
  \<^verbatim>\<open>os.path.split\<close>, \<^verbatim>\<open>dirname\<close> and \<^verbatim>\<open>basename\<close> (\<^verbatim>\<open>posixpath.py\<close>),
  \<^verbatim>\<open>os.mkdir\<close>, \<^verbatim>\<open>os.makedirs\<close> (\<^verbatim>\<open>os.py\<close>), \<^verbatim>\<open>open\<close> for writing, and
  \<^verbatim>\<open>shutil.copyfile\<close>, \<^verbatim>\<open>shutil.copy\<close> and \<^verbatim>\<open>shutil.copytree\<close>
  (\<^verbatim>\<open>shutil.py\<close>), over the file system of \<open>PathOps\<close>. The root directory always
  exists. A directory listing is a function \<open>lsf\<close> of the current file system, since
  \<^verbatim>\<open>copytree\<close> lists directories while it writes. \<^verbatim>\<open>copytree\<close> recurses
  once per directory level, so it takes fuel \<open>k\<close>, and \<open>None\<close> means the fuel ran out.
  \<open>copytree_correct\<close> shows that fuel above the depth of the source tree suffices,
  and that the copy is then exact (\<open>graft\<close>). File metadata (\<^verbatim>\<open>copystat\<close>,
  \<^verbatim>\<open>copymode\<close>) and symbolic links are not modelled.
\<close>

section \<open>os.path, os.mkdir, os.makedirs, shutil\<close>

type_synonym lsfun = "fsys \<Rightarrow> string \<Rightarrow> string list"

definition is_root :: "string \<Rightarrow> bool" where
  "is_root p \<longleftrightarrow> p \<noteq> [] \<and> list_all (\<lambda>c. c = CHR ''/'') p"

definition os_path_split :: "string \<Rightarrow> string \<times> string" where
  "os_path_split p =
     (let i = nat (rfind CHR ''/'' p + 1); head = take i p; tail = drop i p in
      (if head \<noteq> [] \<and> \<not> is_root head then rev (dropWhile (\<lambda>c. c = CHR ''/'') (rev head)) else head,
       tail))"

definition os_path_dirname :: "string \<Rightarrow> string" where
  "os_path_dirname p = fst (os_path_split p)"

definition os_path_basename :: "string \<Rightarrow> string" where
  "os_path_basename p = snd (os_path_split p)"

definition parent_error :: "fsys \<Rightarrow> string \<Rightarrow> py_exc option" where
  "parent_error fs p =
     (let h = os_path_dirname p in
      if h = [] \<or> is_root h then None
      else case fs h of
             None \<Rightarrow> Some FileNotFoundError
           | Some Dir \<Rightarrow> None
           | Some (File c) \<Rightarrow> Some NotADirectoryError)"

definition mkdir :: "fsys \<Rightarrow> string \<Rightarrow> fsys \<times> py_exc option" where
  "mkdir fs p =
     (if p = [] then (fs, Some FileNotFoundError)
      else if is_root p \<or> fs p \<noteq> None then (fs, Some FileExistsError)
      else case parent_error fs p of
             None \<Rightarrow> (fs(p \<mapsto> Dir), None)
           | Some e \<Rightarrow> (fs, Some e))"

definition makedirs_split :: "string \<Rightarrow> string \<times> string" where
  "makedirs_split name =
     (if snd (os_path_split name) = [] then os_path_split (fst (os_path_split name))
      else os_path_split name)"

lemma os_path_split_length:
  "length (fst (os_path_split p)) + length (snd (os_path_split p)) \<le> length p"
proof -
  define i where "i = nat (rfind CHR ''/'' p + 1)"
  have h: "length (fst (os_path_split p)) \<le> length (take i p)"
    using length_dropWhile_le[of _ "rev (take i p)"] by (simp add: os_path_split_def Let_def i_def[symmetric])
  have "snd (os_path_split p) = drop i p" by (simp add: os_path_split_def Let_def i_def[symmetric])
  with h show ?thesis by simp arith
qed

lemma makedirs_split_shorter:
  assumes "snd (makedirs_split name) \<noteq> []"
  shows "length (fst (makedirs_split name)) < length name"
proof (cases "snd (os_path_split name) = []")
  case True
  then have m: "makedirs_split name = os_path_split (fst (os_path_split name))"
    by (simp add: makedirs_split_def)
  have "0 < length (snd (os_path_split (fst (os_path_split name))))" using assms m by simp
  then show ?thesis
    unfolding m using os_path_split_length[of "fst (os_path_split name)"] os_path_split_length[of name]
    by linarith
next
  case False
  then have m: "makedirs_split name = os_path_split name" by (simp add: makedirs_split_def)
  have "0 < length (snd (os_path_split name))" using False by simp
  then show ?thesis unfolding m using os_path_split_length[of name] by linarith
qed

function makedirs :: "fsys \<Rightarrow> string \<Rightarrow> fsys \<times> py_exc option" where
  "makedirs fs name =
     (let head = fst (makedirs_split name); tail = snd (makedirs_split name) in
      if head \<noteq> [] \<and> tail \<noteq> [] \<and> \<not> os_path_exists fs head then
        (case makedirs fs head of
           (fs1, r) \<Rightarrow>
             if r = None \<or> r = Some FileExistsError then
               (if tail = ''.'' then (fs1, None) else mkdir fs1 name)
             else (fs1, r))
      else mkdir fs name)"
  by pat_completeness auto
termination
  by (relation "measure (\<lambda>(fs, name). length name)") (auto intro: makedirs_split_shorter)

declare makedirs.simps [simp del]

definition open_write :: "fsys \<Rightarrow> string \<Rightarrow> string \<Rightarrow> fsys py" where
  "open_write fs p c =
     (if p = [] then Inl FileNotFoundError
      else if is_root p \<or> fs p = Some Dir then Inl IsADirectoryError
      else case parent_error fs p of
             None \<Rightarrow> Inr (fs(p \<mapsto> File c))
           | Some e \<Rightarrow> Inl e)"

definition copyfile :: "fsys \<Rightarrow> string \<Rightarrow> string \<Rightarrow> fsys \<times> py_exc option" where
  "copyfile fs src dst =
     (if fs src \<noteq> None \<and> fs dst \<noteq> None \<and> src = dst then (fs, Some SameFileError)
      else case open_read fs src of
             Inl e \<Rightarrow> (fs, Some e)
           | Inr c \<Rightarrow> (case open_write fs dst c of
                        Inl e \<Rightarrow> (fs, Some e)
                      | Inr fs' \<Rightarrow> (fs', None)))"

definition shutil_copy :: "fsys \<Rightarrow> string \<Rightarrow> string \<Rightarrow> fsys \<times> py_exc option" where
  "shutil_copy fs src dst =
     copyfile fs src (if os_path_isdir fs dst then path_join dst (os_path_basename src) else dst)"

fun copytree :: "nat \<Rightarrow> lsfun \<Rightarrow> fsys \<Rightarrow> string \<Rightarrow> string \<Rightarrow> (fsys \<times> py_exc option) option"
and copytree_loop ::
  "nat \<Rightarrow> lsfun \<Rightarrow> fsys \<Rightarrow> string \<Rightarrow> string \<Rightarrow> (string \<times> bool) list \<Rightarrow> bool \<Rightarrow> (fsys \<times> bool) option"
where
  "copytree 0 lsf fs src dst = None"
| "copytree (Suc k) lsf fs src dst =
     (case listdir fs (lsf fs) src of
        Inl e \<Rightarrow> Some (fs, Some e)
      | Inr names \<Rightarrow>
          (let entries = map (\<lambda>n. (n, os_path_isdir fs (path_join src n))) names in
           case makedirs fs dst of
             (fs1, Some e) \<Rightarrow> Some (fs1, Some e)
           | (fs1, None) \<Rightarrow>
               map_option (\<lambda>(fs2, err). (fs2, if err then Some ShutilError else None))
                 (copytree_loop k lsf fs1 src dst entries False)))"
| "copytree_loop k lsf fs src dst [] err = Some (fs, err)"
| "copytree_loop k lsf fs src dst ((n, is_dir) # es) err =
     (let srcname = path_join src n; dstname = path_join dst n in
      if is_dir then
        Option.bind (copytree k lsf fs srcname dstname)
          (\<lambda>(fs1, r). copytree_loop k lsf fs1 src dst es (err \<or> r \<noteq> None))
      else (case shutil_copy fs srcname dstname of
              (fs1, r) \<Rightarrow> copytree_loop k lsf fs1 src dst es (err \<or> r \<noteq> None)))"


definition path_ok :: "string \<Rightarrow> bool" where
  "path_ok p \<longleftrightarrow> p \<noteq> [] \<and> last p \<noteq> CHR ''/''"

definition name_ok :: "string \<Rightarrow> bool" where
  "name_ok n \<longleftrightarrow> n \<noteq> [] \<and> CHR ''/'' \<notin> set n \<and> n \<noteq> ''.'' \<and> n \<noteq> ''..''"

definition in_tree :: "string \<Rightarrow> string \<Rightarrow> bool" where
  "in_tree d q \<longleftrightarrow> prefix (d @ ''/'') (q @ ''/'')"

section \<open>What a copied tree is\<close>

text \<open>
  \<open>graft fs0 src dst acc\<close> is \<open>acc\<close> with the tree at \<open>dst\<close> replaced by the tree of
  \<open>fs0\<close> at \<open>src\<close>, entry for entry at the same relative paths.
\<close>

definition graft :: "fsys \<Rightarrow> string \<Rightarrow> string \<Rightarrow> fsys \<Rightarrow> fsys" where
  "graft fs0 src dst acc = (\<lambda>q. if in_tree dst q then fs0 (src @ drop (length dst) q) else acc q)"

definition graft_all :: "fsys \<Rightarrow> string \<Rightarrow> string \<Rightarrow> string list \<Rightarrow> fsys \<Rightarrow> fsys" where
  "graft_all fs0 src dst ns acc = fold (\<lambda>n a. graft fs0 (path_join src n) (path_join dst n) a) ns acc"

text \<open>
  The tree at \<open>src\<close> is a well-formed directory tree whose listings are those of the
  file system: each listing of a directory of the tree names distinct entries that exist,
  and each entry below \<open>src\<close> is a named entry of a listed directory.
\<close>

definition tree_ok :: "fsys \<Rightarrow> lsfun \<Rightarrow> string \<Rightarrow> bool" where
  "tree_ok fs lsf src \<longleftrightarrow> path_ok src \<and>
     (\<forall>d. in_tree src d \<longrightarrow> os_path_isdir fs d \<longrightarrow>
          distinct (lsf fs d) \<and> (\<forall>n \<in> set (lsf fs d). name_ok n \<and> fs (path_join d n) \<noteq> None)) \<and>
     (\<forall>q. in_tree src q \<longrightarrow> q \<noteq> src \<longrightarrow> fs q \<noteq> None \<longrightarrow>
          path_ok (os_path_dirname q) \<and> name_ok (os_path_basename q) \<and>
          q = path_join (os_path_dirname q) (os_path_basename q) \<and>
          os_path_isdir fs (os_path_dirname q) \<and> os_path_basename q \<in> set (lsf fs (os_path_dirname q)))"

text \<open>A directory's listing depends only on what lies in it.\<close>

definition listing_local :: "lsfun \<Rightarrow> bool" where
  "listing_local lsf \<longleftrightarrow> (\<forall>fs fs' d. (\<forall>q. in_tree d q \<longrightarrow> fs q = fs' q) \<longrightarrow> lsf fs d = lsf fs' d)"

text \<open>
  The contract of \<^verbatim>\<open>shutil.copytree(src, dst)\<close> with \<open>k\<close> levels of fuel: on a
  well-formed source tree whose depth the fuel covers, and a fresh destination whose parent is
  a directory, outside the source, it returns normally and grafts the source at the
  destination, changing nothing else.
\<close>

definition copytree_spec :: "nat \<Rightarrow> lsfun \<Rightarrow> bool" where
  "copytree_spec k lsf \<longleftrightarrow>
     (\<forall>fs src dst. tree_ok fs lsf src \<longrightarrow> os_path_isdir fs src \<longrightarrow> path_ok dst \<longrightarrow>
        os_path_basename dst \<noteq> ''.'' \<longrightarrow> parent_error fs dst = None \<longrightarrow>
        (\<forall>q. in_tree dst q \<longrightarrow> fs q = None) \<longrightarrow> \<not> in_tree src dst \<longrightarrow>
        (\<forall>q. in_tree src q \<longrightarrow> fs q \<noteq> None \<longrightarrow> length q < length src + k) \<longrightarrow>
        copytree k lsf fs src dst = Some (graft fs src dst fs, None))"

section \<open>Paths\<close>

lemma rfind_append_notin: "c \<notin> set ys \<Longrightarrow> rfind c (xs @ ys) = rfind c xs"
proof -
  assume c: "c \<notin> set ys"
  have "filter (\<lambda>i. (xs @ ys) ! i = c) [length xs..<length xs + length ys] = []"
    using c by (auto simp: filter_empty_conv nth_append)
  moreover have "filter (\<lambda>i. (xs @ ys) ! i = c) [0..<length xs] = filter (\<lambda>i. xs ! i = c) [0..<length xs]"
    by (rule filter_cong) (auto simp: nth_append)
  ultimately show ?thesis
    by (simp add: rfind_def Let_def upt_add_eq_append[of 0 "length xs" "length ys", simplified])
qed

lemma rfind_snoc: "rfind c (xs @ [c]) = int (length xs)"
proof -
  have "filter (\<lambda>i. (xs @ [c]) ! i = c) [0..<Suc (length xs)] =
        filter (\<lambda>i. (xs @ [c]) ! i = c) [0..<length xs] @ [length xs]" by simp
  then show ?thesis by (simp add: rfind_def Let_def)
qed

lemma split_decomp:
  assumes "CHR ''/'' \<notin> set b" "a = [] \<or> last a = CHR ''/''"
  shows "os_path_split (a @ b) =
           (if a \<noteq> [] \<and> \<not> is_root a then rev (dropWhile (\<lambda>c. c = CHR ''/'') (rev a)) else a, b)"
proof (cases "a = []")
  case True
  then show ?thesis using assms(1) rfind_append_notin[of "CHR ''/''" b "[]"]
    by (simp add: os_path_split_def rfind_def)
next
  case False
  then obtain a' where a: "a = a' @ [CHR ''/'']" using assms(2) by (metis append_butlast_last_id)
  have "rfind CHR ''/'' (a @ b) = int (length a')"
    using assms(1) rfind_append_notin[of "CHR ''/''" b a] rfind_snoc[of "CHR ''/''" a'] a by simp
  then have "nat (rfind CHR ''/'' (a @ b) + 1) = length a" using a by simp
  then show ?thesis by (simp add: os_path_split_def Let_def)
qed

lemma path_join_ok:
  assumes "path_ok d" "name_ok n"
  shows "path_join d n = d @ CHR ''/'' # n" and "path_ok (path_join d n)"
proof -
  show j: "path_join d n = d @ CHR ''/'' # n"
    using assms path_join_plain[of d n] by (simp add: path_ok_def name_ok_def)
  have "last (path_join d n) = last n" using assms(2) by (simp add: j name_ok_def)
  moreover have "last n \<noteq> CHR ''/''" using assms(2) last_in_set[of n] unfolding name_ok_def by metis
  ultimately show "path_ok (path_join d n)" by (simp add: j path_ok_def)
qed

lemma path_ok_not_root: "path_ok p \<Longrightarrow> \<not> is_root p"
  by (cases p rule: rev_cases) (auto simp: path_ok_def is_root_def)

lemma split_join:
  assumes "path_ok d" "name_ok n"
  shows "os_path_split (path_join d n) = (d, n)"
proof -
  have "rev (dropWhile (\<lambda>c. c = CHR ''/'') (rev (d @ ''/''))) = d"
    using assms(1) by (cases d rule: rev_cases) (auto simp: path_ok_def)
  moreover have "\<not> is_root (d @ ''/'')"
    using assms(1) by (cases d rule: rev_cases) (auto simp: path_ok_def is_root_def)
  ultimately show ?thesis
    using split_decomp[of n "d @ ''/''"] assms path_join_ok(1)[OF assms] by (simp add: name_ok_def)
qed

lemma split_path_ok_tail: "path_ok p \<Longrightarrow> snd (os_path_split p) \<noteq> []"
proof -
  assume p: "path_ok p"
  define b where "b = rev (takeWhile (\<lambda>c. c \<noteq> CHR ''/'') (rev p))"
  define a where "a = rev (dropWhile (\<lambda>c. c \<noteq> CHR ''/'') (rev p))"
  have ab: "p = a @ b" by (simp add: a_def b_def flip: rev_append)
  have "CHR ''/'' \<notin> set b" by (auto simp: b_def dest: set_takeWhileD)
  moreover have "a = [] \<or> last a = CHR ''/''"
    using hd_dropWhile[of "\<lambda>c. c \<noteq> CHR ''/''" "rev p"] by (auto simp: a_def last_rev)
  moreover have "b \<noteq> []" using p by (cases p rule: rev_cases) (auto simp: b_def path_ok_def)
  ultimately show ?thesis using split_decomp[of b a] ab by simp
qed

lemma root_split: "is_root p \<Longrightarrow> os_path_split p = (p, [])"
  using split_decomp[of "[]" p] by (cases p rule: rev_cases) (auto simp: is_root_def)

lemma makedirs_root: "is_root p \<Longrightarrow> makedirs fs p = (fs, Some FileExistsError)"
  by (subst makedirs.simps) (simp add: makedirs_split_def root_split mkdir_def is_root_def)

lemma makedirs_mkdir:
  assumes "path_ok p" "os_path_basename p \<noteq> ''.''" "fs p = None" "parent_error fs p = None"
  shows "makedirs fs p = (fs(p \<mapsto> Dir), None)"
proof -
  have sp: "makedirs_split p = os_path_split p" using split_path_ok_tail[OF assms(1)] by (simp add: makedirs_split_def)
  have mk: "mkdir fs p = (fs(p \<mapsto> Dir), None)"
    using assms path_ok_not_root[OF assms(1)] by (simp add: mkdir_def path_ok_def)
  show ?thesis
  proof (cases "fst (os_path_split p) \<noteq> [] \<and> \<not> os_path_exists fs (fst (os_path_split p))")
    case True
    then have "is_root (fst (os_path_split p))"
      using assms(4) by (auto simp: parent_error_def os_path_dirname_def os_path_exists_def Let_def split: if_splits)
    then show ?thesis using True sp mk makedirs_root[of _ fs] assms(2)[unfolded os_path_basename_def]
      by (subst makedirs.simps) (simp add: Let_def)
  next
    case False
    then show ?thesis using sp mk by (subst makedirs.simps) (auto simp: Let_def)
  qed
qed



section \<open>Trees of paths\<close>

lemma slash_prefix: "CHR ''/'' \<notin> set m \<Longrightarrow> prefix (y @ ''/'') (m @ ''/'') \<Longrightarrow> y = m"
proof (induction y arbitrary: m)
  case Nil
  then show ?case by (cases m) auto
next
  case (Cons c y)
  from Cons.prems obtain x xs where m: "m = x # xs" by (cases m) auto
  then have "prefix (y @ ''/'') (xs @ ''/'')" "c = x" "CHR ''/'' \<notin> set xs" using Cons.prems by auto
  then show ?case using Cons.IH[of xs] m by simp
qed

lemma in_tree_prefix: "in_tree d q \<Longrightarrow> prefix d q"
proof -
  assume "in_tree d q"
  then obtain z where z: "q @ ''/'' = d @ ''/'' @ z" by (auto simp: in_tree_def prefix_def)
  show ?thesis
  proof (cases z rule: rev_cases)
    case Nil
    then show ?thesis using z by simp
  next
    case (snoc z' c)
    then have "q = d @ ''/'' @ z'" using z by (metis append.assoc butlast_snoc)
    then show ?thesis by (simp add: prefixI)
  qed
qed

lemma in_tree_drop: "in_tree d q \<Longrightarrow> q = d @ drop (length d) q"
  using in_tree_prefix by (metis prefix_def append_eq_conv_conj)


lemma in_tree_iff: "in_tree d q \<longleftrightarrow> q = d \<or> below_dir d q"
proof
  assume t: "in_tree d q"
  then obtain z where z: "q @ ''/'' = d @ ''/'' @ z" by (auto simp: in_tree_def prefix_def)
  show "q = d \<or> below_dir d q"
  proof (cases z rule: rev_cases)
    case Nil
    then show ?thesis using z by simp
  next
    case (snoc z' c)
    then have "q = d @ ''/'' @ z'" using z by (metis append.assoc butlast_snoc)
    then show ?thesis by (simp add: below_dir_def)
  qed
next
  assume "q = d \<or> below_dir d q"
  then show "in_tree d q"
  proof
    assume "below_dir d q"
    then have "q = (d @ ''/'') @ drop (Suc (length d)) q"
      unfolding below_dir_def by (metis append_take_drop_id)
    then have "q @ ''/'' = (d @ ''/'') @ drop (Suc (length d)) q @ ''/''" by (metis append.assoc)
    then show ?thesis unfolding in_tree_def by (rule prefixI)
  qed (simp add: in_tree_def)
qed


lemma in_tree_refl [simp]: "in_tree d d"
  by (simp add: in_tree_def)

lemma in_tree_trans: "in_tree a b \<Longrightarrow> in_tree b c \<Longrightarrow> in_tree a c"
  unfolding in_tree_def by (rule prefix_order.trans)

lemma in_tree_cases: "in_tree a q \<Longrightarrow> in_tree b q \<Longrightarrow> in_tree a b \<or> in_tree b a"
  unfolding in_tree_def by (rule prefix_same_cases)

lemma in_tree_length: "in_tree d q \<Longrightarrow> length d \<le> length q"
  unfolding in_tree_def by (drule prefix_length_le) simp

lemma in_tree_antisym: "in_tree a b \<Longrightarrow> in_tree b a \<Longrightarrow> a = b"
  unfolding in_tree_def by (drule (1) prefix_order.antisym) simp

lemma in_tree_child:
  "path_ok d \<Longrightarrow> name_ok n \<Longrightarrow> in_tree d (path_join d n)"
  by (simp add: path_join_ok(1) in_tree_def)

lemma child_not_parent: "path_ok d \<Longrightarrow> name_ok n \<Longrightarrow> \<not> in_tree (path_join d n) d"
  using in_tree_length[of "path_join d n" d] by (auto simp: path_join_ok(1))

lemma in_tree_sibling:
  assumes "path_ok d" "name_ok n" "name_ok m"
    and "in_tree (path_join d n) q" "in_tree (path_join d m) q"
  shows "n = m"
proof -
  have "in_tree (path_join d n) (path_join d m) \<or> in_tree (path_join d m) (path_join d n)"
    using assms(4,5) by (rule in_tree_cases)
  then show ?thesis using assms(1-3) slash_prefix[of m n] slash_prefix[of n m]
    by (auto simp: path_join_ok(1) in_tree_def name_ok_def)
qed

lemma in_tree_parent:
  assumes "path_ok h" "name_ok m" "in_tree d (path_join h m)" "d \<noteq> path_join h m"
  shows "in_tree d h"
proof -
  have j: "path_join h m = h @ CHR ''/'' # m" using assms(1,2) by (rule path_join_ok(1))
  have "in_tree h (path_join h m)" using assms(1,2) by (rule in_tree_child)
  then have "in_tree d h \<or> in_tree h d" using assms(3) in_tree_cases by blast
  moreover have "\<not> (in_tree h d \<and> \<not> in_tree d h)"
  proof
    assume hd: "in_tree h d \<and> \<not> in_tree d h"
    then obtain y where y: "d @ ''/'' = h @ ''/'' @ y" by (auto simp: in_tree_def prefix_def)
    have "prefix (h @ ''/'' @ y) (h @ ''/'' @ m @ ''/'')"
      using assms(3) y by (simp add: in_tree_def j)
    then have p: "prefix y (m @ ''/'')" by simp
    show False
    proof (cases y rule: rev_cases)
      case Nil
      then show False using y hd by simp
    next
      case (snoc y' c)
      then have "c = CHR ''/''" "d = h @ ''/'' @ y'" using y by auto
      then have "y' = m" using slash_prefix[of m y'] p snoc assms(2) by (simp add: name_ok_def)
      then show False using assms(4) \<open>d = h @ ''/'' @ y'\<close> by (simp add: j)
    qed
  qed
  ultimately show ?thesis by blast
qed

lemma in_tree_join_same:
  assumes "path_ok b" "in_tree (a @ CHR ''/'' # n) (b @ CHR ''/'' # n)"
  shows "in_tree a b"
proof -
  have len: "length a \<le> length b" using in_tree_length[OF assms(2)] by simp
  have p1: "prefix (a @ ''/'') ((a @ CHR ''/'' # n) @ ''/'')"
    by (rule prefixI[where zs = "n @ ''/''"]) simp
  have p2: "prefix ((a @ CHR ''/'' # n) @ ''/'') ((b @ CHR ''/'' # n) @ ''/'')"
    using assms(2) by (simp only: in_tree_def)
  have "prefix (a @ ''/'') (b @ (CHR ''/'' # n @ ''/''))"
    using prefix_order.trans[OF p1 p2] by simp
  then consider "prefix (a @ ''/'') b" | us where "a @ ''/'' = b @ us" "prefix us (CHR ''/'' # n @ ''/'')"
    unfolding prefix_append by blast
  then show ?thesis
  proof cases
    case 1
    then have "prefix (a @ ''/'') (b @ ''/'')" by (rule prefix_prefix)
    then show ?thesis by (simp only: in_tree_def)
  next
    case 2
    show ?thesis
    proof (cases us)
      case Nil
      then have "last b = CHR ''/''" using 2(1) by (metis append_Nil2 last_snoc)
      then show ?thesis using assms(1) by (simp add: path_ok_def)
    next
      case (Cons u us')
      have "length (a @ ''/'') = length (b @ us)" using 2(1) by (rule arg_cong)
      then have "length a = length b + length us'" using Cons by simp
      then have "us' = []" using len by simp
      then have "a = b" using 2(1) Cons by simp
      then show ?thesis by simp
    qed
  qed
qed

lemma in_tree_rebase: "in_tree dst q \<Longrightarrow> in_tree src (src @ drop (length dst) q)"
proof -
  assume t: "in_tree dst q"
  then obtain z where z: "q @ ''/'' = dst @ ''/'' @ z" by (auto simp: in_tree_def prefix_def)
  obtain w where q: "q = dst @ w" using in_tree_prefix[OF t] by (auto simp: prefix_def)
  have "w @ ''/'' = ''/'' @ z" using z unfolding q by simp
  then show ?thesis unfolding q in_tree_def by simp
qed


lemma in_tree_transport:
  assumes "path_ok a" "path_ok b" "name_ok n"
  shows "in_tree (path_join a n) (a @ w) \<longleftrightarrow> in_tree (path_join b n) (b @ w)"
  using assms by (simp add: path_join_ok(1) in_tree_def)

lemma rebase_child:
  assumes "path_ok src" "path_ok dst" "name_ok n" "in_tree (path_join dst n) q"
  shows "path_join src n @ drop (length (path_join dst n)) q = src @ drop (length dst) q"
proof -
  obtain w where q: "q = path_join dst n @ w" using in_tree_prefix[OF assms(4)] by (auto simp: prefix_def)
  show ?thesis unfolding q by (simp add: path_join_ok(1)[OF assms(2,3)] path_join_ok(1)[OF assms(1,3)])
qed



section \<open>Well-formed trees\<close>

lemma tree_ok_listing:
  assumes "tree_ok fs lsf src" "in_tree src d" "os_path_isdir fs d" "n \<in> set (lsf fs d)"
  shows "name_ok n" "fs (path_join d n) \<noteq> None"
  using assms unfolding tree_ok_def by blast+

lemma tree_ok_distinct:
  "tree_ok fs lsf src \<Longrightarrow> in_tree src d \<Longrightarrow> os_path_isdir fs d \<Longrightarrow> distinct (lsf fs d)"
  unfolding tree_ok_def by blast

lemma tree_ok_parent:
  assumes "tree_ok fs lsf src" "in_tree src q" "q \<noteq> src" "fs q \<noteq> None"
  obtains h m where "path_ok h" "name_ok m" "q = path_join h m" "os_path_isdir fs h"
    "m \<in> set (lsf fs h)" "in_tree src h"
proof -
  let ?h = "os_path_dirname q" and ?m = "os_path_basename q"
  have h: "path_ok ?h" "name_ok ?m" "q = path_join ?h ?m" "os_path_isdir fs ?h" "?m \<in> set (lsf fs ?h)"
    using assms unfolding tree_ok_def by blast+
  have "in_tree src ?h" using in_tree_parent[OF h(1,2)] assms(2,3) h(3) by metis
  then show ?thesis using h that by blast
qed

text \<open>Every entry strictly inside a directory of the tree lies in the subtree of a listed name.\<close>

lemma tree_ok_entry:
  assumes "tree_ok fs lsf src" "in_tree src d" "in_tree d q" "q \<noteq> d" "fs q \<noteq> None"
  shows "os_path_isdir fs d \<and> (\<exists>n \<in> set (lsf fs d). in_tree (path_join d n) q)"
  using assms(3-5)
proof (induction "length q" arbitrary: q rule: less_induct)
  case less
  have "q \<noteq> src" using less.prems(1,2) assms(2) in_tree_antisym by blast
  moreover have "in_tree src q" using assms(2) less.prems(1) by (rule in_tree_trans)
  ultimately obtain h m where hm: "path_ok h" "name_ok m" "q = path_join h m" "os_path_isdir fs h"
    "m \<in> set (lsf fs h)" "in_tree src h"
    using tree_ok_parent[OF assms(1)] less.prems(3) by blast
  have dh: "in_tree d h" using in_tree_parent[OF hm(1,2)] less.prems(1,2) hm(3) by metis
  show ?case
  proof (cases "h = d")
    case True
    then show ?thesis using hm by (metis in_tree_refl)
  next
    case False
    have "length h < length q" using hm(1,2,3) by (simp add: path_join_ok(1))
    moreover have "fs h \<noteq> None" using hm(4) by (simp add: os_path_isdir_def)
    ultimately obtain n where "os_path_isdir fs d" "n \<in> set (lsf fs d)" "in_tree (path_join d n) h"
      using less.hyps[of h] dh False by blast
    moreover have "in_tree h q" using hm(1,2,3) in_tree_child by simp
    ultimately show ?thesis using in_tree_trans by blast
  qed
qed

lemma tree_ok_file_leaf:
  assumes "tree_ok fs lsf src" "in_tree src d" "\<not> os_path_isdir fs d" "in_tree d q" "q \<noteq> d"
  shows "fs q = None"
  using tree_ok_entry[OF assms(1,2,4,5)] assms(3) by blast

lemma tree_ok_unlisted:
  assumes "tree_ok fs lsf src" "in_tree src d" "in_tree d q" "q \<noteq> d"
    and "\<forall>n \<in> set (lsf fs d). \<not> in_tree (path_join d n) q"
  shows "fs q = None"
  using tree_ok_entry[OF assms(1-4)] assms(5) by blast


lemma listing_local_eq:
  assumes "listing_local lsf" "in_tree src d" "\<forall>q. in_tree src q \<longrightarrow> fs' q = fs q"
  shows "lsf fs' d = lsf fs d"
  using assms in_tree_trans unfolding listing_local_def by blast

lemma tree_ok_path:
  assumes "tree_ok fs lsf src" "in_tree src d" "fs d \<noteq> None"
  shows "path_ok d"
proof (cases "d = src")
  case False
  then obtain h m where "path_ok h" "name_ok m" "d = path_join h m"
    using tree_ok_parent[OF assms(1,2) False assms(3)] by metis
  then show ?thesis by (simp add: path_join_ok(2))
qed (use assms(1) tree_ok_def in blast)

lemma tree_ok_sub:
  assumes "tree_ok fs lsf src" "in_tree src d" "fs d \<noteq> None"
  shows "tree_ok fs lsf d"
proof -
  have "\<And>q. in_tree d q \<Longrightarrow> q \<noteq> d \<Longrightarrow> q \<noteq> src"
    using assms(2) in_tree_antisym by blast
  moreover have "path_ok d" using tree_ok_path[OF assms] .
  ultimately show ?thesis using assms(1,2) unfolding tree_ok_def by (meson in_tree_trans)
qed

lemma tree_ok_child:
  assumes "tree_ok fs lsf src" "in_tree src d" "os_path_isdir fs d" "n \<in> set (lsf fs d)"
  shows "in_tree src (path_join d n)"
proof -
  have "path_ok d" using tree_ok_path[OF assms(1,2)] assms(3) by (simp add: os_path_isdir_def)
  then show ?thesis using in_tree_child tree_ok_listing(1)[OF assms] assms(2) in_tree_trans by blast
qed

lemma tree_ok_cong:
  assumes "tree_ok fs lsf src" "listing_local lsf" "\<forall>q. in_tree src q \<longrightarrow> fs' q = fs q"
  shows "tree_ok fs' lsf src"
proof -
  have ls: "\<And>d. in_tree src d \<Longrightarrow> lsf fs' d = lsf fs d" using listing_local_eq[OF assms(2) _ assms(3)] .
  have dir: "\<And>d. in_tree src d \<Longrightarrow> os_path_isdir fs' d = os_path_isdir fs d"
    using assms(3) by (simp add: os_path_isdir_def)
  have part1: "distinct (lsf fs' d) \<and> (\<forall>n \<in> set (lsf fs' d). name_ok n \<and> fs' (path_join d n) \<noteq> None)"
    if d: "in_tree src d" "os_path_isdir fs' d" for d
  proof -
    have dd: "os_path_isdir fs d" using d dir by simp
    have "n \<in> set (lsf fs d) \<Longrightarrow> name_ok n \<and> fs' (path_join d n) \<noteq> None" for n
      using tree_ok_listing[OF assms(1) d(1) dd] tree_ok_child[OF assms(1) d(1) dd] assms(3) by simp
    then show ?thesis using tree_ok_distinct[OF assms(1) d(1) dd] ls[OF d(1)] by simp
  qed
  have part2: "path_ok (os_path_dirname q) \<and> name_ok (os_path_basename q) \<and>
          q = path_join (os_path_dirname q) (os_path_basename q) \<and>
          os_path_isdir fs' (os_path_dirname q) \<and> os_path_basename q \<in> set (lsf fs' (os_path_dirname q))"
    if q: "in_tree src q" "q \<noteq> src" "fs' q \<noteq> None" for q
  proof -
    have h: "path_ok (os_path_dirname q)" "name_ok (os_path_basename q)"
        "q = path_join (os_path_dirname q) (os_path_basename q)"
        "os_path_isdir fs (os_path_dirname q)" "os_path_basename q \<in> set (lsf fs (os_path_dirname q))"
      using assms(1) q assms(3) unfolding tree_ok_def by auto
    have "in_tree src (os_path_dirname q)" using in_tree_parent[OF h(1,2)] q(1,2) h(3) by metis
    then show ?thesis using h ls dir by simp
  qed
  show ?thesis using part1 part2 assms(1) unfolding tree_ok_def by blast
qed


section \<open>Grafts\<close>

lemma graft_all_eq:
  assumes "path_ok src" "path_ok dst" "\<forall>n \<in> set ns. name_ok n"
  shows "graft_all fs0 src dst ns acc q =
           (if \<exists>n \<in> set ns. in_tree (path_join dst n) q then fs0 (src @ drop (length dst) q) else acc q)"
  using assms(3)
proof (induction ns arbitrary: acc)
  case Nil
  then show ?case by (simp add: graft_all_def)
next
  case (Cons n ns)
  have "graft_all fs0 src dst (n # ns) acc =
        graft_all fs0 src dst ns (graft fs0 (path_join src n) (path_join dst n) acc)"
    by (simp add: graft_all_def)
  then show ?case using Cons rebase_child[OF assms(1,2), of n q] by (auto simp: graft_def)
qed

lemma graft_all_snoc:
  "graft_all fs0 src dst (ns @ [n]) acc =
   graft fs0 (path_join src n) (path_join dst n) (graft_all fs0 src dst ns acc)"
  by (simp add: graft_all_def)

section \<open>Single operations\<close>

lemma parent_error_join:
  "path_ok d \<Longrightarrow> name_ok n \<Longrightarrow> os_path_isdir fs d \<Longrightarrow> parent_error fs (path_join d n) = None"
  using path_ok_not_root[of d] by (simp add: parent_error_def os_path_dirname_def split_join
                                      os_path_isdir_def path_ok_def)

lemma shutil_copy_no_parent:
  assumes "fs src = Some (File c)" "path_ok d" "name_ok n" "fs d = None" "fs (path_join d n) = None"
  shows "shutil_copy fs src (path_join d n) = (fs, Some FileNotFoundError)"
proof -
  have pe: "parent_error fs (path_join d n) = Some FileNotFoundError"
    using assms(2-4) path_ok_not_root[of d]
    by (simp add: parent_error_def os_path_dirname_def split_join path_ok_def)
  have "path_ok (path_join d n)" using path_join_ok[OF assms(2,3)] by simp
  then show ?thesis using assms(1,5) pe path_ok_not_root[of "path_join d n"]
    by (simp add: shutil_copy_def copyfile_def open_read_def open_write_def os_path_isdir_def
                  path_ok_def)
qed

lemma shutil_copy_fresh:
  assumes "fs src = Some (File c)" "fs dst = None" "path_ok dst" "parent_error fs dst = None"
  shows "shutil_copy fs src dst = (fs(dst \<mapsto> File c), None)"
  using assms path_ok_not_root[OF assms(3)]
  by (simp add: shutil_copy_def copyfile_def open_read_def open_write_def os_path_isdir_def path_ok_def)


section \<open>copytree copies the tree\<close>

text \<open>The state inside the loop: the entries done so far grafted, the rest of the tree untouched.\<close>

lemma graft_all_frame:
  assumes "path_ok src" "path_ok dst" "\<not> in_tree src dst" "\<not> in_tree dst src" "\<forall>m \<in> set dn. name_ok m"
    and "\<forall>q. in_tree src q \<longrightarrow> fs1 q = fs0 q" "fs1 dst = Some Dir"
  shows "\<forall>q. in_tree src q \<longrightarrow> graft_all fs0 src dst dn fs1 q = fs0 q"
    and "graft_all fs0 src dst dn fs1 dst = Some Dir"
proof -
  have in_dst: "in_tree dst q" if "in_tree (path_join dst m) q" "name_ok m" for m q
    using that in_tree_child[OF assms(2)] in_tree_trans by blast
  show "\<forall>q. in_tree src q \<longrightarrow> graft_all fs0 src dst dn fs1 q = fs0 q"
  proof (intro allI impI)
    fix q assume q: "in_tree src q"
    have "\<not> in_tree dst q" using q assms(3,4) in_tree_cases by blast
    then show "graft_all fs0 src dst dn fs1 q = fs0 q"
      using graft_all_eq[OF assms(1,2,5)] in_dst assms(5,6) q by auto
  qed
  show "graft_all fs0 src dst dn fs1 dst = Some Dir"
    using graft_all_eq[OF assms(1,2,5)] child_not_parent[OF assms(2)] assms(5,7) by auto
qed

lemma graft_all_fresh:
  assumes "path_ok src" "path_ok dst" "name_ok n" "\<forall>m \<in> set dn. name_ok m" "n \<notin> set dn"
    and "\<forall>q. in_tree (path_join dst n) q \<longrightarrow> fs1 q = None"
  shows "\<forall>q. in_tree (path_join dst n) q \<longrightarrow> graft_all fs0 src dst dn fs1 q = None"
proof (intro allI impI)
  fix q assume q: "in_tree (path_join dst n) q"
  have "\<not> in_tree (path_join dst m) q" if "m \<in> set dn" for m
    using in_tree_sibling[OF assms(2,3), of m q] q assms(4,5) that by auto
  then show "graft_all fs0 src dst dn fs1 q = None" using graft_all_eq[OF assms(1,2,4)] assms(6) q by auto
qed

text \<open>One entry of a listed directory: a file is copied by \<^verbatim>\<open>shutil.copy\<close>, ...\<close>

lemma entry_file:
  assumes t: "tree_ok fs0 lsf src" "os_path_isdir fs0 src" "path_ok dst"
    and n: "n \<in> set (lsf fs0 src)" "\<not> os_path_isdir fs0 (path_join src n)"
    and cur: "\<forall>q. in_tree src q \<longrightarrow> cur q = fs0 q" "cur dst = Some Dir"
      "\<forall>q. in_tree (path_join dst n) q \<longrightarrow> cur q = None"
  shows "shutil_copy cur (path_join src n) (path_join dst n) =
           (graft fs0 (path_join src n) (path_join dst n) cur, None)"
proof -
  have srcok: "path_ok src" using t(1) by (simp add: tree_ok_def)
  have nok: "name_ok n" "fs0 (path_join src n) \<noteq> None"
    using tree_ok_listing[OF t(1) in_tree_refl t(2) n(1)] by auto
  have pe: "parent_error cur (path_join dst n) = None"
    using parent_error_join[OF t(3) nok(1)] cur(2) by (simp add: os_path_isdir_def)
  obtain c where c: "fs0 (path_join src n) = Some (File c)"
  proof -
    obtain a where a: "fs0 (path_join src n) = Some a" using nok(2) by blast
    then show ?thesis using that n(2) by (cases a) (auto simp: os_path_isdir_def)
  qed
  have sc: "shutil_copy cur (path_join src n) (path_join dst n) = (cur(path_join dst n \<mapsto> File c), None)"
    using shutil_copy_fresh[OF _ _ path_join_ok(2)[OF t(3) nok(1)] pe] cur(3) c
      cur(1)[rule_format, OF in_tree_child[OF srcok nok(1)]] by simp
  have "cur(path_join dst n \<mapsto> File c) = graft fs0 (path_join src n) (path_join dst n) cur"
  proof
    fix q
    show "(cur(path_join dst n \<mapsto> File c)) q = graft fs0 (path_join src n) (path_join dst n) cur q"
    proof (cases "in_tree (path_join dst n) q")
      case True
      define w where "w = drop (length (path_join dst n)) q"
      have q: "q = path_join dst n @ w" using in_tree_drop[OF True] by (simp add: w_def)
      show ?thesis
      proof (cases "w = []")
        case True
        then have "q = path_join dst n" using q by simp
        then show ?thesis using c by (simp add: graft_def)
      next
        case False
        have "in_tree (path_join src n) (path_join src n @ w)"
          using in_tree_rebase[OF \<open>in_tree (path_join dst n) q\<close>, of "path_join src n"] by (simp add: w_def)
        then have "fs0 (path_join src n @ w) = None"
          using tree_ok_file_leaf[OF t(1) in_tree_child[OF srcok nok(1)]] False n(2) by simp
        moreover have "q \<noteq> path_join dst n" using q False by auto
        ultimately show ?thesis using cur(3) True by (simp add: graft_def w_def[symmetric])
      qed
    next
      case False
      then show ?thesis using in_tree_refl[of "path_join dst n"] by (auto simp: graft_def)
    qed
  qed
  then show ?thesis using sc by simp
qed

text \<open>... and a directory by \<^verbatim>\<open>shutil.copytree\<close>, given that \<^verbatim>\<open>copytree\<close> copies trees.\<close>

lemma entry_dir:
  assumes IH: "copytree_spec k lsf"
    and loc: "listing_local lsf"
    and t: "tree_ok fs0 lsf src" "os_path_isdir fs0 src" "path_ok dst" "\<not> in_tree src dst"
    and bound: "\<forall>q. in_tree src q \<longrightarrow> fs0 q \<noteq> None \<longrightarrow> length q < length src + Suc k"
    and n: "n \<in> set (lsf fs0 src)" "os_path_isdir fs0 (path_join src n)"
    and cur: "\<forall>q. in_tree src q \<longrightarrow> cur q = fs0 q" "cur dst = Some Dir"
      "\<forall>q. in_tree (path_join dst n) q \<longrightarrow> cur q = None"
  shows "copytree k lsf cur (path_join src n) (path_join dst n) =
           Some (graft fs0 (path_join src n) (path_join dst n) cur, None)"
proof -
  have srcok: "path_ok src" using t(1) by (simp add: tree_ok_def)
  have nok: "name_ok n" "fs0 (path_join src n) \<noteq> None"
    using tree_ok_listing[OF t(1) in_tree_refl t(2) n(1)] by auto
  have sub: "in_tree src q" if "in_tree (path_join src n) q" for q
    using that in_tree_child[OF srcok nok(1)] in_tree_trans by blast
  have agree: "\<forall>q. in_tree (path_join src n) q \<longrightarrow> cur q = fs0 q" using sub cur(1) by blast
  have "tree_ok cur lsf (path_join src n)"
    using tree_ok_cong[OF tree_ok_sub[OF t(1) in_tree_child[OF srcok nok(1)] nok(2)] loc agree] .
  moreover have "os_path_isdir cur (path_join src n)"
    using n(2) agree by (simp add: os_path_isdir_def)
  moreover have "os_path_basename (path_join dst n) \<noteq> ''.''"
    using split_join[OF t(3) nok(1)] nok(1) by (simp add: os_path_basename_def name_ok_def)
  moreover have "parent_error cur (path_join dst n) = None"
    using parent_error_join[OF t(3) nok(1)] cur(2) by (simp add: os_path_isdir_def)
  moreover have "\<not> in_tree (path_join src n) (path_join dst n)"
  proof -
    have "\<not> in_tree (src @ CHR ''/'' # n) (dst @ CHR ''/'' # n)"
      using in_tree_join_same[OF t(3), of src n] t(4) by blast
    then show ?thesis by (simp add: path_join_ok(1)[OF srcok nok(1)] path_join_ok(1)[OF t(3) nok(1)])
  qed
  moreover have "\<forall>q. in_tree (path_join src n) q \<longrightarrow> cur q \<noteq> None \<longrightarrow> length q < length (path_join src n) + k"
  proof (intro allI impI)
    fix q assume q: "in_tree (path_join src n) q" "cur q \<noteq> None"
    have "length q < length src + Suc k" using bound sub[OF q(1)] q(2) agree q(1) by auto
    moreover have "length (path_join src n) = Suc (length src + length n)"
      by (simp add: path_join_ok(1)[OF srcok nok(1)])
    ultimately show "length q < length (path_join src n) + k" by simp
  qed
  ultimately have ct: "copytree k lsf cur (path_join src n) (path_join dst n) =
                       Some (graft cur (path_join src n) (path_join dst n) cur, None)"
    using IH path_join_ok(2)[OF t(3) nok(1)] cur(3) unfolding copytree_spec_def by blast
  have "graft cur (path_join src n) (path_join dst n) cur = graft fs0 (path_join src n) (path_join dst n) cur"
    unfolding graft_def using agree in_tree_rebase by fastforce
  then show ?thesis using ct by simp
qed

lemma copytree_loop_correct:
  assumes IH: "copytree_spec k lsf"
    and loc: "listing_local lsf"
    and t: "tree_ok fs0 lsf src" "os_path_isdir fs0 src" "path_ok dst" "\<not> in_tree src dst" "\<not> in_tree dst src"
    and bound: "\<forall>q. in_tree src q \<longrightarrow> fs0 q \<noteq> None \<longrightarrow> length q < length src + Suc k"
    and f1: "\<forall>q. in_tree src q \<longrightarrow> fs1 q = fs0 q" "fs1 dst = Some Dir"
      "\<forall>n \<in> set (map fst es). \<forall>q. in_tree (path_join dst n) q \<longrightarrow> fs1 q = None"
    and es: "\<forall>e \<in> set es. fst e \<in> set (lsf fs0 src) \<and> snd e = os_path_isdir fs0 (path_join src (fst e))"
      "distinct (dn @ map fst es)" "set dn \<subseteq> set (lsf fs0 src)"
  shows "copytree_loop k lsf (graft_all fs0 src dst dn fs1) src dst es err =
           Some (graft_all fs0 src dst (dn @ map fst es) fs1, err)"
  using f1(3) es
proof (induction es arbitrary: dn err)
  case Nil
  then show ?case by simp
next
  case (Cons e es)
  obtain n b where e: "e = (n, b)" by (cases e)
  have srcok: "path_ok src" using t(1) by (simp add: tree_ok_def)
  have nl: "n \<in> set (lsf fs0 src)" "b = os_path_isdir fs0 (path_join src n)"
    using Cons.prems(2) e by auto
  have nok: "name_ok n" using tree_ok_listing(1)[OF t(1) in_tree_refl t(2) nl(1)] .
  have dnok: "\<forall>m \<in> set dn. name_ok m"
    using Cons.prems(4) tree_ok_listing(1)[OF t(1) in_tree_refl t(2)] by blast
  define cur where "cur = graft_all fs0 src dst dn fs1"
  have cur: "\<forall>q. in_tree src q \<longrightarrow> cur q = fs0 q" "cur dst = Some Dir"
    using graft_all_frame[OF srcok t(3-5) dnok f1(1,2)] by (simp_all add: cur_def)
  have cur_new: "\<forall>q. in_tree (path_join dst n) q \<longrightarrow> cur q = None"
    using graft_all_fresh[OF srcok t(3) nok dnok] Cons.prems(1,3) e by (simp add: cur_def)
  have gs: "graft fs0 (path_join src n) (path_join dst n) cur = graft_all fs0 src dst (dn @ [n]) fs1"
    by (simp add: cur_def graft_all_snoc)
  have step: "copytree_loop k lsf cur src dst ((n, b) # es) err =
              copytree_loop k lsf (graft_all fs0 src dst (dn @ [n]) fs1) src dst es err"
  proof (cases b)
    case True
    then have "os_path_isdir fs0 (path_join src n)" using nl(2) by simp
    from entry_dir[OF IH loc t(1-4) bound nl(1) this cur cur_new]
    have ct: "copytree k lsf cur (path_join src n) (path_join dst n) =
              Some (graft_all fs0 src dst (dn @ [n]) fs1, None)" by (simp only: gs)
    show ?thesis unfolding copytree_loop.simps(2) Let_def using True ct by simp
  next
    case False
    then have "\<not> os_path_isdir fs0 (path_join src n)" using nl(2) by simp
    from entry_file[OF t(1-3) nl(1) this cur cur_new]
    have sc: "shutil_copy cur (path_join src n) (path_join dst n) = (graft_all fs0 src dst (dn @ [n]) fs1, None)"
      by (simp only: gs)
    show ?thesis unfolding copytree_loop.simps(2) Let_def using False sc by simp
  qed
  have "copytree_loop k lsf (graft_all fs0 src dst (dn @ [n]) fs1) src dst es err =
        Some (graft_all fs0 src dst ((dn @ [n]) @ map fst es) fs1, err)"
    using Cons.IH[of "dn @ [n]" err] Cons.prems e by auto
  then show ?case using step e by (simp add: cur_def)
qed

lemma copytree_correct: "listing_local lsf \<Longrightarrow> copytree_spec k lsf"
  unfolding copytree_spec_def
proof (induction k)
  case 0
  show ?case
  proof (intro allI impI)
    fix fs src dst
    assume a: "tree_ok fs lsf src" "os_path_isdir fs src" "path_ok dst" "os_path_basename dst \<noteq> ''.''"
      "parent_error fs dst = None" "\<forall>q. in_tree dst q \<longrightarrow> fs q = None" "\<not> in_tree src dst"
      "\<forall>q. in_tree src q \<longrightarrow> fs q \<noteq> None \<longrightarrow> length q < length src + 0"
    have "fs src \<noteq> None" using a(2) by (simp add: os_path_isdir_def)
    then show "copytree 0 lsf fs src dst = Some (graft fs src dst fs, None)"
      using a(8)[rule_format, OF in_tree_refl] by simp
  qed
next
  case (Suc k)
  show ?case
  proof (intro allI impI)
    fix fs src dst
    assume prems: "tree_ok fs lsf src" "os_path_isdir fs src" "path_ok dst" "os_path_basename dst \<noteq> ''.''"
      "parent_error fs dst = None" "\<forall>q. in_tree dst q \<longrightarrow> fs q = None" "\<not> in_tree src dst"
      "\<forall>q. in_tree src q \<longrightarrow> fs q \<noteq> None \<longrightarrow> length q < length src + Suc k"
    have IH': "copytree_spec k lsf" using Suc.IH Suc.prems by (simp add: copytree_spec_def)
    have srcok: "path_ok src" using prems(1) by (simp add: tree_ok_def)
    have fsdir: "fs src = Some Dir" using prems(2) by (simp add: os_path_isdir_def)
    have ds: "\<not> in_tree dst src" using prems(6) fsdir by auto
    define names where "names = lsf fs src"
    define es where "es = map (\<lambda>n. (n, os_path_isdir fs (path_join src n))) names"
    define fs1 where "fs1 = fs(dst \<mapsto> Dir)"
    have nok: "\<forall>n \<in> set names. name_ok n"
      using tree_ok_listing(1)[OF prems(1) in_tree_refl prems(2)] by (simp add: names_def)
    have mk: "makedirs fs dst = (fs1, None)"
      using makedirs_mkdir[OF prems(3,4) _ prems(5)] prems(6) by (simp add: fs1_def)
    have ls: "listdir fs (lsf fs) src = Inr names" using fsdir by (simp add: listdir_def names_def)
    have loop: "copytree_loop k lsf (graft_all fs src dst [] fs1) src dst es False =
                Some (graft_all fs src dst ([] @ map fst es) fs1, False)"
    proof (rule copytree_loop_correct[OF IH' Suc.prems prems(1,2,3,7) ds prems(8)])
      show "\<forall>q. in_tree src q \<longrightarrow> fs1 q = fs q" using prems(7) by (auto simp: fs1_def)
      show "fs1 dst = Some Dir" by (simp add: fs1_def)
      show "\<forall>n \<in> set (map fst es). \<forall>q. in_tree (path_join dst n) q \<longrightarrow> fs1 q = None"
      proof (intro ballI allI impI)
        fix n q assume n: "n \<in> set (map fst es)" and q: "in_tree (path_join dst n) q"
        have "name_ok n" using n nok by (auto simp: es_def)
        then show "fs1 q = None"
          using q prems(6) in_tree_trans[OF in_tree_child[OF prems(3)]] child_not_parent[OF prems(3)]
          by (auto simp: fs1_def)
      qed
      show "\<forall>e \<in> set es. fst e \<in> set (lsf fs src) \<and> snd e = os_path_isdir fs (path_join src (fst e))"
        by (auto simp: es_def names_def)
      show "distinct ([] @ map fst es)"
        using tree_ok_distinct[OF prems(1) in_tree_refl prems(2)] by (simp add: es_def names_def comp_def)
    qed (simp_all add: prems)
    have fin: "graft_all fs src dst names fs1 = graft fs src dst fs"
    proof
      fix q
      show "graft_all fs src dst names fs1 q = graft fs src dst fs q"
      proof (cases "\<exists>n \<in> set names. in_tree (path_join dst n) q")
        case True
        then have "in_tree dst q" using in_tree_trans[OF in_tree_child[OF prems(3)]] nok by blast
        then show ?thesis using True graft_all_eq[OF srcok prems(3) nok] by (simp add: graft_def)
      next
        case False
        show ?thesis
        proof (cases "in_tree dst q \<and> q \<noteq> dst")
          case True
          define w where "w = drop (length dst) q"
          have q: "q = dst @ w" using in_tree_drop[of dst q] True by (simp add: w_def)
          have "w \<noteq> []" using q True by auto
          have "\<forall>n \<in> set (lsf fs src). \<not> in_tree (path_join src n) (src @ w)"
            using False in_tree_transport[OF srcok prems(3)] nok q by (auto simp: names_def)
          moreover have "in_tree src (src @ w)" using in_tree_rebase[of dst q src] True by (simp add: w_def)
          ultimately have "fs (src @ w) = None"
            using tree_ok_unlisted[OF prems(1) in_tree_refl] \<open>w \<noteq> []\<close> by simp
          then show ?thesis using graft_all_eq[OF srcok prems(3) nok] False True prems(6)
            by (simp add: graft_def fs1_def w_def[symmetric])
        next
          case False': False
          then show ?thesis using graft_all_eq[OF srcok prems(3) nok] False fsdir
            by (auto simp: graft_def fs1_def)
        qed
      qed
    qed
    show "copytree (Suc k) lsf fs src dst = Some (graft fs src dst fs, None)"
      using ls mk loop fin by (simp add: es_def graft_all_def comp_def)
  qed
qed

end
