(* ===== verification/Copy.thy ===== *)
theory Copy
  imports Shutil
begin

text \<open>
  \<^verbatim>\<open>copy(src, dest)\<close> of \<^verbatim>\<open>src/utility.py\<close>: a file is copied with \<^verbatim>\<open>shutil.copy\<close>;
  otherwise every entry of the directory \<^verbatim>\<open>src\<close> is copied into \<^verbatim>\<open>dest\<close>, a file by
  \<^verbatim>\<open>shutil.copy\<close>, anything else by \<^verbatim>\<open>shutil.copytree\<close>, in the order of
  \<^verbatim>\<open>os.listdir\<close>. The whole body is one \<^verbatim>\<open>try\<close>: the first exception ends the loop,
  and the handler's \<^verbatim>\<open>logging.error(ex.message)\<close> raises \<^verbatim>\<open>AttributeError\<close> on
  Python 3. The state is the file system, returned with the exception that leaves the
  call; \<open>k\<close> is the fuel of the nested \<^verbatim>\<open>copytree\<close> calls.
\<close>

fun copy_loop ::
  "nat \<Rightarrow> lsfun \<Rightarrow> fsys \<Rightarrow> string \<Rightarrow> string \<Rightarrow> string list \<Rightarrow> (fsys \<times> py_exc option) option"
where
  "copy_loop k lsf fs src dest [] = Some (fs, None)"
| "copy_loop k lsf fs src dest (n # ns) =
     (let srcfile = path_join src n; destfile = path_join dest n in
      if os_path_isfile fs srcfile then
        (case shutil_copy fs srcfile destfile of
           (fs1, None) \<Rightarrow> copy_loop k lsf fs1 src dest ns
         | (fs1, Some e) \<Rightarrow> Some (fs1, Some e))
      else Option.bind (copytree k lsf fs srcfile destfile)
             (\<lambda>(fs1, r). case r of
                           None \<Rightarrow> copy_loop k lsf fs1 src dest ns
                         | Some e \<Rightarrow> Some (fs1, Some e)))"

definition copy :: "nat \<Rightarrow> lsfun \<Rightarrow> fsys \<Rightarrow> string \<Rightarrow> string \<Rightarrow> (fsys \<times> py_exc option) option" where
  "copy k lsf fs src dest =
     map_option (\<lambda>(fs', r). (fs', map_option (\<lambda>e. AttributeError) r))
       (if os_path_isfile fs src then Some (shutil_copy fs src dest)
        else case listdir fs (lsf fs) src of
               Inl e \<Rightarrow> Some (fs, Some e)
             | Inr names \<Rightarrow> copy_loop k lsf fs src dest names)"

section \<open>Samples\<close>

text \<open>
  The capture tree of \<open>FindFiles\<close> with an empty directory \<^verbatim>\<open>/q\<close> beside it, listed in
  the order of \<open>tree_ls\<close> among the entries that exist.
\<close>

definition copy_fs :: fsys where
  "copy_fs = tree_fs(''/q'' \<mapsto> Dir)"

definition tree_lsf :: lsfun where
  "tree_lsf fs d = filter (\<lambda>n. fs (path_join d n) \<noteq> None) (tree_ls d)"

text \<open>A directory \<^verbatim>\<open>/a\<close> holding a file and a subdirectory, listed in the order \<open>first\<close>.\<close>

definition order_fs :: fsys where
  "order_fs = [''/a'' \<mapsto> Dir, ''/a/f'' \<mapsto> File ''x'', ''/a/d'' \<mapsto> Dir, ''/a/d/g'' \<mapsto> File ''y'']"

definition order_lsf :: "string list \<Rightarrow> lsfun" where
  "order_lsf first fs d = filter (\<lambda>n. fs (path_join d n) \<noteq> None)
     (if d = ''/a'' then first else if d = ''/a/d'' then [''g''] else [])"

section \<open>Facts\<close>

lemma isfile_not_isdir: "os_path_isfile fs p \<Longrightarrow> \<not> os_path_isdir fs p"
  by (auto simp: os_path_isfile_def os_path_isdir_def split: option.splits fentry.splits)

lemma copy_loop_correct:
  assumes loc: "listing_local lsf"
    and t: "tree_ok fs lsf src" "os_path_isdir fs src" "path_ok dest" "\<not> in_tree src dest"
      "\<not> in_tree dest src" "os_path_isdir fs dest"
    and bound: "\<forall>q. in_tree src q \<longrightarrow> fs q \<noteq> None \<longrightarrow> length q < length src + Suc k"
    and clash: "\<forall>n \<in> set ns. \<forall>q. in_tree (path_join dest n) q \<longrightarrow> fs q = None"
    and ns: "distinct (dn @ ns)" "set (dn @ ns) \<subseteq> set (lsf fs src)"
  shows "copy_loop k lsf (graft_all fs src dest dn fs) src dest ns = Some (graft_all fs src dest (dn @ ns) fs, None)"
  using clash ns
proof (induction ns arbitrary: dn)
  case Nil
  then show ?case by simp
next
  case (Cons n ns)
  have srcok: "path_ok src" using t(1) by (simp add: tree_ok_def)
  have nl: "n \<in> set (lsf fs src)" using Cons.prems(3) by simp
  have nok: "name_ok n" "fs (path_join src n) \<noteq> None"
    using tree_ok_listing[OF t(1) in_tree_refl t(2) nl] by auto
  have dnok: "\<forall>m \<in> set dn. name_ok m"
    using Cons.prems(3) tree_ok_listing(1)[OF t(1) in_tree_refl t(2)] by auto
  have fsd: "fs dest = Some Dir" using t(6) by (simp add: os_path_isdir_def)
  define cur where "cur = graft_all fs src dest dn fs"
  have cur: "\<forall>q. in_tree src q \<longrightarrow> cur q = fs q" "cur dest = Some Dir"
  proof -
    have "\<forall>q. in_tree src q \<longrightarrow> fs q = fs q" by simp
    from graft_all_frame[OF srcok t(3-5) dnok this fsd]
    show "\<forall>q. in_tree src q \<longrightarrow> cur q = fs q" "cur dest = Some Dir" by (simp_all add: cur_def)
  qed
  have cur_new: "\<forall>q. in_tree (path_join dest n) q \<longrightarrow> cur q = None"
    using graft_all_fresh[OF srcok t(3) nok(1) dnok] Cons.prems(1,2) by (simp add: cur_def)
  have gs: "graft fs (path_join src n) (path_join dest n) cur = graft_all fs src dest (dn @ [n]) fs"
    by (simp add: cur_def graft_all_snoc)
  have same: "cur (path_join src n) = fs (path_join src n)"
    using cur(1) in_tree_child[OF srcok nok(1)] by blast
  have step: "copy_loop k lsf cur src dest (n # ns) = copy_loop k lsf (graft_all fs src dest (dn @ [n]) fs) src dest ns"
  proof (cases "os_path_isfile fs (path_join src n)")
    case True
    then have "\<not> os_path_isdir fs (path_join src n)" by (rule isfile_not_isdir)
    from entry_file[OF t(1-3) nl this cur cur_new]
    have sc: "shutil_copy cur (path_join src n) (path_join dest n) = (graft_all fs src dest (dn @ [n]) fs, None)"
      by (simp only: gs)
    have "os_path_isfile cur (path_join src n)" using True same by (simp add: os_path_isfile_def)
    then show ?thesis using sc by simp
  next
    case False
    then have d: "os_path_isdir fs (path_join src n)"
      using nok(2) by (auto simp: os_path_isfile_def os_path_isdir_def split: option.splits fentry.splits)
    from entry_dir[OF copytree_correct[OF loc] loc t(1-4) bound nl d cur cur_new]
    have ct: "copytree k lsf cur (path_join src n) (path_join dest n) = Some (graft_all fs src dest (dn @ [n]) fs, None)"
      by (simp only: gs)
    have "\<not> os_path_isfile cur (path_join src n)" using False same by (simp add: os_path_isfile_def)
    then show ?thesis using ct by simp
  qed
  have "copy_loop k lsf (graft_all fs src dest (dn @ [n]) fs) src dest ns =
        Some (graft_all fs src dest ((dn @ [n]) @ ns) fs, None)"
    using Cons.IH[of "dn @ [n]"] Cons.prems by auto
  then show ?case using step by (simp add: cur_def)
qed


lemma copy_fs_dirs:
  "os_path_isdir copy_fs d \<longleftrightarrow> d = ''/p'' \<or> d = ''/p/s'' \<or> d = ''/p/u'' \<or> d = ''/p/s/t'' \<or> d = ''/q''"
  by (auto simp: copy_fs_def tree_fs_def os_path_isdir_def)

lemma copy_fs_dom:
  "copy_fs q \<noteq> None \<longleftrightarrow> q \<in> {''/p'', ''/p/a.JPG'', ''/p/b.txt'', ''/p/s'', ''/p/u'', ''/p/s/c.jpg'', ''/p/s/t'',
                           ''/p/s/t/d.jpg'', ''/q''}"
  by (auto simp: copy_fs_def tree_fs_def)

lemma tree_lsf_local: "listing_local tree_lsf"
  unfolding listing_local_def
proof (intro allI impI)
  fix fs fs' :: fsys and d
  assume a: "\<forall>q. in_tree d q \<longrightarrow> fs q = fs' q"
  show "tree_lsf fs d = tree_lsf fs' d"
    unfolding tree_lsf_def
  proof (rule filter_cong[OF refl])
    fix n assume "n \<in> set (tree_ls d)"
    then have "in_tree d (path_join d n)"
      by (auto simp: tree_ls_def path_join_def in_tree_def split: if_splits)
    then show "(fs (path_join d n) \<noteq> None) = (fs' (path_join d n) \<noteq> None)" using a by simp
  qed
qed

lemma join_entry_ok:
  assumes "path_ok d" "name_ok n" "os_path_isdir fs d" "n \<in> set (lsf fs d)" "q = path_join d n"
  shows "path_ok (os_path_dirname q) \<and> name_ok (os_path_basename q) \<and>
         q = path_join (os_path_dirname q) (os_path_basename q) \<and>
         os_path_isdir fs (os_path_dirname q) \<and> os_path_basename q \<in> set (lsf fs (os_path_dirname q))"
proof -
  have "os_path_dirname q = d" "os_path_basename q = n"
    using split_join[OF assms(1,2)] unfolding assms(5) os_path_dirname_def os_path_basename_def by simp_all
  then show ?thesis using assms(1-4) unfolding assms(5) by simp
qed

text \<open>The entries below \<^verbatim>\<open>/p\<close> of the sample, as directory and name.\<close>

lemma copy_fs_entries:
  assumes "in_tree ''/p'' q" "q \<noteq> ''/p''" "copy_fs q \<noteq> None"
  shows "\<exists>(d, n) \<in> set [(''/p'', ''a.JPG''), (''/p'', ''b.txt''), (''/p'', ''s''), (''/p'', ''u''),
                         (''/p/s'', ''c.jpg''), (''/p/s'', ''t''), (''/p/s/t'', ''d.jpg'')]. q = path_join d n"
proof -
  have "q \<noteq> ''/q''" using assms(1) by (auto simp: in_tree_def)
  then show ?thesis using assms(2,3) unfolding copy_fs_dom by (simp add: path_join_def)
qed

lemma copy_fs_entry_ok:
  "(d, n) \<in> set [(''/p'', ''a.JPG''), (''/p'', ''b.txt''), (''/p'', ''s''), (''/p'', ''u''),
                 (''/p/s'', ''c.jpg''), (''/p/s'', ''t''), (''/p/s/t'', ''d.jpg'')] \<Longrightarrow>
   path_ok d \<and> name_ok n \<and> os_path_isdir copy_fs d \<and> n \<in> set (tree_lsf copy_fs d)"
  by (simp only: list.set insert_iff empty_iff prod.inject, elim disjE conjE FalseE)
     (simp_all add: path_ok_def name_ok_def os_path_isdir_def tree_lsf_def tree_ls_def path_join_def
                    copy_fs_def tree_fs_def)

lemma copy_tree_ok: "tree_ok copy_fs tree_lsf ''/p''"
proof -
  have p1: "distinct (tree_lsf copy_fs d) \<and> (\<forall>n \<in> set (tree_lsf copy_fs d). name_ok n \<and> copy_fs (path_join d n) \<noteq> None)"
    if "os_path_isdir copy_fs d" for d
    using that unfolding copy_fs_dirs
    by (elim disjE) (simp_all add: tree_lsf_def tree_ls_def name_ok_def path_join_def copy_fs_def tree_fs_def)
  have p2: "path_ok (os_path_dirname q) \<and> name_ok (os_path_basename q) \<and>
          q = path_join (os_path_dirname q) (os_path_basename q) \<and>
          os_path_isdir copy_fs (os_path_dirname q) \<and> os_path_basename q \<in> set (tree_lsf copy_fs (os_path_dirname q))"
    if a: "in_tree ''/p'' q" "q \<noteq> ''/p''" "copy_fs q \<noteq> None" for q
  proof -
    obtain d n where dn: "(d, n) \<in> set [(''/p'', ''a.JPG''), (''/p'', ''b.txt''), (''/p'', ''s''), (''/p'', ''u''),
                         (''/p/s'', ''c.jpg''), (''/p/s'', ''t''), (''/p/s/t'', ''d.jpg'')]" "q = path_join d n"
      using copy_fs_entries[OF a] by blast
    then show ?thesis using join_entry_ok copy_fs_entry_ok[OF dn(1)] by blast
  qed
  have "path_ok ''/p''" by (simp add: path_ok_def)
  then show ?thesis unfolding tree_ok_def using p1 p2 by blast
qed



lemma order_fs_apply:
  "order_fs q = (if q = ''/a/d/g'' then Some (File ''y'') else if q = ''/a/d'' then Some Dir
                 else if q = ''/a/f'' then Some (File ''x'') else if q = ''/a'' then Some Dir else None)"
  by (simp add: order_fs_def)

lemmas order_eval = order_lsf_def order_fs_apply listdir_def os_path_isfile_def os_path_isdir_def
  shutil_copy_def copyfile_def open_read_def open_write_def parent_error_def os_path_dirname_def
  os_path_basename_def os_path_split_def rfind_def is_root_def path_join_def mkdir_def makedirs_split_def
  os_path_exists_def Let_def

text \<open>\<^verbatim>\<open>os.makedirs\<close> creates the missing parent \<^verbatim>\<open>/b\<close> before \<^verbatim>\<open>/b/d\<close>.\<close>

lemma order_makedirs:
  "makedirs order_fs ''/b'' = (order_fs(''/b'' \<mapsto> Dir), None)"
  "makedirs order_fs ''/b/d'' = (order_fs(''/b'' \<mapsto> Dir, ''/b/d'' \<mapsto> Dir), None)"
proof -
  show b: "makedirs order_fs ''/b'' = (order_fs(''/b'' \<mapsto> Dir), None)"
    by (rule makedirs_mkdir) (simp_all add: order_eval path_ok_def)
  show "makedirs order_fs ''/b/d'' = (order_fs(''/b'' \<mapsto> Dir, ''/b/d'' \<mapsto> Dir), None)"
    by (subst makedirs.simps) (simp add: b order_eval)
qed

lemma order_copytree:
  "copytree 3 (order_lsf first) order_fs ''/a/d'' ''/b/d'' =
   Some (order_fs(''/b'' \<mapsto> Dir, ''/b/d'' \<mapsto> Dir, ''/b/d/g'' \<mapsto> File ''y''), None)"
  by (simp add: numeral_3_eq_3 order_makedirs(2) order_eval)

section \<open>Properties of copy\<close>

text \<open>
  C39: copying a directory merges its tree into the destination directory. When the source is
  a well-formed tree, the destination an existing directory outside it, no listed name of
  the source already exists in the destination, and the fuel covers the depth of the tree,
  \<^verbatim>\<open>copy\<close> returns normally, every entry below \<^verbatim>\<open>src\<close> appears below \<^verbatim>\<open>dest\<close>
  at the same relative path with the same content, and nothing else changes.
\<close>

theorem copy_dir_merges:
  assumes "listing_local lsf" "tree_ok fs lsf src" "os_path_isdir fs src"
    and "os_path_isdir fs dest" "path_ok dest" "\<not> in_tree src dest" "\<not> in_tree dest src"
    and "\<forall>n \<in> set (lsf fs src). \<forall>q. in_tree (path_join dest n) q \<longrightarrow> fs q = None"
    and "\<forall>q. in_tree src q \<longrightarrow> fs q \<noteq> None \<longrightarrow> length q < length src + Suc k"
  shows "\<exists>fs'. copy k lsf fs src dest = Some (fs', None) \<and>
           (\<forall>q. below_dir src q \<longrightarrow> fs q \<noteq> None \<longrightarrow> fs' (dest @ drop (length src) q) = fs q) \<and>
           (\<forall>q. \<not> (below_dir dest q \<and> fs (src @ drop (length dest) q) \<noteq> None) \<longrightarrow> fs' q = fs q)"
proof -
  define fs' where "fs' = graft_all fs src dest (lsf fs src) fs"
  have srcok: "path_ok src" using assms(2) by (simp add: tree_ok_def)
  have nok: "\<forall>n \<in> set (lsf fs src). name_ok n"
    using tree_ok_listing(1)[OF assms(2) in_tree_refl assms(3)] by blast
  have loop: "copy_loop k lsf (graft_all fs src dest [] fs) src dest (lsf fs src) =
              Some (graft_all fs src dest ([] @ lsf fs src) fs, None)"
    using copy_loop_correct[OF assms(1,2,3,5,6,7,4,9,8), of "[]"] tree_ok_distinct[OF assms(2) in_tree_refl assms(3)]
    by simp
  have run: "copy k lsf fs src dest = Some (fs', None)"
    using loop assms(3) isfile_not_isdir[of fs src]
    by (auto simp: copy_def fs'_def graft_all_def listdir_def os_path_isdir_def)
  have eq: "fs' q = (if \<exists>n \<in> set (lsf fs src). in_tree (path_join dest n) q then fs (src @ drop (length dest) q) else fs q)" for q
    unfolding fs'_def by (rule graft_all_eq[OF srcok assms(5) nok])
  have copied: "fs' (dest @ drop (length src) q) = fs q" if q: "below_dir src q" "fs q \<noteq> None" for q
  proof -
    define w where "w = drop (length src) q"
    have qw: "q = src @ w" using in_tree_drop[of src q] q(1) by (simp add: in_tree_iff w_def)
    have "q \<noteq> src" using q(1) by (auto simp: below_dir_def)
    then obtain n where n: "n \<in> set (lsf fs src)" "in_tree (path_join src n) q"
      using tree_ok_entry[OF assms(2) in_tree_refl _ _ q(2)] q(1) by (auto simp: in_tree_iff)
    then have "in_tree (path_join dest n) (dest @ w)"
      using in_tree_transport[OF srcok assms(5)] nok qw by auto
    then have "fs' (dest @ w) = fs (src @ w)" using eq[of "dest @ w"] n(1) by auto
    then show ?thesis unfolding w_def[symmetric] using qw by simp
  qed
  have rest: "fs' q = fs q" if q: "\<not> (below_dir dest q \<and> fs (src @ drop (length dest) q) \<noteq> None)" for q
  proof (cases "\<exists>n \<in> set (lsf fs src). in_tree (path_join dest n) q")
    case True
    then obtain n where n: "n \<in> set (lsf fs src)" "in_tree (path_join dest n) q" by blast
    have "in_tree dest q" using n in_tree_trans[OF in_tree_child[OF assms(5)]] nok by blast
    moreover have "q \<noteq> dest" using n child_not_parent[OF assms(5)] nok by blast
    ultimately have "below_dir dest q" by (simp add: in_tree_iff)
    then have "fs (src @ drop (length dest) q) = None" using q by blast
    moreover have "fs q = None" using assms(8) n by blast
    ultimately show ?thesis using eq[of q] True by simp
  qed (simp add: eq)
  show ?thesis using run copied rest by blast
qed

theorem copy_dir_merges_witness:
  "\<exists>fs'. copy 10 tree_lsf copy_fs ''/p'' ''/q'' = Some (fs', None) \<and>
         fs' ''/q/s/t/d.jpg'' = Some (File []) \<and> fs' ''/q/a.JPG'' = Some (File []) \<and> fs' ''/p/b.txt'' = Some (File [])"
proof -
  have dirs: "os_path_isdir copy_fs ''/p''" "os_path_isdir copy_fs ''/q''" by (simp_all add: copy_fs_dirs)
  have pq: "path_ok ''/q''" "\<not> in_tree ''/p'' ''/q''" "\<not> in_tree ''/q'' ''/p''"
    by (simp_all add: path_ok_def in_tree_def)
  have l: "tree_lsf copy_fs ''/p'' = [''a.JPG'', ''b.txt'', ''s'', ''u'']"
    by (simp add: tree_lsf_def tree_ls_def path_join_def copy_fs_def tree_fs_def)
  have clash: "\<forall>n \<in> set (tree_lsf copy_fs ''/p''). \<forall>q. in_tree (path_join ''/q'' n) q \<longrightarrow> copy_fs q = None"
  proof (intro ballI allI impI)
    fix n q assume n: "n \<in> set (tree_lsf copy_fs ''/p'')" and q: "in_tree (path_join ''/q'' n) q"
    show "copy_fs q = None"
    proof (rule ccontr)
      assume "copy_fs q \<noteq> None"
      then have "q \<in> {''/p'', ''/p/a.JPG'', ''/p/b.txt'', ''/p/s'', ''/p/u'', ''/p/s/c.jpg'', ''/p/s/t'',
                       ''/p/s/t/d.jpg'', ''/q''}" unfolding copy_fs_dom .
      with n q show False unfolding l by (auto simp: in_tree_def path_join_def)
    qed
  qed
  have bound: "\<forall>q. in_tree ''/p'' q \<longrightarrow> copy_fs q \<noteq> None \<longrightarrow> length q < length ''/p'' + Suc 10"
    unfolding copy_fs_dom by auto
  obtain fs' where f: "copy 10 tree_lsf copy_fs ''/p'' ''/q'' = Some (fs', None)"
    "\<forall>q. below_dir ''/p'' q \<longrightarrow> copy_fs q \<noteq> None \<longrightarrow> fs' (''/q'' @ drop (length ''/p'') q) = copy_fs q"
    "\<forall>q. \<not> (below_dir ''/q'' q \<and> copy_fs (''/p'' @ drop (length ''/q'') q) \<noteq> None) \<longrightarrow> fs' q = copy_fs q"
    using copy_dir_merges[OF tree_lsf_local copy_tree_ok dirs(1) dirs(2) pq clash bound] by blast
  have "fs' ''/q/s/t/d.jpg'' = Some (File [])"
    using f(2)[rule_format, of "''/p/s/t/d.jpg''"] by (simp add: below_dir_def copy_fs_def tree_fs_def)
  moreover have "fs' ''/q/a.JPG'' = Some (File [])"
    using f(2)[rule_format, of "''/p/a.JPG''"] by (simp add: below_dir_def copy_fs_def tree_fs_def)
  moreover have "fs' ''/p/b.txt'' = Some (File [])"
    using f(3)[rule_format, of "''/p/b.txt''"] by (simp add: below_dir_def copy_fs_def tree_fs_def)
  ultimately show ?thesis using f(1) by blast
qed


text \<open>
  The order of \<^verbatim>\<open>os.listdir\<close> decides the outcome: copying \<^verbatim>\<open>/a\<close>, which holds a
  file \<^verbatim>\<open>f\<close> and a directory \<^verbatim>\<open>d\<close>, to a missing \<^verbatim>\<open>/b\<close> fails when \<open>f\<close> is
  listed first and copies everything when \<open>d\<close> is.
\<close>

lemma copy_listing_order:
  "copy 3 (order_lsf [''f'', ''d'']) order_fs ''/a'' ''/b'' = Some (order_fs, Some AttributeError) \<and>
   copy 3 (order_lsf [''d'', ''f'']) order_fs ''/a'' ''/b'' =
     Some (order_fs(''/b'' \<mapsto> Dir, ''/b/d'' \<mapsto> Dir, ''/b/d/g'' \<mapsto> File ''y'', ''/b/f'' \<mapsto> File ''x''), None)"
proof
  show "copy 3 (order_lsf [''f'', ''d'']) order_fs ''/a'' ''/b'' = Some (order_fs, Some AttributeError)"
    by (simp add: copy_def order_eval)
  show "copy 3 (order_lsf [''d'', ''f'']) order_fs ''/a'' ''/b'' =
     Some (order_fs(''/b'' \<mapsto> Dir, ''/b/d'' \<mapsto> Dir, ''/b/d/g'' \<mapsto> File ''y'', ''/b/f'' \<mapsto> File ''x''), None)"
    using order_copytree[of "[''d'', ''f'']"] by (simp add: copy_def order_eval)
qed

text \<open>
  C40: copying a directory to a destination that does not exist fails whenever the first
  entry \<^verbatim>\<open>os.listdir\<close> gives is a file: \<^verbatim>\<open>shutil.copy\<close> of that file into the missing
  destination raises \<^verbatim>\<open>FileNotFoundError\<close>, the handler turns it into
  \<^verbatim>\<open>AttributeError\<close>, and nothing has been copied, whatever the other entries are.
\<close>

theorem copy_file_first_missing_dest:
  assumes "os_path_isdir fs src" "lsf fs src = n # ns" "fs (path_join src n) = Some (File c)"
    and "path_ok dest" "name_ok n" "fs dest = None" "fs (path_join dest n) = None"
  shows "copy k lsf fs src dest = Some (fs, Some AttributeError)"
proof -
  have "\<not> os_path_isfile fs src" "listdir fs (lsf fs) src = Inr (n # ns)"
    using assms(1,2) by (simp_all add: os_path_isfile_def os_path_isdir_def listdir_def)
  moreover have "os_path_isfile fs (path_join src n)" using assms(3) by (simp add: os_path_isfile_def)
  ultimately show ?thesis
    using shutil_copy_no_parent[OF assms(3-7)] by (simp add: copy_def)
qed

theorem copy_file_first_missing_dest_witness:
  "os_path_isdir order_fs ''/a'' \<and> order_lsf [''f'', ''d''] order_fs ''/a'' = [''f'', ''d''] \<and>
   order_fs (path_join ''/a'' ''f'') = Some (File ''x'') \<and> path_ok ''/b'' \<and> name_ok ''f'' \<and>
   order_fs ''/b'' = None \<and> order_fs (path_join ''/b'' ''f'') = None \<and>
   copy 3 (order_lsf [''f'', ''d'']) order_fs ''/a'' ''/b'' = Some (order_fs, Some AttributeError)"
proof -
  have h: "os_path_isdir order_fs ''/a''" "order_lsf [''f'', ''d''] order_fs ''/a'' = [''f'', ''d'']"
    "order_fs (path_join ''/a'' ''f'') = Some (File ''x'')" "path_ok ''/b''" "name_ok ''f''"
    "order_fs ''/b'' = None" "order_fs (path_join ''/b'' ''f'') = None"
    by (simp_all add: order_eval os_path_isdir_def path_ok_def name_ok_def)
  show ?thesis
    using h copy_file_first_missing_dest[where lsf = "order_lsf [''f'', ''d'']" and k = 3, OF h] by simp
qed

end
