(* ===== verification/Calendar.thy ===== *)
theory Calendar
  imports DateTime
begin

text \<open>
  The proleptic Gregorian calendar of CPython's \<^verbatim>\<open>datetime\<close> module: the day count
  \<^verbatim>\<open>_ymd2ord\<close> (\<open>ymd2ord\<close>) and its inverse \<^verbatim>\<open>_ord2ymd\<close> (\<open>ord2ymd\<close>), the
  conversion from a day number to a date that \<^verbatim>\<open>datetime.fromtimestamp\<close> performs
  through \<^verbatim>\<open>localtime\<close>. Years are Python integers of any sign, as in the library's
  arithmetic; \<^verbatim>\<open>>> 5\<close> and \<^verbatim>\<open>divmod\<close> are floor operations, \<open>div\<close> and
  \<open>mod\<close> on \<open>int\<close>. The lemmas prove that the two are inverse bijections between all
  day numbers and all valid dates, and that the day count is monotone in the year.
\<close>

definition is_leap_int :: "int \<Rightarrow> bool" where
  "is_leap_int y \<longleftrightarrow> y mod 4 = 0 \<and> (y mod 100 \<noteq> 0 \<or> y mod 400 = 0)"

definition days_before_year :: "int \<Rightarrow> int" where
  "days_before_year year = (let y = year - 1 in y * 365 + y div 4 - y div 100 + y div 400)"

definition DAYS_BEFORE_MONTH :: "int list" where
  "DAYS_BEFORE_MONTH = [-1, 0, 31, 59, 90, 120, 151, 181, 212, 243, 273, 304, 334]"

definition days_in_month_int :: "bool \<Rightarrow> int \<Rightarrow> int" where
  "days_in_month_int leap month =
     int (DAYS_IN_MONTH ! nat month) + (if month = 2 \<and> leap then 1 else 0)"

definition days_before_month :: "bool \<Rightarrow> int \<Rightarrow> int" where
  "days_before_month leap month =
     DAYS_BEFORE_MONTH ! nat month + (if month > 2 \<and> leap then 1 else 0)"

definition ymd2ord :: "int \<Rightarrow> int \<Rightarrow> int \<Rightarrow> int" where
  "ymd2ord year month day =
     days_before_year year + days_before_month (is_leap_int year) month + day"

definition DI400Y :: int where "DI400Y = 146097"
definition DI100Y :: int where "DI100Y = 36524"
definition DI4Y :: int where "DI4Y = 1461"

text \<open>The month and day of the \<open>n\<close>-th day (from 0) of a year, the tail of \<^verbatim>\<open>_ord2ymd\<close>.\<close>

definition month_day :: "bool \<Rightarrow> int \<Rightarrow> int \<times> int" where
  "month_day leapyear n =
     (let month = (n + 50) div 32;
          preceding = days_before_month leapyear month
      in if preceding > n
         then (month - 1, n - (preceding - days_in_month_int leapyear (month - 1)) + 1)
         else (month, n - preceding + 1))"

definition ord2ymd :: "int \<Rightarrow> int \<times> int \<times> int" where
  "ord2ymd n0 =
     (let n = n0 - 1;
          n400 = n div DI400Y; n = n mod DI400Y;
          year = n400 * 400 + 1;
          n100 = n div DI100Y; n = n mod DI100Y;
          n4 = n div DI4Y; n = n mod DI4Y;
          n1 = n div 365; n = n mod 365;
          year = year + n100 * 100 + n4 * 4 + n1
      in if n1 = 4 \<or> n100 = 4 then (year - 1, 12, 31)
         else let leapyear = (n1 = 3 \<and> (n4 \<noteq> 24 \<or> n100 = 3));
                  (month, day) = month_day leapyear n
              in (year, month, day))"

text \<open>A valid date: the checks of \<^verbatim>\<open>_check_date_fields\<close> without the year range.\<close>

definition valid_md :: "int \<Rightarrow> int \<Rightarrow> int \<Rightarrow> bool" where
  "valid_md y m d \<longleftrightarrow> 1 \<le> m \<and> m \<le> 12 \<and> 1 \<le> d \<and> d \<le> days_in_month_int (is_leap_int y) m"

lemma digit_div:
  fixes k q r :: int
  assumes "0 \<le> r" "r < k"
  shows "(k * q + r) div k = q" "(k * q + r) mod k = r"
  using assms by (simp_all add: add.commute)

lemma twelve_cases:
  fixes k :: int
  assumes "1 \<le> k" "k \<le> 12"
  obtains "k = 1" | "k = 2" | "k = 3" | "k = 4" | "k = 5" | "k = 6" | "k = 7" | "k = 8"
        | "k = 9" | "k = 10" | "k = 11" | "k = 12"
proof -
  have "k \<in> set [1..12]" using assms by simp
  then have "k = 1 \<or> k = 2 \<or> k = 3 \<or> k = 4 \<or> k = 5 \<or> k = 6 \<or> k = 7 \<or> k = 8 \<or>
             k = 9 \<or> k = 10 \<or> k = 11 \<or> k = 12"
    by (simp add: upto.simps)
  then show ?thesis using that by blast
qed

lemmas month_eval = days_before_month_def days_in_month_int_def DAYS_BEFORE_MONTH_def DAYS_IN_MONTH_def

lemma month_day_valid:
  assumes "0 \<le> r" "r < 365 + (if leap then 1 else 0)" "month_day leap r = (m, d)"
  shows "1 \<le> m \<and> m \<le> 12 \<and> 1 \<le> d \<and> d \<le> days_in_month_int leap m \<and>
         days_before_month leap m + d - 1 = r"
proof -
  define k where "k = (r + 50) div 32"
  have k: "32 * k \<le> r + 50" "r + 50 < 32 * k + 32" unfolding k_def by linarith+
  have "1 \<le> k" "k \<le> 12" using k assms(1,2) by (auto split: if_splits)
  then show ?thesis
    by (cases rule: twelve_cases) (use assms k in \<open>auto simp: month_day_def k_def[symmetric] month_eval split: if_splits\<close>)
qed

lemma succ_mod_zero:
  fixes Y k :: int
  assumes "0 < k"
  shows "(Y + 1) mod k = 0 \<longleftrightarrow> Y mod k = k - 1"
proof -
  have b: "0 \<le> Y mod k" "Y mod k < k" using assms by simp_all
  have "(Y + 1) mod k = (Y mod k + 1) mod k" by (simp add: mod_add_left_eq)
  moreover have "(Y mod k + 1) mod k = (if Y mod k = k - 1 then 0 else Y mod k + 1)"
    using b by auto
  ultimately show ?thesis using b by auto
qed

lemma succ_div:
  fixes Y k :: int
  assumes "0 < k"
  shows "(Y + 1) div k = Y div k + (if (Y + 1) mod k = 0 then 1 else 0)"
proof -
  have b: "0 \<le> Y mod k" "Y mod k < k" using assms by simp_all
  have Y: "Y = k * (Y div k) + Y mod k" by simp
  show ?thesis
  proof (cases "Y mod k = k - 1")
    case True
    then have "Y + 1 = k * (Y div k) + k" using Y by linarith
    also have "\<dots> = k * (Y div k + 1) + 0" by (simp add: algebra_simps)
    finally have e: "Y + 1 = k * (Y div k + 1) + 0" .
    have "(Y + 1) div k = Y div k + 1" unfolding e by (rule digit_div(1)) (use assms in simp_all)
    with True assms show ?thesis by (simp add: succ_mod_zero)
  next
    case False
    then have r: "0 \<le> Y mod k + 1" "Y mod k + 1 < k" using b by auto
    have e: "Y + 1 = k * (Y div k) + (Y mod k + 1)" using Y by linarith
    have "(Y + 1) div k = Y div k" unfolding e by (rule digit_div(1)[OF r])
    with False assms show ?thesis by (simp add: succ_mod_zero)
  qed
qed

lemma dby_digits:
  assumes "0 \<le> b" "b \<le> 3" "0 \<le> c" "c \<le> 24" "0 \<le> e" "e \<le> 3"
  shows "days_before_year (400 * a + 100 * b + 4 * c + e + 1) = 146097 * a + 36524 * b + 1461 * c + 365 * e"
proof -
  define Y where "Y = 400 * a + 100 * b + 4 * c + e"
  have r: "0 \<le> e" "e < 4" "0 \<le> 4 * c + e" "4 * c + e < 100" "0 \<le> 100 * b + 4 * c + e"
    "100 * b + 4 * c + e < 400" using assms by linarith+
  have d4_eq: "Y = 4 * (100 * a + 25 * b + c) + e" by (simp add: Y_def)
  have d4: "Y div 4 = 100 * a + 25 * b + c" unfolding d4_eq by (rule digit_div(1)[OF r(1,2)])
  have d100_eq: "Y = 100 * (4 * a + b) + (4 * c + e)" by (simp add: Y_def)
  have d100: "Y div 100 = 4 * a + b" unfolding d100_eq by (rule digit_div(1)[OF r(3,4)])
  have d400_eq: "Y = 400 * a + (100 * b + 4 * c + e)" by (simp add: Y_def)
  have d400: "Y div 400 = a" unfolding d400_eq by (rule digit_div(1)[OF r(5,6)])
  have "400 * a + 100 * b + 4 * c + e + 1 = Y + 1" by (simp add: Y_def)
  then have "days_before_year (400 * a + 100 * b + 4 * c + e + 1) =
             Y * 365 + Y div 4 - Y div 100 + Y div 400"
    by (simp add: days_before_year_def)
  also have "\<dots> = 146097 * a + 36524 * b + 1461 * c + 365 * e"
    unfolding d4 d100 d400 by (simp add: Y_def algebra_simps)
  finally show ?thesis .
qed

lemma leap_digits:
  assumes "0 \<le> b" "b \<le> 3" "0 \<le> c" "c \<le> 24" "0 \<le> e" "e \<le> 3"
  shows "is_leap_int (400 * a + 100 * b + 4 * c + e + 1) \<longleftrightarrow> e = 3 \<and> (c \<noteq> 24 \<or> b = 3)"
proof -
  define Y where "Y = 400 * a + 100 * b + 4 * c + e"
  have r: "0 \<le> e" "e < 4" "0 \<le> 4 * c + e" "4 * c + e < 100" "0 \<le> 100 * b + 4 * c + e"
    "100 * b + 4 * c + e < 400" using assms by linarith+
  have m4_eq: "Y = 4 * (100 * a + 25 * b + c) + e" by (simp add: Y_def)
  have m4: "Y mod 4 = e" unfolding m4_eq by (rule digit_div(2)[OF r(1,2)])
  have m100_eq: "Y = 100 * (4 * a + b) + (4 * c + e)" by (simp add: Y_def)
  have m100: "Y mod 100 = 4 * c + e" unfolding m100_eq by (rule digit_div(2)[OF r(3,4)])
  have m400_eq: "Y = 400 * a + (100 * b + 4 * c + e)" by (simp add: Y_def)
  have m400: "Y mod 400 = 100 * b + 4 * c + e" unfolding m400_eq by (rule digit_div(2)[OF r(5,6)])
  have "is_leap_int (Y + 1) \<longleftrightarrow> e = 3 \<and> (4 * c + e \<noteq> 99 \<or> 100 * b + 4 * c + e = 399)"
    by (simp add: is_leap_int_def succ_mod_zero m4 m100 m400)
  also have "\<dots> \<longleftrightarrow> e = 3 \<and> (c \<noteq> 24 \<or> b = 3)" using assms by auto
  finally show ?thesis by (simp add: Y_def)
qed

lemma dby_step: "days_before_year (y + 1) = days_before_year y + (if is_leap_int y then 366 else 365)"
proof -
  define Y where "Y = y - 1"
  have y: "y = Y + 1" by (simp add: Y_def)
  have "(4 :: int) dvd 100" "(100 :: int) dvd 400" by simp_all
  then have dv: "y mod 100 = 0 \<Longrightarrow> y mod 4 = 0" "y mod 400 = 0 \<Longrightarrow> y mod 100 = 0"
    by (auto simp: mod_eq_0_iff_dvd intro: dvd_trans)
  define i where "i k = (if y mod k = 0 then 1 else 0 :: int)" for k
  have sd: "y div k = Y div k + i k" if "0 < k" for k
    unfolding i_def y by (rule succ_div[OF that])
  have a: "days_before_year (y + 1) = y * 365 + y div 4 - y div 100 + y div 400"
    by (simp add: days_before_year_def)
  have b: "days_before_year y = Y * 365 + Y div 4 - Y div 100 + Y div 400"
    by (simp add: days_before_year_def Y_def Let_def)
  have "days_before_year (y + 1) = days_before_year y + 365 + i 4 - i 100 + i 400"
    unfolding a b sd[of 4, simplified] sd[of 100, simplified] sd[of 400, simplified]
    by (simp add: y distrib_right)
  moreover have "365 + i 4 - i 100 + i 400 = (if is_leap_int y then 366 else 365)"
  proof -
    consider (c400) "y mod 400 = 0" | (c100) "y mod 400 \<noteq> 0" "y mod 100 = 0"
      | (c4) "y mod 100 \<noteq> 0" "y mod 4 = 0" | (c1) "y mod 4 \<noteq> 0" by blast
    then show ?thesis
    proof cases
      case c400
      have h: "y mod 100 = 0" by (rule dv(2)[OF c400])
      then have "y mod 4 = 0" by (rule dv(1))
      with c400 h show ?thesis unfolding i_def is_leap_int_def by simp
    next
      case c100
      then have "y mod 4 = 0" using dv(1) by simp
      with c100 show ?thesis unfolding i_def is_leap_int_def by simp
    next
      case c4
      then have "y mod 400 \<noteq> 0" using dv(2) by auto
      with c4 show ?thesis unfolding i_def is_leap_int_def by simp
    next
      case c1
      have h: "y mod 100 \<noteq> 0" using c1 dv(1) by auto
      then have "y mod 400 \<noteq> 0" using dv(2) by auto
      with c1 h show ?thesis unfolding i_def is_leap_int_def by simp
    qed
  qed
  ultimately show ?thesis by simp
qed

lemma dby_mono:
  assumes "y \<le> y'"
  shows "days_before_year y + 365 * (y' - y) \<le> days_before_year y'"
proof -
  define k where "k = nat (y' - y)"
  have k: "y' = y + int k" using assms by (simp add: k_def)
  have "days_before_year y + 365 * int k \<le> days_before_year (y + int k)" for k
  proof (induction k)
    case (Suc k)
    have e: "y + int (Suc k) = (y + int k) + 1" by simp
    show ?case unfolding e using Suc dby_step[of "y + int k"] by (simp split: if_splits)
  qed simp
  then show ?thesis using k by simp
qed

lemma dbm_range:
  assumes "1 \<le> m" "m \<le> 12" "1 \<le> d" "d \<le> days_in_month_int leap m"
  shows "0 \<le> days_before_month leap m + d - 1 \<and>
         days_before_month leap m + d - 1 < 365 + (if leap then 1 else 0)"
  using assms(1,2) by (cases rule: twelve_cases) (use assms(3,4) in \<open>auto simp: month_eval\<close>)

lemma dbm_mono:
  assumes "1 \<le> m" "m < m'" "m' \<le> 12"
  shows "days_before_month leap m + days_in_month_int leap m \<le> days_before_month leap m'"
proof -
  have m: "1 \<le> m" "m \<le> 12" and m': "1 \<le> m'" "m' \<le> 12" using assms by simp_all
  from m show ?thesis
    by (cases rule: twelve_cases)
       (use m' assms(2) in \<open>(cases rule: twelve_cases, auto simp: month_eval)+\<close>)
qed

lemma month_day_unique:
  assumes "1 \<le> m" "m \<le> 12" "1 \<le> d" "d \<le> days_in_month_int leap m"
    and "1 \<le> m'" "m' \<le> 12" "1 \<le> d'" "d' \<le> days_in_month_int leap m'"
    and "days_before_month leap m + d = days_before_month leap m' + d'"
  shows "m = m' \<and> d = d'"
proof -
  have "\<not> m < m'" using dbm_mono[of m m' leap] assms by linarith
  moreover have "\<not> m' < m" using dbm_mono[of m' m leap] assms by linarith
  ultimately show ?thesis using assms(9) by simp
qed

lemma month_day_inv:
  assumes "1 \<le> m" "m \<le> 12" "1 \<le> d" "d \<le> days_in_month_int leap m"
  shows "month_day leap (days_before_month leap m + d - 1) = (m, d)"
proof -
  obtain m' d' where md: "month_day leap (days_before_month leap m + d - 1) = (m', d')"
    by (cases "month_day leap (days_before_month leap m + d - 1)")
  have "1 \<le> m' \<and> m' \<le> 12 \<and> 1 \<le> d' \<and> d' \<le> days_in_month_int leap m' \<and>
        days_before_month leap m' + d' - 1 = days_before_month leap m + d - 1"
    using month_day_valid[OF _ _ md] dbm_range[OF assms] by blast
  then have "m' = m \<and> d' = d" using month_day_unique[OF _ _ _ _ assms] by auto
  with md show ?thesis by simp
qed

lemma ord2ymd_digits:
  assumes d: "0 \<le> b" "b \<le> 3" "0 \<le> c" "c \<le> 24" "0 \<le> e" "e \<le> 3"
    and r: "0 \<le> r" "r < 365 + (if leap then 1 else 0)"
    and L: "leap \<longleftrightarrow> e = 3 \<and> (c \<noteq> 24 \<or> b = 3)"
  shows "ord2ymd (146097 * a + 36524 * b + 1461 * c + 365 * e + r + 1) =
         (400 * a + 100 * b + 4 * c + e + 1, month_day leap r)"
proof -
  define R where "R = 36524 * b + 1461 * c + 365 * e + r"
  have R: "0 \<le> R" "R < 146097" using d r by (auto simp: R_def split: if_splits)
  have n: "146097 * a + 36524 * b + 1461 * c + 365 * e + r + 1 - 1 = 146097 * a + R"
    by (simp add: R_def)
  have q4: "(146097 * a + R) div 146097 = a" "(146097 * a + R) mod 146097 = R"
    using digit_div[OF R] by simp_all
  have ord: "ord2ymd (146097 * a + 36524 * b + 1461 * c + 365 * e + r + 1) =
    (let n100 = R div 36524; R1 = R mod 36524; n4 = R1 div 1461; R2 = R1 mod 1461;
         n1 = R2 div 365; year = a * 400 + 1 + n100 * 100 + n4 * 4 + n1
     in if n1 = 4 \<or> n100 = 4 then (year - 1, 12, 31)
        else (year, month_day (n1 = 3 \<and> (n4 \<noteq> 24 \<or> n100 = 3)) (R2 mod 365)))"
    unfolding ord2ymd_def n q4 DI400Y_def DI100Y_def DI4Y_def Let_def
    by (simp add: case_prod_beta)
  consider (A) "b = 3" "c = 24" "e = 3" "r = 365" | (B) "e = 3" "r = 365" "c \<le> 23" | (C) "r \<le> 364"
  proof (cases "r \<le> 364")
    case False
    then have "r = 365" "leap" using r by (auto split: if_splits)
    then have "e = 3" "c \<noteq> 24 \<or> b = 3" using L by simp_all
    then show ?thesis using that \<open>r = 365\<close> d by (cases "c = 24") auto
  qed
  then show ?thesis
  proof cases
    case A
    then have "R = 36524 * 4 + 0" by (simp add: R_def)
    then have "R div 36524 = 4" "R mod 36524 = 0" using digit_div[of 0 36524 4] by simp_all
    moreover have "month_day True 365 = (12, 31)" by (simp add: month_day_def month_eval)
    ultimately show ?thesis using A L unfolding ord by simp
  next
    case B
    have R1: "R = 36524 * b + (1461 * c + 1460)" "0 \<le> 1461 * c + 1460" "1461 * c + 1460 < 36524"
      using B d by (simp_all add: R_def)
    have R2: "1461 * c + 1460 = 1461 * c + (365 * 4 + 0)" by simp
    have "R div 36524 = b" "R mod 36524 = 1461 * c + 1460"
      unfolding R1(1) using digit_div[OF R1(2,3)] by simp_all
    moreover have "(1461 * c + 1460) div 1461 = c" "(1461 * c + 1460) mod 1461 = 1460"
      using digit_div[of 1460 1461 c] by simp_all
    moreover have "month_day True 365 = (12, 31)" by (simp add: month_day_def month_eval)
    ultimately show ?thesis using B d L unfolding ord by simp
  next
    case C
    have R1: "R = 36524 * b + (1461 * c + (365 * e + r))" "0 \<le> 1461 * c + (365 * e + r)"
      "1461 * c + (365 * e + r) < 36524" using C d r by (simp_all add: R_def)
    have R2: "0 \<le> 365 * e + r" "365 * e + r < 1461" using C d r by simp_all
    have R3: "0 \<le> r" "r < 365" using C r by simp_all
    have f1: "R div 36524 = b" "R mod 36524 = 1461 * c + (365 * e + r)"
      unfolding R1(1) using digit_div[OF R1(2,3)] by simp_all
    have f2: "(1461 * c + (365 * e + r)) div 1461 = c" "(1461 * c + (365 * e + r)) mod 1461 = 365 * e + r"
      using digit_div[OF R2] by simp_all
    have f3: "(365 * e + r) div 365 = e" "(365 * e + r) mod 365 = r"
      using digit_div[OF R3] by simp_all
    have ne: "\<not> (e = 4 \<or> b = 4)" using d by simp
    show ?thesis unfolding ord Let_def f1 f2 f3 if_not_P[OF ne] L[symmetric] by simp
  qed
qed

lemma year_digits:
  fixes y :: int
  obtains a b c e where "0 \<le> b" "b \<le> 3" "0 \<le> c" "c \<le> 24" "0 \<le> e" "e \<le> 3"
    "y = 400 * a + 100 * b + 4 * c + e + 1"
proof -
  define Y where "Y = y - 1"
  define Q where "Q = Y mod 400"
  define Q2 where "Q2 = Q mod 100"
  have Q: "0 \<le> Q" "Q \<le> 399" "0 \<le> Q2" "Q2 \<le> 99" by (simp_all add: Q_def Q2_def)
  have b: "0 \<le> Q div 100" "Q div 100 \<le> 3"
    using Q zdiv_mono1[of Q 399 100] by simp_all
  have c: "0 \<le> Q2 div 4" "Q2 div 4 \<le> 24"
    using Q zdiv_mono1[of Q2 99 4] by simp_all
  have e: "0 \<le> Q2 mod 4" "Q2 mod 4 \<le> 3" by simp_all
  have "y = 400 * (Y div 400) + 100 * (Q div 100) + 4 * (Q2 div 4) + Q2 mod 4 + 1"
    by (simp add: Y_def Q_def Q2_def)
  with b c e show ?thesis using that by blast
qed

lemma ord_canon:
  fixes n :: int
  obtains a b c e r where "0 \<le> b" "b \<le> 3" "0 \<le> c" "c \<le> 24" "0 \<le> e" "e \<le> 3" "0 \<le> r"
    "r < 365 + (if e = 3 \<and> (c \<noteq> 24 \<or> b = 3) then 1 else 0)"
    "n = 146097 * a + 36524 * b + 1461 * c + 365 * e + r + 1"
proof -
  define N where "N = n - 1"
  define R where "R = N mod 146097"
  define R1 where "R1 = R mod 36524"
  define R2 where "R2 = R1 mod 1461"
  define b where "b = R div 36524"
  define c where "c = R1 div 1461"
  define e where "e = R2 div 365"
  have eqs: "n = 146097 * (N div 146097) + R + 1" "R = 36524 * b + R1" "R1 = 1461 * c + R2"
    "R2 = 365 * e + R2 mod 365"
    by (simp_all add: N_def R_def R1_def R2_def b_def c_def e_def)
  have bd: "0 \<le> R" "R \<le> 146096" "0 \<le> R1" "R1 \<le> 36523" "0 \<le> R2" "R2 \<le> 1460"
    "0 \<le> R2 mod 365" "R2 mod 365 \<le> 364"
    by (simp_all add: R_def R1_def R2_def)
  have dg: "0 \<le> b" "b \<le> 4" "0 \<le> c" "c \<le> 24" "0 \<le> e" "e \<le> 4"
    using bd zdiv_mono1[of R 146096 36524] zdiv_mono1[of R1 36523 1461] zdiv_mono1[of R2 1460 365]
    by (simp_all add: b_def c_def e_def)
  consider "b = 4" | "b \<noteq> 4" "e = 4" | "b \<noteq> 4" "e \<noteq> 4" by blast
  then show ?thesis
  proof cases
    case 1
    then have "R1 = 0" using eqs bd by linarith
    then have n1: "n = 146097 * (N div 146097) + 36524 * 3 + 1461 * 24 + 365 * 3 + 365 + 1"
      using eqs 1 by simp
    show ?thesis by (rule that[of 3 24 3 365 "N div 146097"]) (simp_all only: n1, simp_all)
  next
    case 2
    then have "R2 mod 365 = 0" "c \<noteq> 24" using eqs bd by linarith+
    then have n1: "n = 146097 * (N div 146097) + 36524 * b + 1461 * c + 365 * 3 + 365 + 1"
      using eqs 2 by simp
    show ?thesis by (rule that[of b c 3 365 "N div 146097"])
      (use dg 2 \<open>c \<noteq> 24\<close> in \<open>simp_all only: n1, simp_all\<close>)
  next
    case 3
    then show ?thesis using dg bd eqs by (intro that[of b c e "R2 mod 365" "N div 146097"]) simp_all
  qed
qed

theorem ord2ymd_ymd2ord:
  assumes "valid_md y m d"
  shows "ord2ymd (ymd2ord y m d) = (y, m, d)"
proof -
  obtain a b c e where dg: "0 \<le> b" "b \<le> 3" "0 \<le> c" "c \<le> 24" "0 \<le> e" "e \<le> 3"
    and y: "y = 400 * a + 100 * b + 4 * c + e + 1" by (rule year_digits)
  define leap where "leap = is_leap_int y"
  have L: "leap \<longleftrightarrow> e = 3 \<and> (c \<noteq> 24 \<or> b = 3)" unfolding leap_def y by (rule leap_digits[OF dg])
  define r where "r = days_before_month leap m + d - 1"
  have v: "1 \<le> m" "m \<le> 12" "1 \<le> d" "d \<le> days_in_month_int leap m"
    using assms by (simp_all add: valid_md_def leap_def)
  have r: "0 \<le> r" "r < 365 + (if leap then 1 else 0)" using dbm_range[OF v] by (simp_all add: r_def)
  have "ymd2ord y m d = 146097 * a + 36524 * b + 1461 * c + 365 * e + r + 1"
    using dby_digits[OF dg, of a] by (simp add: ymd2ord_def y r_def leap_def)
  then show ?thesis
    using ord2ymd_digits[OF dg r L, of a] month_day_inv[OF v] by (simp add: r_def y)
qed

theorem ymd2ord_ord2ymd:
  assumes "ord2ymd n = (y, m, d)"
  shows "valid_md y m d \<and> ymd2ord y m d = n"
proof -
  obtain a b c e r where dg: "0 \<le> b" "b \<le> 3" "0 \<le> c" "c \<le> 24" "0 \<le> e" "e \<le> 3"
    and r: "0 \<le> r" "r < 365 + (if e = 3 \<and> (c \<noteq> 24 \<or> b = 3) then 1 else 0)"
    and n: "n = 146097 * a + 36524 * b + 1461 * c + 365 * e + r + 1" by (rule ord_canon)
  define leap where "leap \<longleftrightarrow> e = 3 \<and> (c \<noteq> 24 \<or> b = 3)"
  have r': "0 \<le> r" "r < 365 + (if leap then 1 else 0)" using r by (simp_all add: leap_def)
  have o: "ord2ymd n = (400 * a + 100 * b + 4 * c + e + 1, month_day leap r)"
    unfolding n by (rule ord2ymd_digits[OF dg r']) (simp add: leap_def)
  then have y: "y = 400 * a + 100 * b + 4 * c + e + 1" and md: "month_day leap r = (m, d)"
    using assms by simp_all
  have lp: "is_leap_int y = leap" unfolding y leap_def by (rule leap_digits[OF dg])
  have v: "1 \<le> m \<and> m \<le> 12 \<and> 1 \<le> d \<and> d \<le> days_in_month_int leap m \<and>
           days_before_month leap m + d - 1 = r"
    by (rule month_day_valid[OF r' md])
  have "days_before_year y = 146097 * a + 36524 * b + 1461 * c + 365 * e"
    unfolding y by (rule dby_digits[OF dg])
  then show ?thesis using v lp n by (simp add: valid_md_def ymd2ord_def)
qed

lemma ymd2ord_year_range:
  assumes "valid_md y m d"
  shows "days_before_year y < ymd2ord y m d \<and> ymd2ord y m d \<le> days_before_year (y + 1)"
proof -
  have v: "1 \<le> m" "m \<le> 12" "1 \<le> d" "d \<le> days_in_month_int (is_leap_int y) m"
    using assms by (simp_all add: valid_md_def)
  show ?thesis using dbm_range[OF v] dby_step[of y] by (simp add: ymd2ord_def split: if_splits)
qed

theorem ord2ymd_year_ge:
  "y0 \<le> fst (ord2ymd n) \<longleftrightarrow> days_before_year y0 < n"
proof -
  obtain y m d where o: "ord2ymd n = (y, m, d)" by (cases "ord2ymd n") auto
  have v: "valid_md y m d" and n: "ymd2ord y m d = n" using ymd2ord_ord2ymd[OF o] by simp_all
  have rg: "days_before_year y < n" "n \<le> days_before_year (y + 1)"
    using ymd2ord_year_range[OF v] n by simp_all
  show ?thesis
  proof
    assume "y0 \<le> fst (ord2ymd n)"
    then have "days_before_year y0 \<le> days_before_year y" using dby_mono[of y0 y] o by simp
    with rg show "days_before_year y0 < n" by simp
  next
    assume a: "days_before_year y0 < n"
    show "y0 \<le> fst (ord2ymd n)"
    proof (rule ccontr)
      assume "\<not> y0 \<le> fst (ord2ymd n)"
      then have "y + 1 \<le> y0" using o by simp
      then have "days_before_year (y + 1) \<le> days_before_year y0" using dby_mono[of "y + 1" y0] by simp
      with rg a show False by simp
    qed
  qed
qed

lemma is_leap_int_nat: "is_leap_int (int y) \<longleftrightarrow> is_leap y"
proof -
  have "int y mod int k = 0 \<longleftrightarrow> y mod k = 0" for k
    by (metis of_nat_eq_0_iff zmod_int)
  from this[of 4] this[of 100] this[of 400] show ?thesis
    by (simp add: is_leap_def is_leap_int_def)
qed

lemma days_in_month_int_nat:
  "int (days_in_month y m) = days_in_month_int (is_leap_int (int y)) (int m)"
  by (simp add: days_in_month_def days_in_month_int_def is_leap_int_nat DAYS_IN_MONTH_def)

lemma valid_datetime_int:
  assumes "1 \<le> y" "0 \<le> m" "0 \<le> d"
  shows "valid_datetime (DateTime (nat y) (nat m) (nat d) h mi s us) \<longleftrightarrow>
         y \<le> 9999 \<and> valid_md y m d \<and> h \<le> 23 \<and> mi \<le> 59 \<and> s \<le> 59 \<and> us \<le> 999999"
proof -
  have dim: "int (days_in_month (nat y) (nat m)) = days_in_month_int (is_leap_int y) m"
    using days_in_month_int_nat[of "nat y" "nat m"] assms by simp
  show ?thesis
    unfolding valid_datetime_def valid_md_def MINYEAR_def MAXYEAR_def
    using assms dim by (auto simp: nat_le_iff le_nat_iff)
qed

lemma ord2ymd_year_bounds:
  assumes "ord2ymd n = (y, m, d)" "1 \<le> n" "n \<le> 3652059"
  shows "1 \<le> y \<and> y \<le> 9999"
proof -
  have "1 \<le> fst (ord2ymd n)" using ord2ymd_year_ge[of 1 n] assms(2) by (simp add: days_before_year_def)
  moreover have "\<not> 10000 \<le> fst (ord2ymd n)"
    using ord2ymd_year_ge[of 10000 n] assms(3) by (simp add: days_before_year_def)
  ultimately show ?thesis using assms(1) by simp
qed

lemma ord2ymd_first_days: "ord2ymd 1 = (1, 1, 1)" "ord2ymd 0 = (0, 12, 31)"
  by (simp_all add: ord2ymd_def month_day_def month_eval DI400Y_def DI100Y_def DI4Y_def)

end
