(* ===== verification/FileTime.thy ===== *)
theory FileTime
  imports Calendar PyFloat PathOps
begin

text \<open>
  \<^verbatim>\<open>fileModDateTime\<close> of \<^verbatim>\<open>src/utility.py\<close>: \<^verbatim>\<open>os.path.getmtime\<close> followed by
  \<^verbatim>\<open>datetime.fromtimestamp\<close>, as CPython 3.12 runs it on Linux. The modification
  times are a parameter \<open>mtime\<close> of the file system (the value of the float
  \<^verbatim>\<open>st_mtime\<close>), and the local time zone is a fixed offset \<open>off\<close> in seconds east of
  UTC (a zone without daylight saving time). The chain is the C code of
  \<^verbatim>\<open>Modules/_datetimemodule.c\<close> and \<^verbatim>\<open>Python/pytime.c\<close>:
  \<^item> \<^verbatim>\<open>_PyTime_DoubleToDenominator\<close> splits the float into whole seconds and
    microseconds, rounding half to even (\<open>double_to_denominator\<close>), and raises
    \<^verbatim>\<open>OverflowError\<close> outside \<^verbatim>\<open>time_t\<close>;
  \<^item> glibc's \<^verbatim>\<open>localtime_r\<close> (\<open>localtime\<close>) fills a \<^verbatim>\<open>struct tm\<close> (\<open>tm\<close>),
    with the civil date of \<open>Calendar.ord2ymd\<close>, and fails with \<^verbatim>\<open>EOVERFLOW\<close>, an
    \<^verbatim>\<open>OSError\<close>, when the year does not fit an \<^verbatim>\<open>int\<close>;
  \<^item> \<^verbatim>\<open>datetime_from_timet_and_us\<close> converts the fields back to seconds
    (\<^verbatim>\<open>utc_to_seconds\<close>, which raises \<^verbatim>\<open>ValueError\<close> outside years 1 to 9999),
    probes one day earlier to detect a fold (\<^verbatim>\<open>local\<close>), and builds the datetime.
  The model's datetime has no \<^verbatim>\<open>fold\<close> attribute: the fold is computed, so that the
  probe can raise, and then dropped; in a fixed-offset zone it is always 0.
\<close>

definition getmtime :: "fsys \<Rightarrow> (string \<Rightarrow> rat) \<Rightarrow> string \<Rightarrow> rat py" where
  "getmtime fs mtime p = (case fs p of None \<Rightarrow> Inl FileNotFoundError | Some _ \<Rightarrow> Inr (mtime p))"

text \<open>
  \<^verbatim>\<open>_PyTime_DoubleToDenominator(d, &sec, &numerator, denominator, ROUND_HALF_EVEN)\<close>:
  \<^verbatim>\<open>modf\<close> splits off the integral part (toward zero); the fraction times the
  denominator is rounded to a double, then half to even; a carry moves one unit between
  the parts; the integral part must lie in \<^verbatim>\<open>time_t\<close>, whose bounds the C code
  compares as doubles (\<open>2\<^sup>6\<^sup>3 - 1\<close> becomes \<open>2\<^sup>6\<^sup>3\<close>). The product is below the
  denominator in magnitude, so its rounding is always finite.
\<close>

definition double_to_denominator :: "rat \<Rightarrow> int \<Rightarrow> (int \<times> int) py" where
  "double_to_denominator d denominator =
     (let intpart = (if 0 \<le> d then \<lfloor>d\<rfloor> else \<lceil>d\<rceil>);
          floatpart = (case to_double ((d - of_int intpart) * of_int denominator) of
                         Fin v \<Rightarrow> round_even v | _ \<Rightarrow> 0);
          (intpart, floatpart) =
            (if denominator \<le> floatpart then (intpart + 1, floatpart - denominator)
             else if floatpart < 0 then (intpart - 1, floatpart + denominator)
             else (intpart, floatpart))
      in if - (2 ^ 63) \<le> intpart \<and> intpart \<le> 2 ^ 63 then Inr (intpart, floatpart)
         else Inl OverflowError)"

text \<open>\<^verbatim>\<open>struct tm\<close>: month from 0, year from 1900.\<close>

record tm =
  tm_sec :: int
  tm_min :: int
  tm_hour :: int
  tm_mday :: int
  tm_mon :: int
  tm_year :: int

definition EPOCH_ORD :: int where "EPOCH_ORD = 719163"

definition EPOCH :: int where "EPOCH = EPOCH_ORD * 24 * 60 * 60"

definition max_fold_seconds :: int where "max_fold_seconds = 24 * 3600"

text \<open>
  glibc's \<^verbatim>\<open>__offtime(t, offset, tp)\<close> behind \<^verbatim>\<open>localtime_r\<close>: the day and the second
  of the day of \<open>t + offset\<close> (floor division), the civil date of the day (day 0 is
  1970-01-01, ordinal \<open>EPOCH_ORD\<close>), and \<^verbatim>\<open>EOVERFLOW\<close> when \<^verbatim>\<open>tm_year\<close> overflows.
  \<^verbatim>\<open>_PyTime_localtime\<close> turns the failure into \<^verbatim>\<open>OSError\<close>.
\<close>

definition localtime :: "int \<Rightarrow> int \<Rightarrow> tm py" where
  "localtime off t =
     (let days = (t + off) div 86400; rem = (t + off) mod 86400;
          (y, m, d) = ord2ymd (days + EPOCH_ORD)
      in if - (2 ^ 31) \<le> y - 1900 \<and> y - 1900 < 2 ^ 31
         then Inr \<lparr>tm_sec = rem mod 60, tm_min = rem mod 3600 div 60, tm_hour = rem div 3600,
                   tm_mday = d, tm_mon = m - 1, tm_year = y - 1900\<rparr>
         else Inl OSError)"

definition utc_to_seconds :: "int \<Rightarrow> int \<Rightarrow> int \<Rightarrow> int \<Rightarrow> int \<Rightarrow> int \<Rightarrow> int py" where
  "utc_to_seconds year month day hour minute second =
     (if year < int MINYEAR \<or> year > int MAXYEAR then Inl ValueError
      else Inr (((ymd2ord year month day * 24 + hour) * 60 + minute) * 60 + second))"

definition tm_seconds :: "tm \<Rightarrow> int py" where
  "tm_seconds tm = utc_to_seconds (tm_year tm + 1900) (tm_mon tm + 1) (tm_mday tm)
                     (tm_hour tm) (tm_min tm) (tm_sec tm)"

definition local :: "int \<Rightarrow> int \<Rightarrow> int py" where
  "local off u = py_bind (localtime off (u - EPOCH)) tm_seconds"

definition datetime_from_timet_and_us :: "int \<Rightarrow> int \<Rightarrow> int \<Rightarrow> datetime py" where
  "datetime_from_timet_and_us off timet us =
     py_bind (localtime off timet) (\<lambda>tm.
       let year = tm_year tm + 1900; month = tm_mon tm + 1; day = tm_mday tm;
           hour = tm_hour tm; minute = tm_min tm; second = min 59 (tm_sec tm)
       in py_bind (utc_to_seconds year month day hour minute second) (\<lambda>result_seconds.
          py_bind (local off (EPOCH + timet - max_fold_seconds)) (\<lambda>probe_seconds.
          let transition = result_seconds - probe_seconds - max_fold_seconds
          in py_bind (if transition < 0
                      then py_bind (local off (EPOCH + timet + transition))
                             (\<lambda>p. Inr (p = result_seconds))
                      else Inr False) (\<lambda>fold.
             mk_datetime (nat year) (nat month) (nat day) (nat hour) (nat minute) (nat second)
               (nat us)))))"

definition fromtimestamp :: "int \<Rightarrow> rat \<Rightarrow> datetime py" where
  "fromtimestamp off t =
     py_bind (double_to_denominator t 1000000) (\<lambda>(timet, us). datetime_from_timet_and_us off timet us)"

definition fileModDateTime :: "fsys \<Rightarrow> (string \<Rightarrow> rat) \<Rightarrow> int \<Rightarrow> string \<Rightarrow> datetime py" where
  "fileModDateTime fs mtime off filepath =
     py_bind (getmtime fs mtime filepath) (\<lambda>t. fromtimestamp off t)"

text \<open>The POSIX timestamp of a naive datetime read as local time in the zone \<open>off\<close>.\<close>

definition local_timestamp :: "int \<Rightarrow> datetime \<Rightarrow> rat" where
  "local_timestamp off dt =
     of_int ((ymd2ord (int (dt_year dt)) (int (dt_month dt)) (int (dt_day dt)) - EPOCH_ORD) * 86400
             + int (dt_hour dt) * 3600 + int (dt_minute dt) * 60 + int (dt_second dt) - off)
     + of_nat (dt_microsecond dt) / 1000000"

lemma hms_split:
  fixes r :: int
  shows "r div 3600 * 3600 + r mod 3600 div 60 * 60 + r mod 60 = r"
proof -
  have "r mod 3600 mod 60 = r mod 60" by (rule mod_mod_cancel) simp
  then have "r mod 3600 = r mod 3600 div 60 * 60 + r mod 60" by (metis div_mult_mod_eq)
  then show ?thesis by (metis add.assoc div_mult_mod_eq)
qed

lemma localtime_in_range:
  assumes "ord2ymd ((t + off) div 86400 + EPOCH_ORD) = (y, m, d)" "1 \<le> y" "y \<le> 9999"
  shows "localtime off t =
           Inr \<lparr>tm_sec = (t + off) mod 86400 mod 60, tm_min = (t + off) mod 86400 mod 3600 div 60,
                tm_hour = (t + off) mod 86400 div 3600, tm_mday = d, tm_mon = m - 1,
                tm_year = y - 1900\<rparr>"
  using assms by (simp add: localtime_def Let_def)

lemma utc_to_seconds_in_range:
  assumes "ord2ymd ((t + off) div 86400 + EPOCH_ORD) = (y, m, d)" "1 \<le> y" "y \<le> 9999"
  defines "r \<equiv> (t + off) mod 86400"
  shows "utc_to_seconds y m d (r div 3600) (r mod 3600 div 60) (r mod 60) = Inr (EPOCH + t + off)"
proof -
  define n where "n = (t + off) div 86400 + EPOCH_ORD"
  have o: "ymd2ord y m d = n" using ymd2ord_ord2ymd[of n y m d] assms(1) by (simp add: n_def)
  have "((n * 24 + r div 3600) * 60 + r mod 3600 div 60) * 60 + r mod 60 =
        n * 86400 + (r div 3600 * 3600 + r mod 3600 div 60 * 60 + r mod 60)"
    by (simp add: algebra_simps)
  also have "\<dots> = n * 86400 + r" by (simp only: hms_split)
  also have "\<dots> = EPOCH + t + off"
    unfolding n_def r_def EPOCH_def by (simp add: algebra_simps)
  finally show ?thesis using assms(2,3) o by (simp add: utc_to_seconds_def MINYEAR_def MAXYEAR_def)
qed

lemma local_in_range:
  assumes "ord2ymd ((u - EPOCH + off) div 86400 + EPOCH_ORD) = (y, m, d)" "1 \<le> y" "y \<le> 9999"
  shows "local off u = Inr (u + off)"
  using localtime_in_range[OF assms] utc_to_seconds_in_range[OF assms]
  by (simp add: local_def tm_seconds_def)

lemma datetime_from_timet_and_us_ok:
  assumes n: "(timet + off) div 86400 + EPOCH_ORD = n" "2 \<le> n" "n \<le> 3652059"
    and o: "ord2ymd n = (y, m, d)" and us: "0 \<le> us" "us < 1000000"
  defines "r \<equiv> (timet + off) mod 86400"
  shows "datetime_from_timet_and_us off timet us =
           Inr (DateTime (nat y) (nat m) (nat d) (nat (r div 3600)) (nat (r mod 3600 div 60))
                  (nat (r mod 60)) (nat us)) \<and>
         valid_datetime (DateTime (nat y) (nat m) (nat d) (nat (r div 3600))
                  (nat (r mod 3600 div 60)) (nat (r mod 60)) (nat us))"
proof -
  have yr: "1 \<le> y" "y \<le> 9999" using ord2ymd_year_bounds[OF o] n by simp_all
  have o1: "ord2ymd ((timet + off) div 86400 + EPOCH_ORD) = (y, m, d)" using o n by simp
  obtain y' m' d' where o': "ord2ymd (n - 1) = (y', m', d')" by (cases "ord2ymd (n - 1)") auto
  have yr': "1 \<le> y'" "y' \<le> 9999" using ord2ymd_year_bounds[OF o'] n by simp_all
  have pe: "EPOCH + timet - max_fold_seconds - EPOCH + off = timet + off + (- 1) * 86400"
    by (simp add: max_fold_seconds_def)
  have pd: "(timet + off + (- 1) * 86400) div 86400 = - 1 + (timet + off) div 86400"
    by (rule div_mult_self1) simp
  have "(EPOCH + timet - max_fold_seconds - EPOCH + off) div 86400 + EPOCH_ORD = n - 1"
    unfolding pe pd using n(1) by simp
  then have probe: "local off (EPOCH + timet - max_fold_seconds) = Inr (EPOCH + timet - max_fold_seconds + off)"
    using local_in_range[of "EPOCH + timet - max_fold_seconds" off y' m' d'] o' yr' by simp
  have v: "valid_md y m d" using ymd2ord_ord2ymd[OF o] by simp
  have r: "0 \<le> r" "r < 86400" by (simp_all add: r_def)
  have h: "r div 3600 \<le> 23" using r by linarith
  have mi: "0 \<le> r mod 3600 div 60" "r mod 3600 div 60 \<le> 59" by linarith+
  have s: "0 \<le> r mod 60" "r mod 60 \<le> 59" "min 59 (r mod 60) = r mod 60" by linarith+
  have md: "1 \<le> m" "1 \<le> d" using v by (simp_all add: valid_md_def)
  have valid: "valid_datetime (DateTime (nat y) (nat m) (nat d) (nat (r div 3600))
                 (nat (r mod 3600 div 60)) (nat (r mod 60)) (nat us))"
    using valid_datetime_int[of y m d] yr v md h mi s us r by (simp add: nat_le_iff)
  have "datetime_from_timet_and_us off timet us =
           Inr (DateTime (nat y) (nat m) (nat d) (nat (r div 3600)) (nat (r mod 3600 div 60))
                  (nat (r mod 60)) (nat us))"
    unfolding datetime_from_timet_and_us_def localtime_in_range[OF o1 yr]
    using utc_to_seconds_in_range[OF o1 yr] probe valid yr md
    by (simp add: Let_def r_def[symmetric] s(3) mk_datetime_cases max_fold_seconds_def)
  with valid show ?thesis by simp
qed

lemma double_to_denominator_exact:
  assumes "0 \<le> u" "u < 1000000" "- (2 ^ 63) \<le> I" "I \<le> 2 ^ 63"
  shows "double_to_denominator (of_int I + of_int u / 1000000) 1000000 = Inr (I, u)"
proof -
  define t :: rat where "t = of_int I + of_int u / 1000000"
  have u: "0 \<le> (of_int u :: rat) / 1000000" "(of_int u :: rat) / 1000000 < 1" using assms by simp_all
  have td: "\<bar>k\<bar> < 2 ^ 53 \<Longrightarrow> to_double (of_int k) = Fin (of_int k)" for k by (rule to_double_int)
  consider (pos) "0 \<le> I" | (zero) "I < 0" "u = 0" | (neg) "I < 0" "0 < u" using assms by linarith
  then have "double_to_denominator t 1000000 = Inr (I, u)"
  proof cases
    case pos
    have t0: "0 \<le> t" using pos u by (simp add: t_def)
    have fl: "\<lfloor>t\<rfloor> = I" using u by (simp add: t_def floor_eq_iff)
    have fr: "(t - of_int I) * of_int 1000000 = of_int u" by (simp add: t_def)
    have tdu: "to_double (of_int u) = Fin (of_int u)" using td[of u] assms by simp
    show ?thesis using assms unfolding double_to_denominator_def Let_def if_P[OF t0] fl fr tdu
      pyfloat.case round_even_of_int by simp
  next
    case zero
    have t0: "\<not> 0 \<le> t" "\<lceil>t\<rceil> = I" using zero by (simp_all add: t_def)
    show ?thesis using t0 zero assms
      by (simp add: double_to_denominator_def Let_def t_def to_double_def)
  next
    case neg
    have t0: "\<not> 0 \<le> t" using neg u by (simp add: t_def)
    have cl: "\<lceil>t\<rceil> = I + 1" using u neg by (simp add: t_def ceiling_eq_iff)
    have fr: "(t - of_int (I + 1)) * of_int 1000000 = of_int (u - 1000000)"
      by (simp add: t_def algebra_simps)
    have tdu: "to_double (of_int (u - 1000000)) = Fin (of_int (u - 1000000))"
      using td[of "u - 1000000"] assms by simp
    show ?thesis using assms neg
      unfolding double_to_denominator_def Let_def if_not_P[OF t0] cl fr tdu pyfloat.case
        round_even_of_int by simp
  qed
  then show ?thesis by (simp add: t_def)
qed

lemma double_to_denominator_bounded:
  assumes "\<bar>t\<bar> \<le> 2 ^ 62"
  shows "\<exists>i us. double_to_denominator t 1000000 = Inr (i, us) \<and> 0 \<le> us \<and> us < 1000000 \<and>
                t - 1 < of_int i \<and> of_int i \<le> t + 1"
proof (cases "0 \<le> t")
  case True
  define i0 where "i0 = \<lfloor>t\<rfloor>"
  define x where "x = (t - of_int i0) * of_int 1000000"
  have i0: "t - 1 < of_int i0" "of_int i0 \<le> t" by (simp_all add: i0_def) linarith
  have x: "0 \<le> x" "\<bar>x\<bar> \<le> of_nat 1000000" using i0 by (simp_all add: x_def)
  obtain v where v: "to_double x = Fin v" "\<bar>v\<bar> \<le> 1000000" "0 \<le> v"
    using to_double_bounded[of x 1000000] x by auto
  define fp where "fp = round_even v"
  have fp: "0 \<le> fp" "fp \<le> 1000000"
    using round_even_nonneg[of v] round_even_le_int[of v 1000000] v by (simp_all add: fp_def)
  have "(of_int (- (2 ^ 63)) :: rat) \<le> of_int i0" "(of_int (i0 + 1) :: rat) \<le> of_int (2 ^ 63)"
    using i0 assms by (simp_all add: abs_le_iff)
  then have rg: "- (2 ^ 63) \<le> i0" "i0 + 1 \<le> 2 ^ 63" by (simp_all only: of_int_le_iff)
  have "double_to_denominator t 1000000 =
          (if 1000000 \<le> fp then Inr (i0 + 1, fp - 1000000) else Inr (i0, fp))"
    using fp rg unfolding double_to_denominator_def Let_def if_P[OF True] i0_def[symmetric]
      x_def[symmetric] v(1) pyfloat.case fp_def[symmetric] by simp
  then show ?thesis using fp i0 by (cases "1000000 \<le> fp") auto
next
  case False
  define i0 where "i0 = \<lceil>t\<rceil>"
  define x where "x = (t - of_int i0) * of_int 1000000"
  have i0: "t \<le> of_int i0" "of_int i0 < t + 1" by (simp_all add: i0_def) linarith
  have x: "x \<le> 0" "\<bar>x\<bar> \<le> of_nat 1000000" using i0 by (simp_all add: x_def)
  obtain v where v: "to_double x = Fin v" "\<bar>v\<bar> \<le> 1000000" "v \<le> 0" "0 \<le> x \<longrightarrow> 0 \<le> v"
    using to_double_bounded[of x 1000000] x by auto
  define fp where "fp = round_even v"
  have fp: "- 1000000 \<le> fp" "fp \<le> 0"
    using round_even_ge_int[of "- 1000000" v] round_even_le_int[of v 0] v by (simp_all add: fp_def)
  have strict: "fp < 0 \<Longrightarrow> t < of_int i0"
  proof (rule ccontr)
    assume "fp < 0" "\<not> t < of_int i0"
    then have "x = 0" using i0 by (simp add: x_def)
    then have "fp = 0" using v by (simp add: fp_def to_double_def)
    with \<open>fp < 0\<close> show False by simp
  qed
  have "(of_int (- (2 ^ 63)) :: rat) \<le> of_int (i0 - 1)" "(of_int i0 :: rat) \<le> of_int (2 ^ 63)"
    using i0 assms by (simp_all add: abs_le_iff)
  then have rg: "- (2 ^ 63) \<le> i0 - 1" "i0 \<le> 2 ^ 63" by (simp_all only: of_int_le_iff)
  have "double_to_denominator t 1000000 =
          (if fp < 0 then Inr (i0 - 1, fp + 1000000) else Inr (i0, fp))"
    using fp rg unfolding double_to_denominator_def Let_def if_not_P[OF False] i0_def[symmetric]
      x_def[symmetric] v(1) pyfloat.case fp_def[symmetric] by simp
  then show ?thesis using fp i0 strict by (cases "fp < 0") auto
qed

lemma local_day_of_seconds:
  assumes "0 \<le> secs" "secs < 86400"
  shows "((n - EPOCH_ORD) * 86400 + secs - off + off) div 86400 + EPOCH_ORD = n"
        "((n - EPOCH_ORD) * 86400 + secs - off + off) mod 86400 = secs"
proof -
  have e: "(n - EPOCH_ORD) * 86400 + secs - off + off = 86400 * (n - EPOCH_ORD) + secs" by simp
  show "((n - EPOCH_ORD) * 86400 + secs - off + off) div 86400 + EPOCH_ORD = n"
    unfolding e digit_div(1)[OF assms] by simp
  show "((n - EPOCH_ORD) * 86400 + secs - off + off) mod 86400 = secs"
    unfolding e digit_div(2)[OF assms] ..
qed

lemma hms_of_seconds:
  fixes h mi s :: int
  assumes "0 \<le> mi" "mi \<le> 59" "0 \<le> s" "s \<le> 59"
  shows "(h * 3600 + mi * 60 + s) div 3600 = h" "(h * 3600 + mi * 60 + s) mod 3600 div 60 = mi"
        "(h * 3600 + mi * 60 + s) mod 60 = s"
proof -
  have a: "0 \<le> mi * 60 + s" "mi * 60 + s < 3600" "0 \<le> s" "s < 60" using assms by linarith+
  have e1: "h * 3600 + mi * 60 + s = 3600 * h + (mi * 60 + s)" by simp
  have e2: "mi * 60 + s = 60 * mi + s" by simp
  have e3: "h * 3600 + mi * 60 + s = 60 * (h * 60 + mi) + s" by simp
  show "(h * 3600 + mi * 60 + s) div 3600 = h" unfolding e1 digit_div(1)[OF a(1,2)] ..
  have m: "(h * 3600 + mi * 60 + s) mod 3600 = mi * 60 + s" unfolding e1 digit_div(2)[OF a(1,2)] ..
  show "(h * 3600 + mi * 60 + s) mod 3600 div 60 = mi"
    by (simp only: m e2 digit_div(1)[OF a(3,4)])
  show "(h * 3600 + mi * 60 + s) mod 60 = s" unfolding e3 digit_div(2)[OF a(3,4)] ..
qed

lemma ymd2ord_valid_range:
  assumes "valid_md y m d" "1 \<le> y" "y \<le> 9999" "(y, m, d) \<noteq> (1, 1, 1)"
  shows "2 \<le> ymd2ord y m d \<and> ymd2ord y m d \<le> 3652059"
proof -
  have r: "days_before_year y < ymd2ord y m d" "ymd2ord y m d \<le> days_before_year (y + 1)"
    using ymd2ord_year_range[OF assms(1)] by simp_all
  have "days_before_year 1 \<le> days_before_year y" using dby_mono[of 1 y] assms(2) by simp
  then have n1: "1 \<le> ymd2ord y m d" using r by (simp add: days_before_year_def)
  have "ymd2ord y m d \<noteq> 1"
  proof
    assume "ymd2ord y m d = 1"
    then have "ord2ymd 1 = (y, m, d)" using ord2ymd_ymd2ord[OF assms(1)] by simp
    with ord2ymd_first_days(1) assms(4) show False by simp
  qed
  moreover have "days_before_year (y + 1) \<le> days_before_year 10000"
    using dby_mono[of "y + 1" 10000] assms(3) by simp
  ultimately show ?thesis using n1 r by (simp add: days_before_year_def)
qed

lemma localtime_Inl: "localtime off t = Inl e \<Longrightarrow> e = OSError"
  by (auto simp: localtime_def Let_def split: prod.splits if_splits)

lemma utc_to_seconds_Inl: "utc_to_seconds y m d h mi s = Inl e \<Longrightarrow> e = ValueError"
  by (simp add: utc_to_seconds_def split: if_splits)

lemma local_Inl: "local off u = Inl e \<Longrightarrow> e = OSError \<or> e = ValueError"
  by (auto simp: local_def py_bind_def tm_seconds_def split: sum.splits dest: localtime_Inl utc_to_seconds_Inl)

lemma double_to_denominator_Inl: "double_to_denominator d k = Inl e \<Longrightarrow> e = OverflowError"
  by (auto simp: double_to_denominator_def Let_def split: prod.splits if_splits)

lemma datetime_from_timet_and_us_Inl:
  "datetime_from_timet_and_us off timet us = Inl e \<Longrightarrow> e \<in> {OSError, ValueError}"
  unfolding datetime_from_timet_and_us_def Let_def
  by (auto simp: py_bind_def split: sum.splits if_splits
           dest: localtime_Inl utc_to_seconds_Inl local_Inl mk_datetime_error)

lemma split_in_days:
  assumes "\<bar>t\<bar> \<le> 2 ^ 62" "of_int (L * 86400) + 1 \<le> t + of_int off"
    and "t + of_int off + 1 < of_int (H * 86400)"
  shows "\<exists>i us. double_to_denominator t 1000000 = Inr (i, us) \<and> 0 \<le> us \<and> us < 1000000 \<and>
                L \<le> (i + off) div 86400 \<and> (i + off) div 86400 < H"
proof -
  obtain i us where dd: "double_to_denominator t 1000000 = Inr (i, us)"
    and us: "0 \<le> us" "us < 1000000" and i: "t - 1 < of_int i" "of_int i \<le> t + 1"
    using double_to_denominator_bounded[OF assms(1)] by blast
  have "(of_int (L * 86400) :: rat) < of_int (i + off)" "(of_int (i + off) :: rat) < of_int (H * 86400)"
    using assms(2,3) i by simp_all
  then have lo: "L * 86400 \<le> i + off" and hi: "i + off \<le> H * 86400 - 1"
    by (simp_all only: of_int_less_iff)
  have "L * 86400 div 86400 \<le> (i + off) div 86400" by (rule zdiv_mono1[OF lo]) simp
  moreover have "(i + off) div 86400 \<le> (H * 86400 - 1) div 86400" by (rule zdiv_mono1[OF hi]) simp
  moreover have "(H * 86400 - 1) div 86400 = H - 1"
  proof -
    have "H * 86400 - 1 = 86400 * (H - 1) + 86399" by simp
    then show ?thesis using digit_div(1)[of 86399 86400 "H - 1"] by simp
  qed
  ultimately show ?thesis using dd us by auto
qed

lemma local_year_zero:
  "ord2ymd ((u - EPOCH + off) div 86400 + EPOCH_ORD) = (0, m, d) \<Longrightarrow> local off u = Inl ValueError"
  by (simp add: local_def localtime_def Let_def tm_seconds_def utc_to_seconds_def MINYEAR_def)

text \<open>
  C9: Reading back a timestamp. For an existing file whose modification time is the
  POSIX timestamp of a valid datetime read as local time (in a zone at most a day from
  UTC), \<^verbatim>\<open>fileModDateTime\<close> returns exactly that datetime, microseconds included,
  for every date from 0001-01-02 to 9999-12-31.
\<close>

theorem fileModDateTime_roundtrip:
  assumes "valid_datetime dt" "(dt_year dt, dt_month dt, dt_day dt) \<noteq> (1, 1, 1)"
    and "fs p \<noteq> None" "mtime p = local_timestamp off dt" "\<bar>off\<bar> \<le> 86400"
  shows "fileModDateTime fs mtime off p = Inr dt"
proof -
  obtain Y M D h mi s us where dt: "dt = DateTime Y M D h mi s us" by (cases dt)
  have v: "valid_md (int Y) (int M) (int D)" "1 \<le> int Y" "int Y \<le> 9999" "h \<le> 23" "mi \<le> 59"
    "s \<le> 59" "us \<le> 999999"
    using assms(1) valid_datetime_int[of "int Y" "int M" "int D" h mi s us]
    by (auto simp: dt valid_datetime_def MINYEAR_def)
  define n where "n = ymd2ord (int Y) (int M) (int D)"
  have o: "ord2ymd n = (int Y, int M, int D)" using ord2ymd_ymd2ord[OF v(1)] by (simp add: n_def)
  have nr: "2 \<le> n" "n \<le> 3652059"
    using ymd2ord_valid_range[OF v(1-3)] assms(2) by (simp_all add: dt n_def)
  define secs where "secs = int h * 3600 + int mi * 60 + int s"
  have sb: "0 \<le> secs" "secs < 86400" using v by (simp_all add: secs_def)
  define I where "I = (n - EPOCH_ORD) * 86400 + secs - off"
  have ts: "mtime p = of_int I + of_int (int us) / 1000000"
    using assms(4) by (simp add: local_timestamp_def dt n_def I_def secs_def algebra_simps)
  have "- (2 ^ 63) \<le> I" "I \<le> 2 ^ 63" using nr sb assms(5) by (simp_all add: I_def EPOCH_ORD_def)
  then have dd: "double_to_denominator (mtime p) 1000000 = Inr (I, int us)"
    unfolding ts using v(7) by (intro double_to_denominator_exact) simp_all
  have day: "(I + off) div 86400 + EPOCH_ORD = n" "(I + off) mod 86400 = secs"
    unfolding I_def using local_day_of_seconds[OF sb] by simp_all
  have hms: "secs div 3600 = int h" "secs mod 3600 div 60 = int mi" "secs mod 60 = int s"
    using hms_of_seconds[of "int mi" "int s" "int h"] v by (simp_all add: secs_def)
  have "datetime_from_timet_and_us off I (int us) = Inr dt"
    using datetime_from_timet_and_us_ok[OF day(1) nr o, of "int us"] v(7)
    by (simp add: day(2) hms dt)
  then show ?thesis
    using assms(3) dd by (auto simp: fileModDateTime_def getmtime_def fromtimestamp_def)
qed

theorem fileModDateTime_roundtrip_witness:
  "fileModDateTime [''/p/img.jpg'' \<mapsto> File ''x'']
      (\<lambda>_. local_timestamp 3600 (DateTime 2017 5 4 12 30 15 500000)) 3600 ''/p/img.jpg''
    = Inr (DateTime 2017 5 4 12 30 15 500000)"
  by (rule fileModDateTime_roundtrip)
     (simp_all add: valid_datetime_def MINYEAR_def MAXYEAR_def days_in_month_def
        DAYS_IN_MONTH_def is_leap_def)

text \<open>
  C16: \<^verbatim>\<open>fileModDateTime\<close> is well typed on its whole range. For an existing file
  whose local modification time lies between 0001-01-02 and 9999-12-31 (with a second
  of margin at both ends for the rounding of microseconds) in a zone at most a day from
  UTC, the call raises nothing and returns a valid datetime: every field is within the
  bounds the \<^verbatim>\<open>datetime\<close> constructor checks.
\<close>

theorem fileModDateTime_valid:
  assumes "fs p \<noteq> None" "\<bar>off\<bar> \<le> 86400"
    and "of_int ((2 - EPOCH_ORD) * 86400) + 1 \<le> mtime p + of_int off"
    and "mtime p + of_int off + 1 < of_int ((3652060 - EPOCH_ORD) * 86400)"
  shows "\<exists>dt. fileModDateTime fs mtime off p = Inr dt \<and> valid_datetime dt"
proof -
  have "\<bar>mtime p\<bar> \<le> 2 ^ 62" using assms(2-4) unfolding EPOCH_ORD_def by (simp add: abs_le_iff)
  then obtain i us where dd: "double_to_denominator (mtime p) 1000000 = Inr (i, us)"
    and us: "0 \<le> us" "us < 1000000"
    and day: "2 - EPOCH_ORD \<le> (i + off) div 86400" "(i + off) div 86400 < 3652060 - EPOCH_ORD"
    using split_in_days[OF _ assms(3,4)] by blast
  define n where "n = (i + off) div 86400 + EPOCH_ORD"
  have nr: "2 \<le> n" "n \<le> 3652059" using day by (simp_all add: n_def)
  obtain y m d where o: "ord2ymd n = (y, m, d)" by (cases "ord2ymd n") auto
  obtain dt where "datetime_from_timet_and_us off i us = Inr dt" "valid_datetime dt"
    using datetime_from_timet_and_us_ok[OF n_def[symmetric] nr o us] by blast
  then show ?thesis
    using assms(1) dd by (auto simp: fileModDateTime_def getmtime_def fromtimestamp_def)
qed

theorem fileModDateTime_valid_witness:
  "[''/p/img.jpg'' \<mapsto> File ''x''] ''/p/img.jpg'' \<noteq> None \<and> \<bar>3600 :: int\<bar> \<le> 86400 \<and>
   of_int ((2 - EPOCH_ORD) * 86400) + 1 \<le> (1500000000 + 1 / 2 :: rat) + of_int 3600 \<and>
   (1500000000 + 1 / 2 :: rat) + of_int 3600 + 1 < of_int ((3652060 - EPOCH_ORD) * 86400) \<and>
   (\<exists>dt. fileModDateTime [''/p/img.jpg'' \<mapsto> File ''x''] (\<lambda>_. 1500000000 + 1 / 2) 3600 ''/p/img.jpg''
      = Inr dt \<and> valid_datetime dt)"
  using fileModDateTime_valid[of "[''/p/img.jpg'' \<mapsto> File ''x'']" "''/p/img.jpg''" 3600
      "\<lambda>_. 1500000000 + 1 / 2"]
  by (simp add: EPOCH_ORD_def)

text \<open>
  C14: the first day of the calendar cannot be read back. For an existing file whose local
  modification time lies on 0001-01-01 (a second away from its ends, for the rounding of
  microseconds), \<^verbatim>\<open>fileModDateTime\<close> raises \<^verbatim>\<open>ValueError\<close>, although that datetime
  is valid: the fold probe one day earlier falls in year 0, which \<^verbatim>\<open>utc_to_seconds\<close>
  refuses.
\<close>

theorem fileModDateTime_first_day:
  assumes "fs p \<noteq> None" "\<bar>off\<bar> \<le> 86400"
    and "of_int ((1 - EPOCH_ORD) * 86400) + 1 \<le> mtime p + of_int off"
    and "mtime p + of_int off + 1 < of_int ((2 - EPOCH_ORD) * 86400)"
  shows "fileModDateTime fs mtime off p = Inl ValueError"
proof -
  have "\<bar>mtime p\<bar> \<le> 2 ^ 62" using assms(2-4) unfolding EPOCH_ORD_def by (simp add: abs_le_iff)
  then obtain i us where dd: "double_to_denominator (mtime p) 1000000 = Inr (i, us)"
    and day: "1 - EPOCH_ORD \<le> (i + off) div 86400" "(i + off) div 86400 < 2 - EPOCH_ORD"
    using split_in_days[OF _ assms(3,4)] by blast
  have n: "(i + off) div 86400 + EPOCH_ORD = 1" using day by simp
  have o1: "ord2ymd ((i + off) div 86400 + EPOCH_ORD) = (1, 1, 1)" using n ord2ymd_first_days by simp
  have pe: "EPOCH + i - max_fold_seconds - EPOCH + off = i + off + (- 1) * 86400"
    by (simp add: max_fold_seconds_def)
  have pd: "(i + off + (- 1) * 86400) div 86400 = - 1 + (i + off) div 86400"
    by (rule div_mult_self1) simp
  have n0: "- 1 + (i + off) div 86400 + EPOCH_ORD = 0" using n by simp
  have "ord2ymd ((EPOCH + i - max_fold_seconds - EPOCH + off) div 86400 + EPOCH_ORD) = (0, 12, 31)"
    unfolding pe pd n0 by (rule ord2ymd_first_days(2))
  then have probe: "local off (EPOCH + i - max_fold_seconds) = Inl ValueError" by (rule local_year_zero)
  have lt: "localtime off i =
           Inr \<lparr>tm_sec = (i + off) mod 86400 mod 60, tm_min = (i + off) mod 86400 mod 3600 div 60,
                tm_hour = (i + off) mod 86400 div 3600, tm_mday = 1, tm_mon = 1 - 1,
                tm_year = 1 - 1900\<rparr>"
    by (rule localtime_in_range[OF o1]) simp_all
  have sm: "min 59 ((i + off) mod 86400 mod 60) = (i + off) mod 86400 mod 60" by linarith
  have "datetime_from_timet_and_us off i us = Inl ValueError"
    unfolding datetime_from_timet_and_us_def lt
    using utc_to_seconds_in_range[OF o1] probe by (simp add: Let_def sm)
  then show ?thesis using assms(1) dd by (auto simp: fileModDateTime_def getmtime_def fromtimestamp_def)
qed

theorem fileModDateTime_first_day_witness:
  "[''/p/img.jpg'' \<mapsto> File ''x''] ''/p/img.jpg'' \<noteq> None \<and> \<bar>0 :: int\<bar> \<le> 86400 \<and>
   of_int ((1 - EPOCH_ORD) * 86400) + 1 \<le> (- 62135553600 :: rat) + of_int 0 \<and>
   (- 62135553600 :: rat) + of_int 0 + 1 < of_int ((2 - EPOCH_ORD) * 86400) \<and>
   fileModDateTime [''/p/img.jpg'' \<mapsto> File ''x''] (\<lambda>_. - 62135553600) 0 ''/p/img.jpg'' = Inl ValueError"
  using fileModDateTime_first_day[of "[''/p/img.jpg'' \<mapsto> File ''x'']" "''/p/img.jpg''" 0
      "\<lambda>_. - 62135553600"]
  by (simp add: EPOCH_ORD_def)

text \<open>
  C19: the exceptions of \<^verbatim>\<open>fileModDateTime\<close>. A missing file raises
  \<^verbatim>\<open>FileNotFoundError\<close> (from \<^verbatim>\<open>os.stat\<close>); for an existing file the call raises only
  \<^verbatim>\<open>OverflowError\<close> (a time outside \<^verbatim>\<open>time_t\<close>), \<^verbatim>\<open>OSError\<close> (a year that
  \<^verbatim>\<open>localtime\<close> cannot represent) or \<^verbatim>\<open>ValueError\<close> (a year outside 1 to 9999).
\<close>

theorem fileModDateTime_errors:
  "(fs p = None \<longrightarrow> fileModDateTime fs mtime off p = Inl FileNotFoundError) \<and>
   (fs p \<noteq> None \<longrightarrow> fileModDateTime fs mtime off p = Inl e \<longrightarrow> e \<in> {OverflowError, OSError, ValueError})"
  by (auto simp: fileModDateTime_def getmtime_def fromtimestamp_def py_bind_def
           split: option.splits sum.splits prod.splits
           dest: double_to_denominator_Inl datetime_from_timet_and_us_Inl)

theorem fileModDateTime_errors_witness:
  "[''/p/img.jpg'' \<mapsto> File ''x''] ''/q.jpg'' = None \<and>
   fileModDateTime [''/p/img.jpg'' \<mapsto> File ''x''] (\<lambda>_. 0) 0 ''/q.jpg'' = Inl FileNotFoundError \<and>
   [''/p/img.jpg'' \<mapsto> File ''x''] ''/p/img.jpg'' \<noteq> None \<and>
   fileModDateTime [''/p/img.jpg'' \<mapsto> File ''x''] (\<lambda>_. 2 ^ 64) 0 ''/p/img.jpg'' = Inl OverflowError \<and>
   OverflowError \<in> {OverflowError, OSError, ValueError}"
proof -
  have o: "fileModDateTime [''/p/img.jpg'' \<mapsto> File ''x''] (\<lambda>_. 2 ^ 64) 0 ''/p/img.jpg'' = Inl OverflowError"
    by (simp add: fileModDateTime_def getmtime_def fromtimestamp_def double_to_denominator_def
                  to_double_def)
  show ?thesis
    using fileModDateTime_errors[of "[''/p/img.jpg'' \<mapsto> File ''x'']" "''/q.jpg''" "\<lambda>_. 0" 0]
      fileModDateTime_errors[of "[''/p/img.jpg'' \<mapsto> File ''x'']" "''/p/img.jpg''" "\<lambda>_. 2 ^ 64" 0 OverflowError]
      o by simp
qed

end
