(* ===== verification/AsdFile.thy ===== *)
theory AsdFile
  imports Csv PyFloat PathOps
begin

text \<open>
  The spectral data reader of \<^verbatim>\<open>src/utility_data.py\<close>: \<open>loadASDFile\<close> returns two empty
  lists for a missing file and otherwise the two columns of
  \<^verbatim>\<open>np.loadtxt(filepath, skiprows=1, unpack=True)\<close>. The numpy reader is library code and
  is modelled from its documented behaviour: universal newlines (\<open>Csv.file_lines\<close>), the
  first line skipped, \<^verbatim>\<open>#\<close> comments cut, whitespace-separated fields, empty rows
  dropped, a changed column count a \<^verbatim>\<open>ValueError\<close>, fields parsed as \<^verbatim>\<open>float()\<close>
  without underscores, the array squeezed of its length-one axes and transposed, and
  the result unpacked into two values along its first axis.
\<close>

section \<open>numpy.loadtxt\<close>

text \<open>Fields of a line: runs of non-whitespace characters, in order.\<close>

fun split_ws_acc :: "string \<Rightarrow> string \<Rightarrow> string list" where
  "split_ws_acc acc [] = (if acc = [] then [] else [rev acc])"
| "split_ws_acc acc (c # cs) =
     (if py_isspace c then (if acc = [] then split_ws_acc [] cs else rev acc # split_ws_acc [] cs)
      else split_ws_acc (c # acc) cs)"

definition line_fields :: "string \<Rightarrow> string list" where
  "line_fields l = split_ws_acc [] (takeWhile (\<lambda>c. c \<noteq> CHR ''#'') l)"

text \<open>The rows that hold data, after \<^verbatim>\<open>skiprows=1\<close>; a row without fields is skipped.\<close>

definition loadtxt_rows :: "string \<Rightarrow> string list list" where
  "loadtxt_rows text = filter (\<lambda>r. r \<noteq> []) (map line_fields (drop 1 (file_lines text)))"

text \<open>numpy's conversion of a field to a double: \<^verbatim>\<open>float()\<close> without the underscores
  that Python's parser accepts.\<close>

definition np_float :: "string \<Rightarrow> pyfloat py" where
  "np_float s = (if CHR ''_'' \<in> set s then Inl ValueError else float_inner s)"

fun py_mapM :: "('a \<Rightarrow> 'b py) \<Rightarrow> 'a list \<Rightarrow> 'b list py" where
  "py_mapM f [] = Inr []"
| "py_mapM f (x # xs) = py_bind (f x) (\<lambda>y. py_bind (py_mapM f xs) (\<lambda>ys. Inr (y # ys)))"

text \<open>A float array of dimension 0, 1 or 2 (a 2-d array as its list of rows).\<close>

datatype ndarray = Nd0 pyfloat | Nd1 "pyfloat list" | Nd2 "pyfloat list list"

text \<open>\<^verbatim>\<open>np.squeeze\<close> of a non-empty matrix whose rows have one length.\<close>

definition np_squeeze :: "pyfloat list list \<Rightarrow> ndarray" where
  "np_squeeze m =
     (if length m = 1 \<and> length (hd m) = 1 then Nd0 (hd (hd m))
      else if length m = 1 then Nd1 (hd m)
      else if length (hd m) = 1 then Nd1 (map hd m)
      else Nd2 m)"

definition np_transpose :: "ndarray \<Rightarrow> ndarray" where
  "np_transpose a = (case a of Nd2 m \<Rightarrow> Nd2 (transpose m) | _ \<Rightarrow> a)"

text \<open>\<^verbatim>\<open>np.loadtxt(f, skiprows=1, unpack=True)\<close> on the text of \<open>f\<close>. No data gives an
  empty array.\<close>

definition loadtxt :: "string \<Rightarrow> ndarray py" where
  "loadtxt text =
     (let rows = loadtxt_rows text in
      if rows = [] then Inr (Nd1 [])
      else if \<not> list_all (\<lambda>r. length r = length (hd rows)) rows then Inl ValueError
      else py_bind (py_mapM (py_mapM np_float) rows) (\<lambda>m. Inr (np_transpose (np_squeeze m))))"

section \<open>loadASDFile\<close>

text \<open>The values \<open>loadASDFile\<close> returns: a Python list, a 1-d array, or a numpy scalar.\<close>

datatype asd_val = PyListV "pyfloat list" | NdArray "pyfloat list" | NpScalar pyfloat

text \<open>\<^verbatim>\<open>xdata, ydata = a\<close>: iteration over the first axis, which must have length two;
  a 0-d array is not iterable.\<close>

definition unpack2 :: "ndarray \<Rightarrow> (asd_val \<times> asd_val) py" where
  "unpack2 a =
     (case a of Nd0 _ \<Rightarrow> Inl TypeError
      | Nd1 xs \<Rightarrow> (case xs of [x, y] \<Rightarrow> Inr (NpScalar x, NpScalar y) | _ \<Rightarrow> Inl ValueError)
      | Nd2 m \<Rightarrow> (case m of [xs, ys] \<Rightarrow> Inr (NdArray xs, NdArray ys) | _ \<Rightarrow> Inl ValueError))"

definition loadASDFile :: "fsys \<Rightarrow> string \<Rightarrow> (asd_val \<times> asd_val) py" where
  "loadASDFile fs p =
     (if \<not> os_path_exists fs p then Inr (PyListV [], PyListV [])
      else py_bind (open_read fs p) (\<lambda>text. py_bind (loadtxt text) unpack2))"

text \<open>A data line of two zero-padded decimal fields, as a spectrometer export writes it.\<close>

definition asd_line :: "nat \<Rightarrow> nat \<times> nat \<Rightarrow> string" where
  "asd_line w xy = digits_of w (fst xy) @ '' '' @ digits_of w (snd xy)"

section \<open>Lemmas\<close>

lemma translate_newlines_no_CR: "CR \<notin> set s \<Longrightarrow> translate_newlines s = s"
  by (induction s rule: translate_newlines.induct) auto

lemma split_lines_acc_line:
  "LF \<notin> set l \<Longrightarrow> split_lines_acc acc (l @ LF # r) = (rev acc @ l @ [LF]) # split_lines_acc [] r"
  by (induction l arbitrary: acc) auto

lemma split_lines_acc_lines:
  "\<forall>l \<in> set ls. LF \<notin> set l \<Longrightarrow> split_lines_acc [] (concat (map (\<lambda>l. l @ [LF]) ls)) = map (\<lambda>l. l @ [LF]) ls"
  by (induction ls) (simp_all add: split_lines_acc_line)

lemma file_lines_header_lines:
  assumes "LF \<notin> set h" "CR \<notin> set h" "\<forall>l \<in> set ls. LF \<notin> set l \<and> CR \<notin> set l"
  shows "file_lines (h @ LF # concat (map (\<lambda>l. l @ [LF]) ls)) = (h @ [LF]) # map (\<lambda>l. l @ [LF]) ls"
proof -
  have "CR \<noteq> LF" by (simp add: CR_def LF_def)
  then have "translate_newlines (h @ LF # concat (map (\<lambda>l. l @ [LF]) ls)) = h @ LF # concat (map (\<lambda>l. l @ [LF]) ls)"
    using assms by (intro translate_newlines_no_CR) auto
  then show ?thesis
    using assms by (simp add: file_lines_def split_lines_acc_line split_lines_acc_lines)
qed

lemma split_ws_acc_word:
  "\<forall>c \<in> set w. \<not> py_isspace c \<Longrightarrow> split_ws_acc acc (w @ r) = split_ws_acc (rev w @ acc) r"
  by (induction w arbitrary: acc) auto

lemma digits_of_not_space: "\<forall>c \<in> set (digits_of w n). \<not> py_isspace c \<and> c \<noteq> CHR ''#'' \<and> c \<noteq> CHR ''_''"
  using digits_of_all_digits[of w n] by (auto simp: py_isdigit_def py_isspace_def)

lemma digits_of_Nil_iff [simp]: "digits_of w n = [] \<longleftrightarrow> w = 0"
  using length_digits_of[of w n] by (auto simp del: length_digits_of)

lemma line_fields_pair:
  assumes "0 < w"
  shows "line_fields (digits_of w x @ CHR '' '' # digits_of w y @ [LF]) = [digits_of w x, digits_of w y]"
proof -
  have sp: "py_isspace CHR '' ''" "py_isspace LF" "CHR '' '' \<noteq> CHR ''#''" "LF \<noteq> CHR ''#''"
    by (simp_all add: py_isspace_def LF_def)
  have "takeWhile (\<lambda>c. c \<noteq> CHR ''#'') (digits_of w x @ CHR '' '' # digits_of w y @ [LF])
        = digits_of w x @ CHR '' '' # digits_of w y @ [LF]"
    using digits_of_not_space[of w x] digits_of_not_space[of w y] sp by (simp add: takeWhile_append2)
  moreover have "split_ws_acc [] (digits_of w x @ CHR '' '' # digits_of w y @ [LF]) = [digits_of w x, digits_of w y]"
    using digits_of_not_space[of w x] digits_of_not_space[of w y] sp assms
    by (simp add: split_ws_acc_word)
  ultimately show ?thesis by (simp add: line_fields_def)
qed

lemma np_float_digits:
  assumes "ds \<noteq> []" "\<forall>c \<in> set ds. py_isdigit c" "digits_val ds < 2 ^ 53"
  shows "np_float ds = Inr (Fin (of_nat (digits_val ds)))"
proof -
  have "CHR ''_'' \<notin> set ds"
    using assms(2) by (auto simp: py_isdigit_def)
  then show ?thesis
    using py_float_digits[OF assms] by (simp add: np_float_def py_float_def)
qed

lemma np_float_digits_of:
  assumes "0 < w" "x < 10 ^ w" "10 ^ w \<le> (2::nat) ^ 53"
  shows "np_float (digits_of w x) = Inr (Fin (of_nat x))"
  using assms np_float_digits[of "digits_of w x"] digits_of_all_digits[of w x] by simp

lemma py_mapM_Inr_map: "(\<And>x. x \<in> set xs \<Longrightarrow> f x = Inr (g x)) \<Longrightarrow> py_mapM f xs = Inr (map g xs)"
  by (induction xs) simp_all

lemma transpose_pairs: "ps \<noteq> [] \<Longrightarrow> transpose (map (\<lambda>x. [f x, g x]) ps) = [map f ps, map g ps]"
proof (induction ps)
  case (Cons p ps)
  then show ?case by (cases ps) auto
qed simp

lemma unpack2_not_list: "unpack2 a = Inr (u, v) \<Longrightarrow> (\<forall>xs. u \<noteq> PyListV xs) \<and> (\<forall>xs. v \<noteq> PyListV xs)"
  by (auto simp: unpack2_def split: ndarray.splits list.splits)

lemma asd_line_no_break: "LF \<notin> set (asd_line w xy) \<and> CR \<notin> set (asd_line w xy)"
proof -
  have "py_isspace LF" "py_isspace CR" "CR \<noteq> CHR '' ''" "LF \<noteq> CHR '' ''"
    by (simp_all add: py_isspace_def LF_def CR_def)
  then show ?thesis
    using digits_of_not_space[of w "fst xy"] digits_of_not_space[of w "snd xy"]
    by (auto simp: asd_line_def)
qed

lemma loadtxt_rows_asd_lines:
  assumes "LF \<notin> set h" "CR \<notin> set h" "0 < w"
  shows "loadtxt_rows (h @ LF # concat (map (\<lambda>xy. asd_line w xy @ [LF]) ps))
         = map (\<lambda>xy. [digits_of w (fst xy), digits_of w (snd xy)]) ps"
proof -
  have eq: "concat (map (\<lambda>xy. asd_line w xy @ [LF]) ps) = concat (map (\<lambda>l. l @ [LF]) (map (asd_line w) ps))"
    by (simp add: comp_def)
  have fl: "file_lines (h @ LF # concat (map (\<lambda>l. l @ [LF]) (map (asd_line w) ps)))
            = (h @ [LF]) # map (\<lambda>l. l @ [LF]) (map (asd_line w) ps)"
    by (rule file_lines_header_lines) (use assms asd_line_no_break in auto)
  show ?thesis
    unfolding eq loadtxt_rows_def fl by (simp add: comp_def asd_line_def line_fields_pair assms)
qed

lemma concat_nonempty_Nil: "list_all (\<lambda>r. r \<noteq> []) l \<Longrightarrow> concat l = [] \<longleftrightarrow> l = []"
  by (cases l) auto

lemma rows_of_two_values:
  assumes "list_all (\<lambda>r. r \<noteq> []) rows" "concat rows = [a, b]"
  shows "rows = [[a, b]] \<or> rows = [[a], [b]]"
proof (cases rows)
  case (Cons r rs)
  then show ?thesis
    using assms by (cases r; cases rs) (auto simp: Cons_eq_append_conv append_eq_Cons_conv concat_nonempty_Nil
        simp del: concat_eq_Nil_conv)
qed (use assms in simp)

lemma list_all_loadtxt_rows: "list_all (\<lambda>r. r \<noteq> []) (loadtxt_rows text)"
  by (simp add: loadtxt_rows_def list_all_iff)

lemma py_mapM_Inl: "py_mapM f xs = Inl e \<Longrightarrow> \<exists>x \<in> set xs. f x = Inl e"
  by (induction xs) (auto simp: py_bind_eq_Inl)

lemma np_float_Inl: "np_float s = Inl e \<Longrightarrow> e = ValueError"
  by (auto simp: np_float_def dest: float_inner_Inl split: if_splits)

lemma loadtxt_Inl: "loadtxt text = Inl e \<Longrightarrow> e = ValueError"
  by (auto simp: loadtxt_def Let_def py_bind_eq_Inl dest!: py_mapM_Inl np_float_Inl split: if_splits)

lemma unpack2_Inl: "unpack2 a = Inl e \<Longrightarrow> e \<in> {ValueError, TypeError}"
  by (auto simp: unpack2_def split: ndarray.splits list.splits)

text \<open>The exceptions \<open>loadASDFile\<close> lets through: a directory, a malformed or ragged data
  file, and a file holding a single value, which \<^verbatim>\<open>np.squeeze\<close> makes a 0-d array.\<close>

lemma loadASDFile_Inl:
  "loadASDFile fs p = Inl e \<Longrightarrow> e \<in> {IsADirectoryError, ValueError, TypeError}"
  using loadtxt_Inl unpack2_Inl unfolding loadASDFile_def os_path_exists_def open_read_def
  by (fastforce simp: py_bind_eq_Inl split: if_splits option.splits fentry.splits)

text \<open>C27: the two empty lists are the answer for a missing path and for nothing else:
  an existing file gives numpy values or an exception, never a Python list.\<close>

theorem loadASDFile_empty_lists_iff:
  "loadASDFile fs p = Inr (PyListV [], PyListV []) \<longleftrightarrow> fs p = None"
  by (auto simp: loadASDFile_def os_path_exists_def py_bind_def dest: unpack2_not_list
           split: sum.splits)

text \<open>C31: a file made of a header line and at least two data lines of two decimal fields
  loads as its two columns, each a 1-d array holding the values in file order.\<close>

theorem loadASDFile_columns:
  assumes "fs p = Some (File (h @ LF # concat (map (\<lambda>xy. asd_line w xy @ [LF]) ps)))"
    and "LF \<notin> set h" "CR \<notin> set h" "0 < w" "10 ^ w \<le> (2::nat) ^ 53" "2 \<le> length ps"
    and "list_all (\<lambda>(x, y). x < 10 ^ w \<and> y < 10 ^ w) ps"
  shows "loadASDFile fs p = Inr (NdArray (map (\<lambda>xy. Fin (of_nat (fst xy))) ps),
                                 NdArray (map (\<lambda>xy. Fin (of_nat (snd xy))) ps))"
proof -
  let ?m = "map (\<lambda>xy. [Fin (of_nat (fst xy)), Fin (of_nat (snd xy))]) ps"
  have conv: "py_mapM (py_mapM np_float) (map (\<lambda>xy. [digits_of w (fst xy), digits_of w (snd xy)]) ps) = Inr ?m"
    using assms(4,5,7)
    by (intro py_mapM_Inr_map[where g = "\<lambda>r. map (\<lambda>f. Fin (of_nat (digits_val f))) r", THEN trans])
       (auto simp: list_all_iff np_float_digits_of py_mapM_Inr_map comp_def)
  have ne: "ps \<noteq> []" "length ps \<noteq> 1" using assms(6) by auto
  have "np_transpose (np_squeeze ?m) = Nd2 [map (\<lambda>xy. Fin (of_nat (fst xy))) ps, map (\<lambda>xy. Fin (of_nat (snd xy))) ps]"
    using ne by (auto simp: np_squeeze_def np_transpose_def transpose_pairs hd_map)
  then show ?thesis
    using assms(1-4) ne conv
    by (simp add: loadASDFile_def os_path_exists_def open_read_def loadtxt_def loadtxt_rows_asd_lines
        Let_def hd_map list_all_iff unpack2_def)
qed

text \<open>C34: a file with exactly two values, on one data line or on two, loads as two numpy
  scalars rather than two columns: numpy squeezes the length-one axis away before the unpacking.\<close>

theorem loadASDFile_two_values:
  assumes "fs p = Some (File text)" "concat (loadtxt_rows text) = [a, b]"
    and "np_float a = Inr x" "np_float b = Inr y"
  shows "loadASDFile fs p = Inr (NpScalar x, NpScalar y)"
proof -
  from rows_of_two_values[OF list_all_loadtxt_rows assms(2)]
  have "loadtxt text = Inr (Nd1 [x, y])"
    using assms(3,4) by (auto simp: loadtxt_def np_squeeze_def np_transpose_def)
  then show ?thesis
    using assms(1) by (simp add: loadASDFile_def os_path_exists_def open_read_def unpack2_def)
qed

theorem loadASDFile_columns_witness:
  "loadASDFile (\<lambda>q. if q = ''spec.asd'' then Some (File (''Wavelength Radiance'' @ LF #
       concat (map (\<lambda>xy. asd_line 3 xy @ [LF]) [(350, 1), (351, 20)]))) else None) ''spec.asd''
   = Inr (NdArray [Fin 350, Fin 351], NdArray [Fin 1, Fin 20])"
  using loadASDFile_columns[of "\<lambda>q. if q = ''spec.asd'' then Some (File (''Wavelength Radiance'' @ LF #
       concat (map (\<lambda>xy. asd_line 3 xy @ [LF]) [(350, 1), (351, 20)]))) else None"
     "''spec.asd''" "''Wavelength Radiance''" 3 "[(350, 1), (351, 20)]"]
  by (simp add: LF_def CR_def)

theorem loadASDFile_two_values_witness:
  "loadASDFile (\<lambda>q. if q = ''leaf.asd'' then Some (File ''Wavelength\<newline>350\<newline>351\<newline>'') else None)
     ''leaf.asd'' = Inr (NpScalar (Fin 350), NpScalar (Fin 351))"
proof -
  have "np_float ''350'' = Inr (Fin 350)" "np_float ''351'' = Inr (Fin 351)"
    using np_float_digits[of "''350''"] np_float_digits[of "''351''"]
    by (simp_all add: digits_val_def digit_val_def py_isdigit_def)
  then show ?thesis
    using loadASDFile_two_values[of "\<lambda>q. if q = ''leaf.asd'' then Some (File ''Wavelength\<newline>350\<newline>351\<newline>'') else None"
        "''leaf.asd''" "''Wavelength\<newline>350\<newline>351\<newline>''" "''350''" "''351''"]
    by (simp add: loadtxt_rows_def file_lines_def LF_def CR_def line_fields_def py_isspace_def)
qed

end
