(* ===== verification/Spec2Isabelle.thy ===== *)
theory Spec2Isabelle
  imports SunPath Exif RawCheck Utility FindFiles FileOps RunCmd Copy FileTime AsdFile
begin

text \<open>
  A model of the helper modules of SpectralSkyViewer, \<^verbatim>\<open>src/utility_data.py\<close> and
  \<^verbatim>\<open>src/utility.py\<close>, for CPython 3.12, with the properties that make them correct and
  the places where they are not.

  \<^bold>\<open>The program.\<close> \<^verbatim>\<open>utility_data.py\<close> holds the core: \<^verbatim>\<open>loadSunPath\<close> reads a solar
  position export (\<^verbatim>\<open>spa.csv\<close>) with \<^verbatim>\<open>csv.reader\<close>, \<^verbatim>\<open>datetime.strptime\<close> and
  \<^verbatim>\<open>float\<close>; \<^verbatim>\<open>imageEXIFTag\<close>, \<^verbatim>\<open>imageEXIF\<close> and \<^verbatim>\<open>imageEXIFDateTime\<close> read photo
  metadata through \<^verbatim>\<open>exifread\<close>; \<^verbatim>\<open>isHDRRawAvailable\<close> looks for a raw sibling with
  \<^verbatim>\<open>os.path\<close>. \<^verbatim>\<open>utility.py\<close> repeats the EXIF functions and adds general helpers:
  \<^verbatim>\<open>clamp\<close>, \<^verbatim>\<open>normalize\<close>, \<^verbatim>\<open>verifyDateTime\<close>, \<^verbatim>\<open>findFiles\<close>, \<^verbatim>\<open>cleanFolder\<close>,
  \<^verbatim>\<open>copy\<close>, \<^verbatim>\<open>fileModDateTime\<close>, and \<^verbatim>\<open>runCMD\<close> with its timer callback
  \<^verbatim>\<open>killProcess\<close>; \<^verbatim>\<open>utility_data.py\<close> also has \<^verbatim>\<open>loadASDFile\<close>, a reader of
  spectrometer data through \<^verbatim>\<open>numpy.loadtxt\<close>. The functions do not call one another except through the
  libraries, and they share the libraries' behaviour, so the library functions the code
  calls are modelled once and shared.

  \<^bold>\<open>Conventions.\<close> A Python exception is a value of \<open>py_exc\<close>. A fallible computation has
  type \<open>'a py = py_exc + 'a\<close>, with \<open>Inl\<close> the exception, and \<open>py_bind\<close> propagates an
  uncaught exception. A \<^verbatim>\<open>try\<close>/\<^verbatim>\<open>except\<close> is a case on the result. The file system
  is a map from path strings to files and directories (\<open>fsys\<close>). Directory listings are
  a parameter \<open>ls\<close>, in the operating system's order, constrained by \<open>listing_ok\<close>.
  Text is a list of ASCII characters. Python's unbounded \<^verbatim>\<open>int\<close> is \<open>int\<close> or \<open>nat\<close>.
  A \<^verbatim>\<open>float\<close> is \<open>pyfloat\<close>, a rational or an infinity or NaN, produced by IEEE
  binary64 rounding.

  \<^bold>\<open>Theories and what they model.\<close>
  \<^item> \<open>Prelude\<close>: exceptions, \<open>py_bind\<close>, \<^verbatim>\<open>str.isspace\<close>/\<^verbatim>\<open>lower\<close>/\<^verbatim>\<open>strip\<close>,
    decimal digit strings (\<open>digits_val\<close>, zero-padded \<open>digits_of\<close>).
  \<^item> \<open>DateTime\<close>: \<^verbatim>\<open>datetime\<close> as a datatype of its seven fields with the constructor's
    checks (\<open>mk_datetime\<close>), \<^verbatim>\<open>datetime.min\<close>, and the order of datetimes as a
    \<open>linorder\<close> instance.
  \<^item> \<open>Strptime\<close>: \<^verbatim>\<open>_strptime\<close>. The format is compiled to CPython's regex
    (\<open>compile_fmt\<close>, \<open>directive_alts\<close>). The regex is matched by the backtracking
    search (\<open>match_first\<close>), which is proved to return the first of all matches
    (\<open>match_first_eq_hd\<close>). The whole string must be consumed, and the groups are
    converted with the leap-year fix (\<open>fields_datetime\<close>).
  \<^item> \<open>PyFloat\<close>: \<^verbatim>\<open>float(str)\<close> (\<open>py_float\<close>), rounding (\<open>to_double\<close>), \<^verbatim>\<open>-\<close>,
    \<^verbatim>\<open>/\<close>, \<^verbatim>\<open><\<close>, \<^verbatim>\<open><=\<close> with their NaN and infinity rules.
  \<^item> \<open>Csv\<close>: universal newlines and the \<^verbatim>\<open>_csv.c\<close> reader state machine
    (\<open>process_char\<close>, \<open>csv_rows\<close>).
  \<^item> \<open>PathOps\<close>: \<^verbatim>\<open>os.path.exists/isfile/isdir/join/splitext\<close>, \<^verbatim>\<open>os.listdir\<close>,
    \<^verbatim>\<open>open\<close>.
  \<^item> \<open>SunPath\<close>: \<^verbatim>\<open>loadSunPath\<close>. The loop body is \<open>sun_row\<close>, the loop is
    \<open>sun_rows\<close>, and the header skip and reader error are \<open>sun_loop\<close>. Claims C1 to C8.
  \<^item> \<open>Exif\<close>: the EXIF functions of both modules. \<^verbatim>\<open>exifread.process_file\<close> is the
    parameter \<open>pf\<close>, a total function of the file's contents, so the claims about the
    extractor hold for every tag reader that returns without raising. Claims C10 to C13.
  \<^item> \<open>RawCheck\<close>: \<^verbatim>\<open>isHDRRawAvailable\<close> (loop \<open>raw_loop\<close>), against the
    loop-free \<open>raw_available_spec\<close>. Claims C15, C17 and C18.
  \<^item> \<open>Calendar\<close>: the proleptic Gregorian calendar of CPython's \<^verbatim>\<open>datetime\<close>
    (\<open>ymd2ord\<close>, \<open>ord2ymd\<close> for \<^verbatim>\<open>_ymd2ord\<close>, \<^verbatim>\<open>_ord2ymd\<close>) over unbounded
    integers. \<open>ord2ymd_ymd2ord\<close> and \<open>ymd2ord_ord2ymd\<close> prove them inverse
    bijections, through the mixed-radix digits 146097/36524/1461/365 of a day count.
  \<^item> \<open>FileTime\<close>: \<^verbatim>\<open>fileModDateTime\<close> (lines 70-72 of \<^verbatim>\<open>utility.py\<close>):
    \<^verbatim>\<open>os.path.getmtime\<close> (\<open>getmtime\<close>, the modification time a function \<open>mtime\<close>
    of the path) and \<^verbatim>\<open>datetime.fromtimestamp\<close> as CPython 3.12 computes it
    (\<open>fromtimestamp\<close>): rounding to microseconds half to even
    (\<open>double_to_denominator\<close>), the \<^verbatim>\<open>time_t\<close> range (\<^verbatim>\<open>OverflowError\<close>),
    \<^verbatim>\<open>localtime\<close> in a zone of fixed UTC offset \<open>off\<close> (\<^verbatim>\<open>OSError\<close> when the year
    leaves the C int), \<^verbatim>\<open>utc_to_seconds\<close> (\<^verbatim>\<open>ValueError\<close> outside years 1..9999), and
    the fold probe one day earlier (\<open>local\<close>, \<open>datetime_from_timet_and_us\<close>).
    Claims C9, C14, C16 and C19.
  \<^item> \<open>Utility\<close>: \<^verbatim>\<open>clamp\<close>, \<^verbatim>\<open>normalize\<close> and \<^verbatim>\<open>verifyDateTime\<close>. Their
    arguments are Python numbers (\<open>pynum\<close>, an int or a float), with mixed arithmetic
    and CPython's \<^verbatim>\<open>min\<close>/\<^verbatim>\<open>max\<close>. Claims C20 to C26.
  \<^item> \<open>FindFiles\<close>: \<^verbatim>\<open>findFiles\<close>. The immediate branch reads \<^verbatim>\<open>os.listdir\<close>. The
    recursive branch runs \<^verbatim>\<open>os.walk\<close> as CPython 3.12 does, over an explicit stack
    (\<open>os_walk\<close>, a \<open>partial_function\<close>). Claims C28 to C30.
  \<^item> \<open>AsdFile\<close>: \<^verbatim>\<open>loadASDFile\<close> (lines 121-125 of \<^verbatim>\<open>utility_data.py\<close>) with the
    part of \<^verbatim>\<open>numpy.loadtxt(filepath, skiprows=1, unpack=True)\<close> it uses (\<open>loadtxt\<close>):
    universal newlines, the header skipped, \<^verbatim>\<open>#\<close> comments, whitespace-separated
    fields, empty rows dropped, ragged rows a \<^verbatim>\<open>ValueError\<close>, fields parsed as
    \<^verbatim>\<open>float()\<close> without underscores, \<^verbatim>\<open>np.squeeze\<close> and the transpose, and the
    unpacking into two values (\<open>unpack2\<close>). Claims C27, C31 and C34.
  \<^item> \<open>FileOps\<close>: \<^verbatim>\<open>cleanFolder\<close> with \<^verbatim>\<open>os.unlink\<close>/\<^verbatim>\<open>shutil.rmtree\<close> on the
    file system, state passed and returned with the exception. Claims C37 and C38.
  \<^item> \<open>RunCmd\<close>: \<^verbatim>\<open>runCMD\<close> and \<^verbatim>\<open>killProcess\<close> as an inductive step relation
    (\<open>run_step\<close>). It interleaves the child process, the timer thread and the main
    thread. The model starts after a successful \<^verbatim>\<open>Popen\<close>: a command string that
    \<^verbatim>\<open>shlex.split\<close> rejects (\<^verbatim>\<open>ValueError\<close>) or a program that does not exist
    (\<^verbatim>\<open>FileNotFoundError\<close>) raises before any thread starts. Claims C32, C33, C35, C36.
  \<^item> \<open>Shutil\<close>: the library functions \<^verbatim>\<open>copy\<close> calls: \<^verbatim>\<open>os.path.split\<close>,
    \<^verbatim>\<open>os.mkdir\<close>, \<^verbatim>\<open>os.makedirs\<close>, \<^verbatim>\<open>open\<close> for writing,
    \<^verbatim>\<open>shutil.copyfile/copy/copytree\<close>. \<open>copytree_correct\<close> proves the contract
    \<open>copytree_spec\<close>: on a well-formed source tree (\<open>tree_ok\<close>) and a fresh
    destination, \<^verbatim>\<open>copytree\<close> grafts the source at the destination (\<open>graft\<close>).
  \<^item> \<open>Copy\<close>: \<^verbatim>\<open>copy\<close> (\<open>copy\<close>, its loop \<open>copy_loop\<close>), over the same
    file system, with directory listings that are a function of the current file system.
    Claims C39 and C40.

  \<^bold>\<open>What the lemmas show.\<close>
  \<^item> The sun-path loader on the specification's example (C1).
  \<^item> Every returned record has altitude in \<open>[0, 90]\<close> and a valid timestamp (C2).
  \<^item> The loader is an order-preserving filter of the records (C3). On rendered SPA records
    it returns exactly \<open>(azimuth, 90 - zenith, time)\<close> for zenith at most 90 (C4).
  \<^item> A bad date skips its row, while a short record or a non-numeric angle aborts the
    load (C5, C6, C8); a missing export gives no records (C7).
  \<^item> The modification time:
    \<^item> a timestamp of a valid datetime reads back as that datetime, microseconds
      included (C9);
    \<^item> every time between 0001-01-02 and 9999-12-31 gives a valid datetime (C16);
    \<^item> a time on 0001-01-01 raises \<^verbatim>\<open>ValueError\<close> (C14);
    \<^item> the exact set of exceptions (C19).
  \<^item> The EXIF timestamp:
    \<^item> the sentinel for a missing or empty tag (C10);
    \<^item> the round trip through the \<^verbatim>\<open>YYYY:MM:DD HH:MM:SS\<close> rendering (C11);
    \<^item> the exact set of exceptions (C12);
    \<^item> the agreement of the two modules (C13).
  \<^item> The raw checker equals its loop-free specification, which looks the sibling up
    under the lower-cased path (C15); a missing photo has no raw file (C17); a raw
    sibling is found (C18).
  \<^item> \<open>clamp\<close> returns the bound that \<open>n\<close> crosses, or \<open>n\<close>, and so lies between the
    bounds (C20); NaN passes through (C21).
  \<^item> \<open>normalize\<close> of integers lies in \<open>[0, 1]\<close> and is exact at the ends (C22, C23);
    an empty range raises (C24).
  \<^item> \<open>verifyDateTime\<close> answers without raising for formats of distinct modelled
    directives (C25), and raises \<^verbatim>\<open>re.error\<close> for every format repeating one (C26).
  \<^item> \<open>findFiles\<close> lists a directory exactly (C28), disagrees with itself on a missing
    directory (C29) and crashes on a blank extension (C30). The lemma
    \<open>findFiles_terminates\<close> shows that it returns on every finite file system.
  \<^item> \<open>loadASDFile\<close>:
    \<^item> returns two empty lists exactly for a missing path (C27);
    \<^item> loads a header and two-field rows as the two columns (C31);
    \<^item> turns a file of two values into two scalars (C34).
  \<^item> \<open>runCMD\<close>:
    \<^item> a kill always sets the flag (C32);
    \<^item> a result without timeout carries the command's own exit code (C33);
    \<^item> a command that does not exit is ended by the timer, with result \<open>(-9, True)\<close>
      (C35);
    \<^item> a finished command can still be reported as timed out (C36).
  \<^item> \<open>cleanFolder\<close> empties a folder exactly (C37), and a refused removal raises
    \<^verbatim>\<open>AttributeError\<close> (C38).
  \<^item> \<open>copy\<close>:
    \<^item> merges a directory tree into an existing directory, entry for entry (C39);
    \<^item> raises and changes nothing when the destination is missing and the first
      listed entry is a file (C40); the lemma \<open>copy_listing_order\<close> shows that the
      same tree copies when a subdirectory is listed first.

  \<^bold>\<open>Bounds, fuel and termination.\<close>
  \<^item> Float exactness is proved for integers below \<open>2\<^sup>5\<^sup>3\<close>, the range where binary64
    represents every integer. SPA angles and pixel ranges lie far inside it.
  \<^item> Only \<^verbatim>\<open>shutil.copytree\<close> uses fuel. Its recursion follows the directory levels of a
    file system that the copy itself changes. The fuel \<open>k\<close> counts the levels, and
    \<open>copytree_correct\<close> shows that fuel above the depth of the source tree (in path
    length) always gives a result. The samples use 3 and 10.
  \<^item> The other models need no fuel:
    \<^item> \<open>splitext_loop\<close> and \<open>compile_fmt\<close> terminate by a measure;
    \<^item> \<open>os_walk\<close> is partial, and \<open>findFiles_terminates\<close> proves it ends on finite
      file systems, with the measure \<open>\<Sum> (N+1)\<^bsup>L+1-|p|\<^esup>\<close> over the stack;
    \<^item> every interleaving of \<open>run_step\<close> has at most seven steps.
  \<^item> The csv field limit is CPython's 131072.
  \<^item> The time-zone offset \<open>off\<close> is at most a day in magnitude (the zones in use lie
    between UTC-12 and UTC+14). This keeps the fold probe, one day before the local
    time, within a day of the calendar's range. C16 covers every local time from
    0001-01-02 to 9999-12-31, the times for which \<^verbatim>\<open>fromtimestamp\<close> succeeds.

  \<^bold>\<open>Not modelled.\<close>
  \<^item> File metadata copied by \<^verbatim>\<open>shutil\<close> (\<^verbatim>\<open>copystat\<close>, \<^verbatim>\<open>copymode\<close>).
  \<^item> Time zones whose offset changes (daylight saving time): the zone of
    \<^verbatim>\<open>fileModDateTime\<close> has one fixed offset.
  \<^item> The options of \<^verbatim>\<open>numpy.loadtxt\<close> that \<^verbatim>\<open>loadASDFile\<close> does not pass (dtype,
    delimiter, usecols, converters, quotes).
  \<^item> The internals of \<^verbatim>\<open>exifread\<close>, which is a parameter.
  \<^item> Locale-dependent \<^verbatim>\<open>strptime\<close> directives. They yield \<open>Unmodelled\<close>.
  \<^item> Non-ASCII text.
  \<^item> Symbolic links, permissions other than refusal, and path normalisation.
  \<^item> A partial \<^verbatim>\<open>rmtree\<close> failure: a refused removal changes nothing.
  \<^item> Real time in \<^verbatim>\<open>runCMD\<close>, and the command's output streams.
\<close>

end
